theory Spec2Isabelle
  imports Complex_Main
begin

section \<open>Vectors and line segments\<close>

text \<open>
  The geometry code is a family of templates over a vector type \<open>t_vec\<close> with real
  components. Two-dimensional vectors are pairs of reals here; the components are the
  mathematical reals, so rounding of the machine type is not part of the model.
\<close>

type_synonym t_vec = "real \<times> real"
type_synonym t_line = "t_vec \<times> t_vec"

definition vec_add :: "t_vec \<Rightarrow> t_vec \<Rightarrow> t_vec" where
  "vec_add a b = (fst a + fst b, snd a + snd b)"

definition vec_sub :: "t_vec \<Rightarrow> t_vec \<Rightarrow> t_vec" where
  "vec_sub a b = (fst a - fst b, snd a - snd b)"

definition vec_neg :: "t_vec \<Rightarrow> t_vec" where
  "vec_neg a = (- fst a, - snd a)"

definition vec_mul :: "t_vec \<Rightarrow> real \<Rightarrow> t_vec" where
  "vec_mul a s = (fst a * s, snd a * s)"

definition vec_div :: "t_vec \<Rightarrow> real \<Rightarrow> t_vec" where
  "vec_div a s = (fst a / s, snd a / s)"

definition norm_vec :: "t_vec \<Rightarrow> real" where
  "norm_vec a = sqrt (fst a * fst a + snd a * snd a)"


section \<open>Roadmap graph\<close>

text \<open>
  Modelled from the spec: the graph classes \<open>AdjacencyMatrix\<close> and \<open>AdjacencyList\<close> of
  \<open>graphs.h\<close> are not among the source files. The operations are the ones the spec
  lists (add-vertex, add-edge, remove-vertex with cascaded edge removal, neighbours-of,
  vertex-ident to vertex-index). An edge is stored in the direction it is added:
  \<open>calc_voro\<close> adds both directions itself, and the Dijkstra unit test expects the
  predecessors of a directed graph.
\<close>

record 'w adjacency_matrix =
  vertexidents :: "string list"
  weight :: "nat \<Rightarrow> nat \<Rightarrow> 'w option"

definition empty_graph :: "'w adjacency_matrix" where
  "empty_graph = \<lparr> vertexidents = [], weight = (\<lambda>a b. None) \<rparr>"

fun index_from :: "nat \<Rightarrow> 'a list \<Rightarrow> 'a \<Rightarrow> nat option" where
  "index_from i [] x = None"
| "index_from i (y # ys) x = (if y = x then Some i else index_from (Suc i) ys x)"

definition GetNumVertices :: "'w adjacency_matrix \<Rightarrow> nat" where
  "GetNumVertices g = length (vertexidents g)"

definition GetVertexIdent :: "'w adjacency_matrix \<Rightarrow> nat \<Rightarrow> string" where
  "GetVertexIdent g i = vertexidents g ! i"

definition GetVertexIndex :: "'w adjacency_matrix \<Rightarrow> string \<Rightarrow> nat option" where
  "GetVertexIndex g ident = index_from 0 (vertexidents g) ident"

definition AddVertex :: "'w adjacency_matrix \<Rightarrow> string \<Rightarrow> 'w adjacency_matrix" where
  "AddVertex g ident = g \<lparr> vertexidents := vertexidents g @ [ident] \<rparr>"

definition AddEdge :: "'w adjacency_matrix \<Rightarrow> nat \<Rightarrow> nat \<Rightarrow> 'w \<Rightarrow> 'w adjacency_matrix" where
  "AddEdge g i j w =
     (if i < GetNumVertices g \<and> j < GetNumVertices g
      then g \<lparr> weight := (\<lambda>a b. if a = i \<and> b = j then Some w else weight g a b) \<rparr>
      else g)"

definition GetNeighbours :: "'w adjacency_matrix \<Rightarrow> string \<Rightarrow> bool \<Rightarrow> string list" where
  "GetNeighbours g ident outgoing =
     (case GetVertexIndex g ident of
        None \<Rightarrow> []
      | Some i \<Rightarrow>
          map (GetVertexIdent g)
            (filter (\<lambda>j. (if outgoing then weight g i j else weight g j i) \<noteq> None)
               [0 ..< GetNumVertices g]))"

definition skip_index :: "nat \<Rightarrow> nat \<Rightarrow> nat" where
  "skip_index i a = (if a < i then a else Suc a)"

definition RemoveVertex :: "'w adjacency_matrix \<Rightarrow> string \<Rightarrow> 'w adjacency_matrix" where
  "RemoveVertex g ident =
     (case GetVertexIndex g ident of
        None \<Rightarrow> g
      | Some i \<Rightarrow>
          \<lparr> vertexidents = take i (vertexidents g) @ drop (Suc i) (vertexidents g),
            weight = (\<lambda>a b. weight g (skip_index i a) (skip_index i b)) \<rparr>)"

text \<open>\<open>std::to_string\<close> on an unsigned number: its decimal digits.\<close>

definition digit_char :: "nat \<Rightarrow> char" where
  "digit_char d = char_of (48 + d)"

fun to_string :: "nat \<Rightarrow> string" where
  "to_string n = (if n < 10 then [digit_char n] else to_string (n div 10) @ [digit_char (n mod 10)])"

declare to_string.simps [simp del]


section \<open>Voronoi diagram of line segments\<close>

text \<open>
  \<open>calc_voro\<close> hands the scaled segments to the Voronoi builder of the polygon library
  and then walks the diagram the library returns. The library is not part of the
  repository: its diagram is an argument of the model. A vertex pointer of the library
  is the position of the vertex in the diagram's vertex array, \<open>None\<close> the null pointer.
\<close>

datatype source_category =
    SOURCE_CATEGORY_SINGLE_POINT
  | SOURCE_CATEGORY_SEGMENT_START_POINT
  | SOURCE_CATEGORY_SEGMENT_END_POINT
  | SOURCE_CATEGORY_INITIAL_SEGMENT
  | SOURCE_CATEGORY_REVERSE_SEGMENT

record voronoi_cell =
  source_index :: nat
  source_category :: source_category

definition contains_point :: "voronoi_cell \<Rightarrow> bool" where
  "contains_point c =
     (source_category c = SOURCE_CATEGORY_SINGLE_POINT
      \<or> source_category c = SOURCE_CATEGORY_SEGMENT_START_POINT
      \<or> source_category c = SOURCE_CATEGORY_SEGMENT_END_POINT)"

record voronoi_edge =
  is_secondary :: bool
  is_curved :: bool
  vertex0 :: "nat option"
  vertex1 :: "nat option"
  cell :: "voronoi_cell option"
  twin_cell :: "voronoi_cell option"

definition is_finite :: "voronoi_edge \<Rightarrow> bool" where
  "is_finite e = (vertex0 e \<noteq> None \<and> vertex1 e \<noteq> None)"

record voronoi_diagram =
  voro_vertices :: "t_vec list"
  voro_edges :: "voronoi_edge list"

datatype error = OutOfRange nat nat

type_synonym linear_edge = "t_line \<times> nat option \<times> nat option"
type_synonym parabolic_edge = "t_vec list \<times> nat \<times> nat"

record voro_state =
  graph :: "real adjacency_matrix"
  linear_edges :: "linear_edge list"
  all_parabolic_edges :: "parabolic_edge list"

text \<open>Length of the infinite edges: ten times the longest segment, and at least ten.\<close>

definition segment_length :: "t_line \<Rightarrow> real" where
  "segment_length line = norm_vec (vec_sub (snd line) (fst line))"

definition infline_len :: "t_line list \<Rightarrow> real" where
  "infline_len lines = fold (\<lambda>line len. max len (segment_length line)) lines 1 * 10"

definition voro_scale :: "real \<Rightarrow> real" where
  "voro_scale edge_eps = real_of_int \<lceil>1 / (edge_eps * edge_eps)\<rceil>"

definition get_segment_idx :: "voronoi_edge \<Rightarrow> bool \<Rightarrow> nat option" where
  "get_segment_idx e twin =
     (case (if twin then twin_cell e else cell e) of
        None \<Rightarrow> None
      | Some c \<Rightarrow> Some (source_index c))"

fun get_group_idx_from :: "nat \<Rightarrow> (nat \<times> nat) list \<Rightarrow> nat \<Rightarrow> nat option" where
  "get_group_idx_from grpidx [] segidx = None"
| "get_group_idx_from grpidx ((grp_beg, grp_end) # gs) segidx =
     (if segidx \<ge> grp_beg \<and> segidx < grp_end then Some grpidx
      else get_group_idx_from (Suc grpidx) gs segidx)"

definition get_group_idx :: "(nat \<times> nat) list \<Rightarrow> nat \<Rightarrow> nat option" where
  "get_group_idx line_groups segidx = get_group_idx_from 0 line_groups segidx"

definition get_vertex_idx :: "voronoi_diagram \<Rightarrow> nat option \<Rightarrow> nat option" where
  "get_vertex_idx voro vert =
     (case vert of
        None \<Rightarrow> None
      | Some p \<Rightarrow> (if p < length (voro_vertices voro) then Some p else None))"

definition get_segment :: "t_line list \<Rightarrow> voronoi_edge \<Rightarrow> bool \<Rightarrow> t_line option" where
  "get_segment lines e twin =
     (case get_segment_idx e twin of
        None \<Rightarrow> None
      | Some idx \<Rightarrow> Some (lines ! idx))"

definition get_segment_point :: "t_line list \<Rightarrow> voronoi_edge \<Rightarrow> bool \<Rightarrow> t_vec option" where
  "get_segment_point lines e twin =
     (case (if twin then twin_cell e else cell e) of
        None \<Rightarrow> None
      | Some c \<Rightarrow>
          (case get_segment lines e twin of
             None \<Rightarrow> None
           | Some line \<Rightarrow>
               (case source_category c of
                  SOURCE_CATEGORY_SEGMENT_START_POINT \<Rightarrow> Some (fst line)
                | SOURCE_CATEGORY_SEGMENT_END_POINT \<Rightarrow> Some (snd line)
                | _ \<Rightarrow> None)))"

text \<open>The vertex array of the result: the diagram's vertices scaled back.\<close>

definition scaled_vertices :: "real \<Rightarrow> voronoi_diagram \<Rightarrow> t_vec list" where
  "scaled_vertices scale voro = map (\<lambda>v. (fst v / scale, snd v / scale)) (voro_vertices voro)"

fun add_vertices :: "real adjacency_matrix \<Rightarrow> nat \<Rightarrow> nat \<Rightarrow> real adjacency_matrix" where
  "add_vertices g done 0 = g"
| "add_vertices g done (Suc k) = add_vertices (AddVertex g (to_string (Suc done))) (Suc done) k"

text \<open>Are the generating segments of the edge part of the same group?\<close>

definition same_group :: "(nat \<times> nat) list \<Rightarrow> voronoi_edge \<Rightarrow> bool" where
  "same_group line_groups e =
     (case (get_segment_idx e False, get_segment_idx e True) of
        (Some seg1idx, Some seg2idx) \<Rightarrow>
          (case (get_group_idx line_groups seg1idx, get_group_idx line_groups seg2idx) of
             (Some region1, Some region2) \<Rightarrow> region1 = region2
           | _ \<Rightarrow> False)
      | _ \<Rightarrow> False)"

text \<open>
  Is an end vertex of the edge inside the polygon of a group? \<open>pt_inside_poly\<close> is a
  function of \<open>lines.h\<close>, which is not among the source files; it is an argument.
\<close>

definition vert_inside_region ::
  "(t_line list \<Rightarrow> t_vec \<Rightarrow> nat \<Rightarrow> nat \<Rightarrow> real \<Rightarrow> bool) \<Rightarrow> t_line list \<Rightarrow> (nat \<times> nat) list
    \<Rightarrow> real \<Rightarrow> t_vec list \<Rightarrow> nat option \<Rightarrow> nat option \<Rightarrow> bool" where
  "vert_inside_region pt_inside_poly lines line_groups eps verts vert0idx vert1idx =
     list_ex (\<lambda>(grp_beg, grp_end).
        (case vert0idx of
           Some i \<Rightarrow> pt_inside_poly lines (verts ! i) grp_beg grp_end eps
         | None \<Rightarrow> False)
        \<or> (case vert1idx of
           Some i \<Rightarrow> pt_inside_poly lines (verts ! i) grp_beg grp_end eps
         | None \<Rightarrow> False)) line_groups"

text \<open>
  The body of the loop over the diagram's edges, block by block. \<open>discretize\<close> is the
  library routine that fills in the points of a parabolic arc; it is an argument.
\<close>

text \<open>Adding the graph edges, in both directions, when both end vertices are valid.\<close>

definition add_graph_edges :: "t_vec list \<Rightarrow> nat option \<Rightarrow> nat option \<Rightarrow> voro_state \<Rightarrow> voro_state" where
  "add_graph_edges verts vert0idx vert1idx st =
     (case (vert0idx, vert1idx) of
        (Some i0, Some i1) \<Rightarrow>
          (let len = norm_vec (vec_sub (verts ! i1) (verts ! i0))
           in st \<lparr> graph := AddEdge (AddEdge (graph st) i0 i1 len) i1 i0 len \<rparr>)
      | _ \<Rightarrow> st)"

text \<open>A finite curved edge: the parabolic bisector between a segment and an end point.\<close>

definition parabolic_edge_block ::
  "(t_vec \<Rightarrow> t_line \<Rightarrow> real \<Rightarrow> t_vec list \<Rightarrow> t_vec list) \<Rightarrow> t_line list \<Rightarrow> real \<Rightarrow> t_vec list
    \<Rightarrow> voronoi_edge \<Rightarrow> nat \<Rightarrow> nat \<Rightarrow> voro_state \<Rightarrow> voro_state" where
  "parabolic_edge_block discretize lines edge_eps verts e i0 i1 st =
     (let cp = contains_point (the (cell e)) in
      case (get_segment lines e cp, get_segment_point lines e (\<not> cp)) of
        (Some seg, Some pt) \<Rightarrow>
          (let parabola = discretize pt seg edge_eps [verts ! i0, verts ! i1]
           in if parabola \<noteq> []
              then st \<lparr> all_parabolic_edges := all_parabolic_edges st @ [(parabola, i0, i1)] \<rparr>
              else st)
      | _ \<Rightarrow> st)"

text \<open>A finite straight edge.\<close>

definition finite_edge_block ::
  "real \<Rightarrow> voronoi_diagram \<Rightarrow> nat \<Rightarrow> nat \<Rightarrow> voro_state \<Rightarrow> voro_state" where
  "finite_edge_block scale voro i0 i1 st =
     st \<lparr> linear_edges := linear_edges st @
            [((vec_div (voro_vertices voro ! i0) scale, vec_div (voro_vertices voro ! i1) scale),
              Some i0, Some i1)] \<rparr>"

text \<open>
  An infinite edge: the line starts in the end vertex the edge has and runs
  perpendicular to the connection of the two end points that generate it.
\<close>

definition infinite_edge_line :: "t_line list \<Rightarrow> t_vec \<Rightarrow> bool \<Rightarrow> t_vec \<Rightarrow> t_vec \<Rightarrow> t_line" where
  "infinite_edge_line lines lineorg inverted vec twinvec =
     (let perpdir0 = vec_sub vec twinvec;
          perpdir = (if inverted then vec_neg perpdir0 else perpdir0);
          linedir0 = (snd perpdir, - fst perpdir);
          linedir = vec_mul (vec_div linedir0 (norm_vec linedir0)) (infline_len lines)
      in (lineorg, vec_add lineorg linedir))"

definition infinite_edge_block ::
  "t_line list \<Rightarrow> real \<Rightarrow> voronoi_diagram \<Rightarrow> voronoi_edge \<Rightarrow> nat option \<Rightarrow> nat option
    \<Rightarrow> voro_state \<Rightarrow> voro_state" where
  "infinite_edge_block lines scale voro e vert0idx vert1idx st =
     (case (case vertex0 e of
              Some p \<Rightarrow> Some (voro_vertices voro ! p, False)
            | None \<Rightarrow>
                (case vertex1 e of
                   Some p \<Rightarrow> Some (voro_vertices voro ! p, True)
                 | None \<Rightarrow> None)) of
        None \<Rightarrow> st
      | Some (org, inverted) \<Rightarrow>
          (case (get_segment_point lines e False, get_segment_point lines e True) of
             (Some vec, Some twinvec) \<Rightarrow>
               st \<lparr> linear_edges := linear_edges st @
                      [(infinite_edge_line lines (vec_div org scale) inverted vec twinvec,
                        vert0idx, vert1idx)] \<rparr>
           | _ \<Rightarrow> st))"

text \<open>The loop body. A \<open>continue\<close> of the source returns the state reached so far.\<close>

definition voro_edge_step ::
  "(t_line list \<Rightarrow> t_vec \<Rightarrow> nat \<Rightarrow> nat \<Rightarrow> real \<Rightarrow> bool)
    \<Rightarrow> (t_vec \<Rightarrow> t_line \<Rightarrow> real \<Rightarrow> t_vec list \<Rightarrow> t_vec list)
    \<Rightarrow> t_line list \<Rightarrow> (nat \<times> nat) list \<Rightarrow> bool \<Rightarrow> real \<Rightarrow> voronoi_diagram
    \<Rightarrow> voronoi_edge \<Rightarrow> voro_state \<Rightarrow> voro_state" where
  "voro_edge_step pt_inside_poly discretize lines line_groups
       remove_voronoi_vertices_in_regions edge_eps voro e st =
     (let eps = edge_eps * edge_eps;
          scale = voro_scale edge_eps;
          verts = scaled_vertices scale voro;
          vert0idx = get_vertex_idx voro (vertex0 e);
          vert1idx = get_vertex_idx voro (vertex1 e)
      in
      if is_secondary e then st
      else if line_groups \<noteq> [] \<and> same_group line_groups e then st
      else if line_groups \<noteq> [] \<and> remove_voronoi_vertices_in_regions
              \<and> vert_inside_region pt_inside_poly lines line_groups eps verts vert0idx vert1idx
           then st
      else
        let st1 = add_graph_edges verts vert0idx vert1idx st
        in
        (case (vert0idx, vert1idx) of
           (Some i0, Some i1) \<Rightarrow>
             if is_curved e \<and> is_finite e
             then parabolic_edge_block discretize lines edge_eps verts e i0 i1 st1
             else if is_finite e then finite_edge_block scale voro i0 i1 st1
             else infinite_edge_block lines scale voro e vert0idx vert1idx st1
         | _ \<Rightarrow>
             if is_finite e then st1
             else infinite_edge_block lines scale voro e vert0idx vert1idx st1))"

text \<open>Removal of the vertices with no connection, and of what refers to them.\<close>

fun remove_unconnected ::
  "real adjacency_matrix \<Rightarrow> string list \<Rightarrow> nat \<Rightarrow> nat list \<Rightarrow> real adjacency_matrix \<times> nat list" where
  "remove_unconnected g [] vertidx removed_indices = (g, removed_indices)"
| "remove_unconnected g (ident # verts) vertidx removed_indices =
     (if GetNeighbours g ident True = []
      then remove_unconnected (RemoveVertex g ident) verts (Suc vertidx) (removed_indices @ [vertidx])
      else remove_unconnected g verts (Suc vertidx) removed_indices)"

definition correct_index :: "nat \<Rightarrow> nat \<Rightarrow> nat" where
  "correct_index idx i = (if i \<ge> idx then i - 1 else i)"

fun remove_linear :: "nat \<Rightarrow> linear_edge list \<Rightarrow> linear_edge list" where
  "remove_linear idx [] = []"
| "remove_linear idx ((line, a, b) # es) =
     (if a = Some idx \<or> b = Some idx then remove_linear idx es
      else (line, map_option (correct_index idx) a, map_option (correct_index idx) b)
             # remove_linear idx es)"

fun remove_parabolic :: "nat \<Rightarrow> parabolic_edge list \<Rightarrow> parabolic_edge list" where
  "remove_parabolic idx [] = []"
| "remove_parabolic idx ((pts, a, b) # es) =
     (if a = idx \<or> b = idx then remove_parabolic idx es
      else (pts, correct_index idx a, correct_index idx b) # remove_parabolic idx es)"

definition erase_at :: "nat \<Rightarrow> 'a list \<Rightarrow> 'a list" where
  "erase_at idx xs = take idx xs @ drop (Suc idx) xs"

fun remove_coordinates ::
  "nat list \<Rightarrow> t_vec list \<times> linear_edge list \<times> parabolic_edge list
    \<Rightarrow> error + (t_vec list \<times> linear_edge list \<times> parabolic_edge list)" where
  "remove_coordinates [] r = Inr r"
| "remove_coordinates (idx # rest) (vertices, les, pes) =
     (if idx < length vertices
      then remove_coordinates rest (erase_at idx vertices, remove_linear idx les, remove_parabolic idx pes)
      else Inl (OutOfRange idx (length vertices)))"

definition voro_edges_loop ::
  "(t_line list \<Rightarrow> t_vec \<Rightarrow> nat \<Rightarrow> nat \<Rightarrow> real \<Rightarrow> bool)
    \<Rightarrow> (t_vec \<Rightarrow> t_line \<Rightarrow> real \<Rightarrow> t_vec list \<Rightarrow> t_vec list)
    \<Rightarrow> t_line list \<Rightarrow> (nat \<times> nat) list \<Rightarrow> bool \<Rightarrow> real \<Rightarrow> voronoi_diagram \<Rightarrow> voro_state" where
  "voro_edges_loop pt_inside_poly discretize lines line_groups rvr edge_eps voro =
     fold (voro_edge_step pt_inside_poly discretize lines line_groups rvr edge_eps voro)
       (voro_edges voro)
       \<lparr> graph = add_vertices empty_graph 0 (length (voro_vertices voro)),
         linear_edges = [], all_parabolic_edges = [] \<rparr>"

definition calc_voro ::
  "(t_line list \<Rightarrow> t_vec \<Rightarrow> nat \<Rightarrow> nat \<Rightarrow> real \<Rightarrow> bool)
    \<Rightarrow> (t_vec \<Rightarrow> t_line \<Rightarrow> real \<Rightarrow> t_vec list \<Rightarrow> t_vec list)
    \<Rightarrow> t_line list \<Rightarrow> (nat \<times> nat) list \<Rightarrow> bool \<Rightarrow> real \<Rightarrow> voronoi_diagram
    \<Rightarrow> error + (t_vec list \<times> linear_edge list \<times> parabolic_edge list \<times> real adjacency_matrix)" where
  "calc_voro pt_inside_poly discretize lines line_groups rvr edge_eps voro =
     (let st = voro_edges_loop pt_inside_poly discretize lines line_groups rvr edge_eps voro;
          vertices = scaled_vertices (voro_scale edge_eps) voro
      in
      if line_groups \<noteq> [] then
        (let (g, removed_indices) = remove_unconnected (graph st) (vertexidents (graph st)) 0 []
         in case remove_coordinates (rev removed_indices)
                   (vertices, linear_edges st, all_parabolic_edges st) of
              Inl err \<Rightarrow> Inl err
            | Inr (vertices', les, pes) \<Rightarrow> Inr (vertices', les, pes, g))
      else Inr (vertices, linear_edges st, all_parabolic_edges st, graph st))"


text \<open>
  Two segments of one obstacle that meet at a right angle in the origin, and the
  bisector between them, which runs from the corner to the point (1, 1).
\<close>

definition corner_lines :: "t_line list" where
  "corner_lines = [((0, 0), (1, 0)), ((0, 0), (0, 1))]"

definition corner_edge :: voronoi_edge where
  "corner_edge =
     \<lparr> is_secondary = False, is_curved = False, vertex0 = Some 0, vertex1 = Some 1,
       cell = Some \<lparr> source_index = 0, source_category = SOURCE_CATEGORY_INITIAL_SEGMENT \<rparr>,
       twin_cell = Some \<lparr> source_index = 1, source_category = SOURCE_CATEGORY_INITIAL_SEGMENT \<rparr> \<rparr>"

definition corner_voro :: voronoi_diagram where
  "corner_voro = \<lparr> voro_vertices = [(0, 0), (10000, 10000)], voro_edges = [] \<rparr>"

definition start_state :: voro_state where
  "start_state = \<lparr> graph = add_vertices empty_graph 0 2, linear_edges = [], all_parabolic_edges = [] \<rparr>"

definition no_pt_inside_poly :: "t_line list \<Rightarrow> t_vec \<Rightarrow> nat \<Rightarrow> nat \<Rightarrow> real \<Rightarrow> bool" where
  "no_pt_inside_poly lines pt grp_beg grp_end eps = False"

definition keep_end_points :: "t_vec \<Rightarrow> t_line \<Rightarrow> real \<Rightarrow> t_vec list \<Rightarrow> t_vec list" where
  "keep_end_points pt seg max_dist parabola = parabola"

text \<open>
  Two parallel segments of length 1/2, a distance 1/2 apart, and the diagram of the
  library for them: the vertices (0, 0) and (1/2, 0) in scaled coordinates, the finite
  bisector between the two segments, the two infinite bisectors between their start
  points and between their end points, and the four secondary rays through the end
  points. Every edge is listed with its twin, as the library does.
\<close>

definition parallel_lines :: "t_line list" where
  "parallel_lines = [((0, 1 / 4), (1 / 2, 1 / 4)), ((0, - (1 / 4)), (1 / 2, - (1 / 4)))]"

definition voro_cell :: "nat \<Rightarrow> source_category \<Rightarrow> voronoi_cell option" where
  "voro_cell idx cat = Some \<lparr> source_index = idx, source_category = cat \<rparr>"

definition voro_edge ::
  "bool \<Rightarrow> nat option \<Rightarrow> nat option \<Rightarrow> voronoi_cell option \<Rightarrow> voronoi_cell option \<Rightarrow> voronoi_edge" where
  "voro_edge secondary v0 v1 c tc =
     \<lparr> is_secondary = secondary, is_curved = False, vertex0 = v0, vertex1 = v1,
       cell = c, twin_cell = tc \<rparr>"

definition left_infinite_edge :: voronoi_edge where
  "left_infinite_edge =
     voro_edge False (Some 0) None
       (voro_cell 1 SOURCE_CATEGORY_SEGMENT_START_POINT)
       (voro_cell 0 SOURCE_CATEGORY_SEGMENT_START_POINT)"

definition parallel_voro :: voronoi_diagram where
  "parallel_voro =
     \<lparr> voro_vertices = [(0, 0), (5000, 0)],
       voro_edges =
         [ left_infinite_edge,
           voro_edge False None (Some 0)
             (voro_cell 0 SOURCE_CATEGORY_SEGMENT_START_POINT)
             (voro_cell 1 SOURCE_CATEGORY_SEGMENT_START_POINT),
           voro_edge False (Some 1) (Some 0)
             (voro_cell 0 SOURCE_CATEGORY_INITIAL_SEGMENT)
             (voro_cell 1 SOURCE_CATEGORY_INITIAL_SEGMENT),
           voro_edge False (Some 0) (Some 1)
             (voro_cell 1 SOURCE_CATEGORY_INITIAL_SEGMENT)
             (voro_cell 0 SOURCE_CATEGORY_INITIAL_SEGMENT),
           voro_edge False (Some 1) None
             (voro_cell 0 SOURCE_CATEGORY_SEGMENT_END_POINT)
             (voro_cell 1 SOURCE_CATEGORY_SEGMENT_END_POINT),
           voro_edge False None (Some 1)
             (voro_cell 1 SOURCE_CATEGORY_SEGMENT_END_POINT)
             (voro_cell 0 SOURCE_CATEGORY_SEGMENT_END_POINT),
           voro_edge True (Some 0) None
             (voro_cell 0 SOURCE_CATEGORY_SEGMENT_START_POINT)
             (voro_cell 0 SOURCE_CATEGORY_INITIAL_SEGMENT),
           voro_edge True None (Some 0)
             (voro_cell 0 SOURCE_CATEGORY_INITIAL_SEGMENT)
             (voro_cell 0 SOURCE_CATEGORY_SEGMENT_START_POINT),
           voro_edge True (Some 1) None
             (voro_cell 0 SOURCE_CATEGORY_INITIAL_SEGMENT)
             (voro_cell 0 SOURCE_CATEGORY_SEGMENT_END_POINT),
           voro_edge True None (Some 1)
             (voro_cell 0 SOURCE_CATEGORY_SEGMENT_END_POINT)
             (voro_cell 0 SOURCE_CATEGORY_INITIAL_SEGMENT),
           voro_edge True (Some 0) None
             (voro_cell 1 SOURCE_CATEGORY_INITIAL_SEGMENT)
             (voro_cell 1 SOURCE_CATEGORY_SEGMENT_START_POINT),
           voro_edge True None (Some 0)
             (voro_cell 1 SOURCE_CATEGORY_SEGMENT_START_POINT)
             (voro_cell 1 SOURCE_CATEGORY_INITIAL_SEGMENT),
           voro_edge True (Some 1) None
             (voro_cell 1 SOURCE_CATEGORY_SEGMENT_END_POINT)
             (voro_cell 1 SOURCE_CATEGORY_INITIAL_SEGMENT),
           voro_edge True None (Some 1)
             (voro_cell 1 SOURCE_CATEGORY_INITIAL_SEGMENT)
             (voro_cell 1 SOURCE_CATEGORY_SEGMENT_END_POINT) ] \<rparr>"

text \<open>The bisectors of a result, without the graph.\<close>

definition result_bisectors ::
  "error + (t_vec list \<times> linear_edge list \<times> parabolic_edge list \<times> real adjacency_matrix)
    \<Rightarrow> (t_vec list \<times> linear_edge list \<times> parabolic_edge list) option" where
  "result_bisectors r =
     (case r of Inl err \<Rightarrow> None | Inr (vertices, les, pes, g) \<Rightarrow> Some (vertices, les, pes))"

section \<open>Properties of a result of \<open>calc_voro\<close>\<close>




















section \<open>Angles and circular access\<close>

text \<open>
  Modelled from the spec: \<open>line_angle\<close> (the angle of the line from one point to
  another, and the angle between two lines) belongs to \<open>lines.h\<close>, and the circular
  view of a vertex list to \<open>circular_iterator.h\<close>; neither is among the source files.
  The angle of a line is the polar angle of its direction, in the range from \<open>-\<pi>\<close> to
  \<open>\<pi>\<close>, as the two-argument arc tangent gives it; the angle between two lines is the
  difference of their angles. The circular view reads position \<open>i\<close> at \<open>i mod n\<close>.
\<close>

definition atan2 :: "real \<Rightarrow> real \<Rightarrow> real" where
  "atan2 y x =
     (if x > 0 then arctan (y / x)
      else if x < 0 \<and> y \<ge> 0 then arctan (y / x) + pi
      else if x < 0 \<and> y < 0 then arctan (y / x) - pi
      else if y > 0 then pi / 2
      else if y < 0 then - (pi / 2)
      else 0)"

definition line_angle :: "t_vec \<Rightarrow> t_vec \<Rightarrow> real" where
  "line_angle pt1 pt2 = atan2 (snd pt2 - snd pt1) (fst pt2 - fst pt1)"

definition line_angle_between :: "t_vec \<Rightarrow> t_vec \<Rightarrow> t_vec \<Rightarrow> t_vec \<Rightarrow> real" where
  "line_angle_between line1vert1 line1vert2 line2vert1 line2vert2 =
     line_angle line2vert1 line2vert2 - line_angle line1vert1 line1vert2"

text \<open>
  The helpers of the mathematics library the code calls: the remainder of the
  truncated division, the positive modulus built on it, and equality up to a
  tolerance.
\<close>

definition fmod :: "real \<Rightarrow> real \<Rightarrow> real" where
  "fmod x y = x - y * of_int (if x / y \<ge> 0 then \<lfloor>x / y\<rfloor> else \<lceil>x / y\<rceil>)"

definition mod_pos :: "real \<Rightarrow> real \<Rightarrow> real" where
  "mod_pos val tomod = (let v = fmod val tomod in if v < 0 then v + tomod else v)"

definition equals_real :: "real \<Rightarrow> real \<Rightarrow> real \<Rightarrow> bool" where
  "equals_real a b eps = (\<bar>a - b\<bar> \<le> eps)"

definition equals_vec :: "t_vec \<Rightarrow> t_vec \<Rightarrow> real \<Rightarrow> bool" where
  "equals_vec a b eps = (equals_real (fst a) (fst b) eps \<and> equals_real (snd a) (snd b) eps)"

definition circ_nth :: "'a list \<Rightarrow> nat \<Rightarrow> 'a" where
  "circ_nth xs i = xs ! (i mod length xs)"

text \<open>
  The elements from position \<open>start\<close> onwards, wrapping around, up to and including
  position \<open>stop\<close>: the loops that copy a part of a polygon push the current element
  and leave once the iterator stands on the element at \<open>stop\<close>.
\<close>

definition circ_range :: "'a list \<Rightarrow> nat \<Rightarrow> nat \<Rightarrow> 'a list" where
  "circ_range xs start stop =
     map (\<lambda>k. circ_nth xs (start + k))
       [0 ..< Suc ((stop mod length xs + length xs - start mod length xs) mod length xs)]"

section \<open>Simplification of a contour line\<close>

text \<open>
  \<open>simplify_contour\<close> changes the contour in place through a circular view; the model
  returns the new contour. A circular position is looked up modulo the size of the
  contour, so that no position exists in an empty contour: there the model returns
  \<open>None\<close>. Erasing at a circular position erases the element that the position
  stands on.
\<close>

definition erase_circ :: "'a list \<Rightarrow> nat \<Rightarrow> 'a list option" where
  "erase_circ xs k = (if xs = [] then None else Some (erase_at (k mod length xs) xs))"

text \<open>The four angles that the test for a horizontal or vertical line compares with.\<close>

definition horizontal_or_vertical :: "real \<Rightarrow> real \<Rightarrow> bool" where
  "horizontal_or_vertical angle eps =
     (equals_real angle 0 eps
      \<or> equals_real angle pi eps
      \<or> equals_real angle (pi / 2) eps
      \<or> equals_real angle (pi / (3 / 2)) eps)"

text \<open>
  The body of the first loop, at position \<open>curidx\<close>: the two erasures are made one after
  the other, the second on the contour that the first has left.
\<close>

definition staircase_step :: "t_vec list \<Rightarrow> nat \<Rightarrow> real \<Rightarrow> real \<Rightarrow> t_vec list option" where
  "staircase_step contour curidx min_dist eps =
     (if contour = [] then None
      else
        (let vert1 = circ_nth contour curidx;
             vert2 = circ_nth contour (curidx + 1);
             vert3 = circ_nth contour (curidx + 2);
             vert4 = circ_nth contour (curidx + 3)
         in if norm_vec (vec_sub vert4 vert1) > min_dist then Some contour
            else if horizontal_or_vertical (mod_pos (line_angle vert2 vert3) (2 * pi)) eps
                    \<and> equals_real (mod_pos (line_angle vert1 vert2) (2 * pi))
                          (mod_pos (line_angle vert3 vert4) (2 * pi)) eps
            then (case erase_circ contour (curidx + 3) of
                    None \<Rightarrow> None
                  | Some contour' \<Rightarrow> erase_circ contour' (curidx + 2))
            else Some contour))"

text \<open>
  The first loop runs while \<open>curidx\<close> is below the size of the contour plus one, the
  size being read anew in every round. \<open>fuel\<close> is the number of rounds it may make;
  the size plus one is always enough.
\<close>

fun remove_staircases :: "nat \<Rightarrow> t_vec list \<Rightarrow> nat \<Rightarrow> real \<Rightarrow> real \<Rightarrow> t_vec list option" where
  "remove_staircases 0 contour curidx min_dist eps =
     (if curidx < length contour + 1 then None else Some contour)"
| "remove_staircases (Suc fuel) contour curidx min_dist eps =
     (if curidx < length contour + 1
      then (case staircase_step contour curidx min_dist eps of
              None \<Rightarrow> None
            | Some contour' \<Rightarrow> remove_staircases fuel contour' (curidx + 1) min_dist eps)
      else Some contour)"

text \<open>
  The second loop drops a vertex when the lines before and after it make an angle
  below the tolerance, and then looks at the same position again. Its bound is the
  unsigned number \<open>2 * size - 1\<close>, which no position reaches when the contour is empty.
\<close>

definition straight_at :: "t_vec list \<Rightarrow> nat \<Rightarrow> real \<Rightarrow> bool" where
  "straight_at contour curidx eps =
     (let vert1 = circ_nth contour (curidx - 1);
          vert2 = circ_nth contour curidx;
          vert3 = circ_nth contour (curidx + 1);
          angle0 = mod_pos (line_angle_between vert1 vert2 vert2 vert3) (2 * pi);
          angle = (if angle0 > pi then angle0 - 2 * pi else angle0)
      in \<bar>angle\<bar> < eps)"

fun remove_straight :: "nat \<Rightarrow> t_vec list \<Rightarrow> nat \<Rightarrow> real \<Rightarrow> t_vec list option" where
  "remove_straight 0 contour curidx eps =
     (if contour = [] \<or> curidx < 2 * length contour - 1 then None else Some contour)"
| "remove_straight (Suc fuel) contour curidx eps =
     (if contour = [] then None
      else if curidx < 2 * length contour - 1
      then (if straight_at contour curidx eps
            then (case erase_circ contour curidx of
                    None \<Rightarrow> None
                  | Some contour' \<Rightarrow> remove_straight fuel contour' curidx eps)
            else remove_straight fuel contour (curidx + 1) eps)
      else Some contour)"

definition simplify_contour :: "nat \<Rightarrow> t_vec list \<Rightarrow> real \<Rightarrow> real \<Rightarrow> t_vec list option" where
  "simplify_contour fuel contour min_dist eps =
     (case remove_staircases fuel contour 0 min_dist eps of
        None \<Rightarrow> None
      | Some contour' \<Rightarrow> remove_straight fuel contour' 1 eps)"

text \<open>
  A contour with one step down, from \<open>(1, 2)\<close> to \<open>(1, 1)\<close>, between two lines to the
  right, and the same step turned upwards; the other vertices are far away, and every
  edge is horizontal, vertical or diagonal.
\<close>

definition step_down_contour :: "t_vec list" where
  "step_down_contour = [(0, 2), (1, 2), (1, 1), (2, 1), (12, - 9), (12, - 19), (- 21, - 19)]"

definition step_up_contour :: "t_vec list" where
  "step_up_contour = [(0, 0), (1, 0), (1, 1), (2, 1), (12, 11), (12, 21), (- 21, 21)]"

definition collapsed_contour :: "t_vec list" where
  "collapsed_contour = [(0, 0), (1, 0), (12, 11), (12, 21), (- 21, 21)]"

section \<open>Splitting a polygon into convex parts\<close>

text \<open>
  \<open>convex_split\<close> is a template over the vector type. The line-line intersection of
  the mathematics library is an argument of the model (\<open>intersect\<close>); it returns the
  two closest points, a validity flag, their distance and the two line parameters.
  The angle between two lines (\<open>angle_between\<close>) is an argument as well.
\<close>

type_synonym t_intersect =
  "t_vec \<Rightarrow> t_vec \<Rightarrow> t_vec \<Rightarrow> t_vec \<Rightarrow> real \<Rightarrow> t_vec \<times> t_vec \<times> bool \<times> real \<times> real \<times> real"

type_synonym t_angle_between = "t_vec \<Rightarrow> t_vec \<Rightarrow> t_vec \<Rightarrow> t_vec \<Rightarrow> real"

text \<open>The corner test of the first loop: is the corner angle larger than 180 degrees?\<close>

definition concave_corner :: "t_angle_between \<Rightarrow> real \<Rightarrow> t_vec list \<Rightarrow> nat \<Rightarrow> bool" where
  "concave_corner angle_between eps poly idx1 =
     (let N = length poly;
          vert1 = poly ! idx1;
          vert2 = poly ! ((idx1 + 1) mod N);
          vert3 = poly ! ((idx1 + 2) mod N);
          angle = mod_pos (pi - angle_between vert1 vert2 vert2 vert3) (2 * pi)
      in angle > pi + eps)"

definition find_concave :: "t_angle_between \<Rightarrow> real \<Rightarrow> t_vec list \<Rightarrow> nat option" where
  "find_concave angle_between eps poly =
     find (concave_corner angle_between eps poly) [0 ..< length poly]"

text \<open>
  The test of the second loop for the contour edge that starts at circular position
  \<open>k\<close>: does the infinite line through the concave edge meet it?
\<close>

definition edge_hit :: "t_intersect \<Rightarrow> real \<Rightarrow> t_vec list \<Rightarrow> nat \<Rightarrow> nat \<Rightarrow> bool" where
  "edge_hit intersect eps poly idx_concave k =
     (let N = length poly;
          vert1 = poly ! idx_concave;
          vert2 = poly ! ((idx_concave + 1) mod N);
          dir1 = vec_sub vert2 vert1;
          vert3 = circ_nth poly k;
          vert4 = circ_nth poly (k + 1);
          dir2 = vec_sub vert4 vert3
      in case intersect vert1 dir1 vert3 dir2 eps of
           (pt1, pt2, valid, distance, param1, param2) \<Rightarrow>
             valid \<and> param2 \<ge> 0 \<and> param2 < 1 \<and> equals_vec pt1 pt2 eps)"

definition find_intersection :: "t_intersect \<Rightarrow> real \<Rightarrow> t_vec list \<Rightarrow> nat \<Rightarrow> nat option" where
  "find_intersection intersect eps poly idx_concave =
     (case find (edge_hit intersect eps poly idx_concave)
             [idx_concave + 2 ..< idx_concave + length poly] of
        None \<Rightarrow> None
      | Some k \<Rightarrow> Some ((k + 1) mod length poly))"

text \<open>What a recursive call contributes to the result of its caller.\<close>

definition sub_result :: "t_vec list list \<Rightarrow> t_vec list \<Rightarrow> t_vec list list" where
  "sub_result subsplit poly1 =
     (if subsplit \<noteq> [] then filter (\<lambda>newpoly. length newpoly \<ge> 3) subsplit else [poly1])"

text \<open>
  The recursion of the source has no bound of its own; the model counts the depth down
  from \<open>fuel\<close> and returns \<open>None\<close> when it is used up.
\<close>

fun convex_split ::
  "nat \<Rightarrow> t_angle_between \<Rightarrow> t_intersect \<Rightarrow> real \<Rightarrow> t_vec list \<Rightarrow> t_vec list list option" where
  "convex_split 0 angle_between intersect eps poly = None"
| "convex_split (Suc fuel) angle_between intersect eps poly =
     (if length poly \<le> 3 then Some []
      else
        case find_concave angle_between eps poly of
          None \<Rightarrow> Some []
        | Some idx_concave \<Rightarrow>
            (case find_intersection intersect eps poly idx_concave of
               None \<Rightarrow> Some []
             | Some idx_intersection \<Rightarrow>
                 (let poly1 = circ_range poly idx_intersection (idx_concave + 1);
                      poly2 = circ_range poly (idx_concave + 1) idx_intersection
                  in case convex_split fuel angle_between intersect eps poly1 of
                       None \<Rightarrow> None
                     | Some subsplit1 \<Rightarrow>
                         (case convex_split fuel angle_between intersect eps poly2 of
                            None \<Rightarrow> None
                          | Some subsplit2 \<Rightarrow>
                              Some (sub_result subsplit1 poly1 @ sub_result subsplit2 poly2)))))"

text \<open>
  The intersection of two lines in the plane, each given by a point and a direction:
  invalid for parallel lines, otherwise the common point (twice, as the two closest
  points), the distance 0 and the parameters of the point on the two lines.
\<close>

definition cross2 :: "t_vec \<Rightarrow> t_vec \<Rightarrow> real" where
  "cross2 a b = fst a * snd b - snd a * fst b"

definition intersect_line_line :: t_intersect where
  "intersect_line_line pos1 dir1 pos2 dir2 eps =
     (let det = cross2 dir1 dir2 in
      if \<bar>det\<bar> \<le> eps then (pos1, pos2, False, 0, 0, 0)
      else
        let param1 = cross2 (vec_sub pos2 pos1) dir2 / det;
            param2 = cross2 (vec_sub pos2 pos1) dir1 / det
        in (vec_add pos1 (vec_mul dir1 param1), vec_add pos2 (vec_mul dir2 param2),
            True, 0, param1, param2))"

text \<open>
  Twice the signed area of a polygon (the shoelace sum): the cross products along the
  chain of its vertices, the last vertex connected back to the first.
\<close>

fun chain :: "t_vec list \<Rightarrow> real" where
  "chain (a # b # xs) = cross2 a b + chain (b # xs)"
| "chain xs = 0"

definition shoelace :: "t_vec list \<Rightarrow> real" where
  "shoelace poly = chain (poly @ [hd poly])"

text \<open>Is the polygon one that \<open>convex_split\<close> leaves alone (it returns no parts for it)?\<close>

definition not_split :: "t_angle_between \<Rightarrow> t_intersect \<Rightarrow> real \<Rightarrow> t_vec list \<Rightarrow> bool" where
  "not_split angle_between intersect eps poly =
     (length poly \<le> 3
      \<or> (case find_concave angle_between eps poly of
            None \<Rightarrow> True
          | Some idx_concave \<Rightarrow> find_intersection intersect eps poly idx_concave = None))"

definition unit_square :: "t_vec list" where
  "unit_square = [(0, 0), (1, 0), (1, 1), (0, 1)]"

text \<open>An L-shaped polygon, counter-clockwise, with its one reflex vertex in (1, 1).\<close>

definition l_shape :: "t_vec list" where
  "l_shape = [(0, 0), (2, 0), (2, 1), (1, 1), (1, 2), (0, 2)]"

text \<open>
  A polygon with two reflex vertices, in (4, 0) and in (6, 0), counter-clockwise, and
  the part of it between the vertices (6, 2) and (4, 0).
\<close>

definition notch7 :: "t_vec list" where
  "notch7 = [(0, 0), (4, 0), (5, - 1), (9, - 1), (6, 2), (6, 0), (3, 3)]"

definition notch7_part :: "t_vec list" where
  "notch7_part = [(6, 2), (6, 0), (3, 3), (0, 0), (4, 0)]"

text \<open>
  What the spec asks of the input and promises of every part: a polygon is simple when
  no two of its edges that are not neighbours have a point in common, and no edge runs
  back along the edge before it. Two segments are compared by the parameters of the
  common point of their lines, and two segments of one line by their extent along it.
\<close>

definition dot2 :: "t_vec \<Rightarrow> t_vec \<Rightarrow> real" where
  "dot2 a b = fst a * fst b + snd a * snd b"

definition segments_meet :: "t_vec \<Rightarrow> t_vec \<Rightarrow> t_vec \<Rightarrow> t_vec \<Rightarrow> bool" where
  "segments_meet a b c d =
     (let dir1 = vec_sub b a;
          dir2 = vec_sub d c;
          det = cross2 dir1 dir2
      in if det = 0 then
           cross2 (vec_sub c a) dir1 = 0
           \<and> max (dot2 (vec_sub c a) dir1) (dot2 (vec_sub d a) dir1) \<ge> 0
           \<and> min (dot2 (vec_sub c a) dir1) (dot2 (vec_sub d a) dir1) \<le> dot2 dir1 dir1
         else
           let param1 = cross2 (vec_sub c a) dir2 / det;
               param2 = cross2 (vec_sub c a) dir1 / det
           in 0 \<le> param1 \<and> param1 \<le> 1 \<and> 0 \<le> param2 \<and> param2 \<le> 1)"

definition folds_back :: "t_vec \<Rightarrow> t_vec \<Rightarrow> t_vec \<Rightarrow> bool" where
  "folds_back a b c =
     (cross2 (vec_sub b a) (vec_sub c b) = 0 \<and> dot2 (vec_sub b a) (vec_sub c b) \<le> 0)"

definition simple_polygon :: "t_vec list \<Rightarrow> bool" where
  "simple_polygon poly =
     (let N = length poly in
      list_all (\<lambda>i. list_all (\<lambda>j. \<not> segments_meet (poly ! i) (poly ! ((i + 1) mod N))
                                               (poly ! j) (poly ! ((j + 1) mod N)))
                   [i + 2 ..< (if i = 0 then N - 1 else N)]) [0 ..< N]
      \<and> list_all (\<lambda>i. \<not> folds_back (poly ! i) (poly ! ((i + 1) mod N)) (poly ! ((i + 2) mod N)))
           [0 ..< N])"

section \<open>Helpers of the hull and triangulation code\<close>

text \<open>
  Modelled from the spec: \<open>side_of_line\<close> belongs to \<open>lines.h\<close>, which is not among the
  source files. It is the signed-area test the spec names: positive when the point is
  to the left of the line from the first to the second vertex, negative to the right.
\<close>

definition side_of_line :: "t_vec \<Rightarrow> t_vec \<Rightarrow> t_vec \<Rightarrow> real" where
  "side_of_line vec1a vec1b pt = cross2 (vec_sub vec1b vec1a) (vec_sub pt vec1a)"

text \<open>
  The other functions of \<open>lines.h\<close> and of \<open>circular_iterator.h\<close> that the hull and
  triangulation code calls are arguments of the model, collected in one record:
  the search for the triangle that contains a point; the circumcentre of a triangle
  (\<open>None\<close> when the computation yields no finite point, as for three vertices on a
  line; a comparison with such a value is false); the sorting of vertices by their
  angle around their mean (it returns the sorted vertices and the mean); the removal of
  duplicate points; the sorting of the points by their
  coordinates that the recursive hull starts with; and the removal of a range of a
  circular view, given by the positions of its two ends, which returns the remaining
  vertices and the index of the vertex that follows the range.
\<close>

type_synonym t_triag = "t_vec list"

record lines_h =
  get_containing_triag :: "t_triag list \<Rightarrow> t_vec \<Rightarrow> nat option"
  calc_circumcentre :: "t_triag \<Rightarrow> t_vec option"
  sort_vertices_by_angle :: "t_vec list \<Rightarrow> t_vec list \<times> t_vec"
  remove_duplicates :: "t_vec list \<Rightarrow> real \<Rightarrow> t_vec list"
  sort_vertices :: "t_vec list \<Rightarrow> real \<Rightarrow> t_vec list"
  circ_erase :: "t_vec list \<Rightarrow> int \<Rightarrow> int \<Rightarrow> t_vec list \<times> nat"

text \<open>
  \<open>is_vert_in_hull\<close>, called without a point inside the hullverts: the mean of the hullverts
  vertices is taken. It returns whether the vertex is inside, and otherwise the two
  hullverts indices between which it lies.
\<close>

definition vec_mean :: "t_vec list \<Rightarrow> t_vec" where
  "vec_mean vs = vec_div (fold (\<lambda>v acc. vec_add acc v) vs (0, 0)) (real (length vs))"

fun in_hull_from :: "nat \<Rightarrow> nat \<Rightarrow> t_vec list \<Rightarrow> t_vec \<Rightarrow> t_vec \<Rightarrow> bool \<times> nat \<times> nat" where
  "in_hull_from 0 hullvertidx1 hullverts newvert vert_in_hull = (True, 0, 0)"
| "in_hull_from (Suc k) hullvertidx1 hullverts newvert vert_in_hull =
     (let hullvertidx2 = (if hullvertidx1 + 1 \<ge> length hullverts then 0 else hullvertidx1 + 1);
          hullvert1 = hullverts ! hullvertidx1;
          hullvert2 = hullverts ! hullvertidx2
      in if side_of_line vert_in_hull hullvert1 newvert > 0
            \<and> side_of_line vert_in_hull hullvert2 newvert \<le> 0
            \<and> side_of_line hullvert1 hullvert2 newvert < 0
         then (False, hullvertidx1, hullvertidx2)
         else in_hull_from k (Suc hullvertidx1) hullverts newvert vert_in_hull)"

definition is_vert_in_hull :: "t_vec list \<Rightarrow> t_vec \<Rightarrow> t_vec option \<Rightarrow> bool \<times> nat \<times> nat" where
  "is_vert_in_hull hullverts newvert vert_in_hull =
     in_hull_from (length hullverts) 0 hullverts newvert
       (case vert_in_hull of None \<Rightarrow> vec_mean hullverts | Some v \<Rightarrow> v)"

text \<open>
  Modelled from the spec: the circular iterator of \<open>circular_iterator.h\<close> is a position
  that may leave the range of the indices on both sides; the element it stands on is
  the one at the position modulo the size, and its round is the number of times it has
  gone around. The model keeps the position as an integer.
\<close>

definition circ_at :: "'a list \<Rightarrow> int \<Rightarrow> 'a" where
  "circ_at xs p = xs ! nat (p mod int (length xs))"

definition get_round :: "'a list \<Rightarrow> int \<Rightarrow> int" where
  "get_round xs p = p div int (length xs)"

text \<open>The two loops that walk from the straddled hull edge to the ends of what is visible.\<close>

definition visible_lower :: "t_vec list \<Rightarrow> t_vec \<Rightarrow> int \<Rightarrow> int" where
  "visible_lower hullverts newvert start =
     (let n = int (length hullverts) in
      case find (\<lambda>p. side_of_line (circ_at hullverts p) newvert (circ_at hullverts (p - 1)) \<ge> 0)
             (map (\<lambda>k. start - int k) [0 ..< nat (start + 2 * n + 1)]) of
        Some p \<Rightarrow> p
      | None \<Rightarrow> - 2 * n - 1)"

definition visible_upper :: "t_vec list \<Rightarrow> t_vec \<Rightarrow> int \<Rightarrow> int" where
  "visible_upper hullverts newvert start =
     (let n = int (length hullverts) in
      case find (\<lambda>p. side_of_line (circ_at hullverts p) newvert (circ_at hullverts (p + 1)) \<le> 0)
             (map (\<lambda>k. start + int k) [0 ..< nat (3 * n - start)]) of
        Some p \<Rightarrow> p
      | None \<Rightarrow> 3 * n)"


section \<open>Iterative Delaunay triangulation\<close>

text \<open>The six ways in which a triangle can hold the edge from \<open>vert1\<close> to \<open>vert2\<close>.\<close>

definition edge_match :: "t_triag \<Rightarrow> t_vec \<Rightarrow> t_vec \<Rightarrow> real \<Rightarrow> (nat \<times> nat \<times> nat) option" where
  "edge_match triag vert1 vert2 eps =
     (if equals_vec (triag ! 0) vert1 eps \<and> equals_vec (triag ! 1) vert2 eps then Some (0, 1, 2)
      else if equals_vec (triag ! 1) vert1 eps \<and> equals_vec (triag ! 0) vert2 eps then Some (1, 0, 2)
      else if equals_vec (triag ! 0) vert1 eps \<and> equals_vec (triag ! 2) vert2 eps then Some (0, 2, 1)
      else if equals_vec (triag ! 2) vert1 eps \<and> equals_vec (triag ! 0) vert2 eps then Some (2, 0, 1)
      else if equals_vec (triag ! 1) vert1 eps \<and> equals_vec (triag ! 2) vert2 eps then Some (1, 2, 0)
      else if equals_vec (triag ! 2) vert1 eps \<and> equals_vec (triag ! 1) vert2 eps then Some (2, 1, 0)
      else None)"

fun sharing_edge_from ::
  "nat \<Rightarrow> t_triag list \<Rightarrow> t_vec \<Rightarrow> t_vec \<Rightarrow> nat \<Rightarrow> real \<Rightarrow> (nat \<times> nat \<times> nat \<times> nat) option" where
  "sharing_edge_from i [] vert1 vert2 curtriagidx eps = None"
| "sharing_edge_from i (triag # rest) vert1 vert2 curtriagidx eps =
     (if i = curtriagidx then sharing_edge_from (Suc i) rest vert1 vert2 curtriagidx eps
      else
        case edge_match triag vert1 vert2 eps of
          Some (s1, s2, ns) \<Rightarrow> Some (i, s1, s2, ns)
        | None \<Rightarrow> sharing_edge_from (Suc i) rest vert1 vert2 curtriagidx eps)"

definition get_triag_sharing_edge ::
  "t_triag list \<Rightarrow> t_vec \<Rightarrow> t_vec \<Rightarrow> nat \<Rightarrow> real \<Rightarrow> (nat \<times> nat \<times> nat \<times> nat) option" where
  "get_triag_sharing_edge triags vert1 vert2 curtriagidx eps =
     sharing_edge_from 0 triags vert1 vert2 curtriagidx eps"

definition is_conflicting_triag :: "lines_h \<Rightarrow> t_triag \<Rightarrow> t_vec \<Rightarrow> bool" where
  "is_conflicting_triag h triag pt =
     (case calc_circumcentre h triag of
        None \<Rightarrow> False
      | Some center \<Rightarrow>
          (let rad = norm_vec (vec_sub (triag ! 0) center);
               distance = norm_vec (vec_sub pt center)
           in distance < rad))"

text \<open>
  \<open>flip_edge\<close> changes the list of triangles in place and calls itself; the model
  returns the new list, counts the depth of the recursion down from \<open>fuel\<close> and returns
  \<open>None\<close> when it is used up. The second triangle is built after the first one has been
  stored, so its first vertex is read from the triangle just stored.
\<close>

fun flip_edge :: "nat \<Rightarrow> lines_h \<Rightarrow> t_triag list \<Rightarrow> nat \<Rightarrow> nat \<Rightarrow> real \<Rightarrow> t_triag list option" where
  "flip_edge 0 h triags triagidx nonsharedidx eps = None"
| "flip_edge (Suc fuel) h triags triagidx nonsharedidx eps =
     (let sharedidx1 = (nonsharedidx + 1) mod length (triags ! triagidx);
          sharedidx2 = (nonsharedidx + 2) mod length (triags ! triagidx)
      in
      case get_triag_sharing_edge triags
             (triags ! triagidx ! sharedidx1) (triags ! triagidx ! sharedidx2) triagidx eps of
        None \<Rightarrow> Some triags
      | Some (othertriagidx, othersharedidx1, othersharedidx2, othernonsharedidx) \<Rightarrow>
          if is_conflicting_triag h (triags ! othertriagidx) (triags ! triagidx ! nonsharedidx)
          then
            (let triags1 = triags [triagidx :=
                   [triags ! triagidx ! nonsharedidx,
                    triags ! othertriagidx ! othernonsharedidx,
                    triags ! othertriagidx ! othersharedidx1]];
                 triags2 = triags1 [othertriagidx :=
                   [triags1 ! triagidx ! nonsharedidx,
                    triags1 ! othertriagidx ! othernonsharedidx,
                    triags1 ! othertriagidx ! othersharedidx2]]
             in
             case flip_edge fuel h triags2 othertriagidx othernonsharedidx eps of
               None \<Rightarrow> None
             | Some t3 \<Rightarrow>
             (case flip_edge fuel h t3 othertriagidx othersharedidx1 eps of
               None \<Rightarrow> None
             | Some t4 \<Rightarrow>
             (case flip_edge fuel h t4 othertriagidx othersharedidx2 eps of
               None \<Rightarrow> None
             | Some t5 \<Rightarrow>
             (case flip_edge fuel h t5 triagidx nonsharedidx eps of
               None \<Rightarrow> None
             | Some t6 \<Rightarrow>
             (case flip_edge fuel h t6 triagidx sharedidx1 eps of
               None \<Rightarrow> None
             | Some t7 \<Rightarrow> flip_edge fuel h t7 triagidx sharedidx2 eps)))))
          else Some triags)"

definition visible_vertices :: "t_vec list \<Rightarrow> t_vec \<Rightarrow> nat \<Rightarrow> nat \<Rightarrow> t_vec list" where
  "visible_vertices hullverts newvert hullvertidx1 hullvertidx2 =
     (let lower0 = int hullvertidx1;
          upper0 = (if hullvertidx1 > hullvertidx2
                    then int hullvertidx2 + int (length hullverts) else int hullvertidx2);
          iterLower = visible_lower hullverts newvert lower0;
          iterUpper = visible_upper hullverts newvert upper0
      in map (circ_at hullverts) [iterLower .. iterUpper])"

text \<open>Three calls of \<open>flip_edge\<close> in a row, and the triangles towards the visible vertices.\<close>

fun flip_edges :: "nat \<Rightarrow> lines_h \<Rightarrow> t_triag list \<Rightarrow> nat list \<Rightarrow> real \<Rightarrow> t_triag list option" where
  "flip_edges fuel h triags [] eps = Some triags"
| "flip_edges fuel h triags (idx # idxs) eps =
     (case flip_edge fuel h triags idx 0 eps of
        None \<Rightarrow> None
      | Some triags' \<Rightarrow> flip_edges fuel h triags' idxs eps)"

fun add_visible_triags ::
  "nat \<Rightarrow> lines_h \<Rightarrow> t_triag list \<Rightarrow> t_vec \<Rightarrow> t_vec list \<Rightarrow> real \<Rightarrow> t_triag list option" where
  "add_visible_triags fuel h triags newvert (v1 # v2 # visible) eps =
     (case flip_edge fuel h (triags @ [[newvert, v1, v2]]) (length triags) 0 eps of
        None \<Rightarrow> None
      | Some triags' \<Rightarrow> add_visible_triags fuel h triags' newvert (v2 # visible) eps)"
| "add_visible_triags fuel h triags newvert visible eps = Some triags"

text \<open>
  The insertion of one vertex: the body of the loop over the vertices. The hull of the
  vertices inserted so far comes from \<open>calc_hull_iterative_bintree\<close>, which keeps its
  hull in a search tree of the boost intrusive library; the model takes that function
  as an argument.
\<close>

definition insert_vertex ::
  "nat \<Rightarrow> lines_h \<Rightarrow> (t_vec list \<Rightarrow> real \<Rightarrow> t_vec list) \<Rightarrow> real \<Rightarrow> t_vec \<Rightarrow> t_triag list \<times> t_vec list \<Rightarrow> (t_triag list \<times> t_vec list) option" where
  "insert_vertex fuel h calc_hull_iterative_bintree eps newvert st =
     (case st of (triags, curverts) \<Rightarrow>
      case get_containing_triag h triags newvert of
        Some idx \<Rightarrow>
          (let conttriag = triags ! idx;
               triags1 = erase_at idx triags
                 @ [[newvert, conttriag ! 0, conttriag ! 1],
                    [newvert, conttriag ! 0, conttriag ! 2],
                    [newvert, conttriag ! 1, conttriag ! 2]];
               n = length triags1
           in case flip_edges fuel h triags1 [n - 3, n - 2, n - 1] eps of
                None \<Rightarrow> None
              | Some triags2 \<Rightarrow> Some (triags2, curverts @ [newvert]))
      | None \<Rightarrow>
          (let hullverts = fst (sort_vertices_by_angle h (calc_hull_iterative_bintree curverts eps))
           in case is_vert_in_hull hullverts newvert None of
                (already_in_hull, hullvertidx1, hullvertidx2) \<Rightarrow>
                  if already_in_hull then Some (triags, curverts)
                  else
                    (case add_visible_triags fuel h triags newvert
                            (visible_vertices hullverts newvert hullvertidx1 hullvertidx2) eps of
                       None \<Rightarrow> None
                     | Some triags2 \<Rightarrow> Some (triags2, curverts @ [newvert]))))"

fun insert_vertices ::
  "nat \<Rightarrow> lines_h \<Rightarrow> (t_vec list \<Rightarrow> real \<Rightarrow> t_vec list) \<Rightarrow> real \<Rightarrow> t_vec list \<Rightarrow> t_triag list \<times> t_vec list \<Rightarrow> (t_triag list \<times> t_vec list) option" where
  "insert_vertices fuel h calc_hull_iterative_bintree eps [] st = Some st"
| "insert_vertices fuel h calc_hull_iterative_bintree eps (newvert # rest) st =
     (case insert_vertex fuel h calc_hull_iterative_bintree eps newvert st of
        None \<Rightarrow> None
      | Some st' \<Rightarrow> insert_vertices fuel h calc_hull_iterative_bintree eps rest st')"

text \<open>
  The last loop: every triangle is sorted in place, its circumcentre is a Voronoi
  vertex, and its neighbours are the triangles that share one of its edges.
\<close>

definition neighbours_of :: "t_triag list \<Rightarrow> nat \<Rightarrow> real \<Rightarrow> nat set" where
  "neighbours_of triags triagidx eps =
     (let t = triags ! triagidx;
          idx_of = (\<lambda>r. case r of None \<Rightarrow> {} | Some (i, s1, s2, ns) \<Rightarrow> {i})
      in idx_of (get_triag_sharing_edge triags (t ! 0) (t ! 1) triagidx eps)
         \<union> idx_of (get_triag_sharing_edge triags (t ! 0) (t ! 2) triagidx eps)
         \<union> idx_of (get_triag_sharing_edge triags (t ! 1) (t ! 2) triagidx eps))"

fun finish_triags ::
  "lines_h \<Rightarrow> real \<Rightarrow> nat list \<Rightarrow> t_triag list \<times> t_vec option list \<times> nat set list
    \<Rightarrow> t_triag list \<times> t_vec option list \<times> nat set list" where
  "finish_triags h eps [] r = r"
| "finish_triags h eps (triagidx # rest) (triags, voronoi, neighbours) =
     (let triags1 = triags [triagidx := fst (sort_vertices_by_angle h (triags ! triagidx))]
      in finish_triags h eps rest
           (triags1, voronoi @ [calc_circumcentre h (triags1 ! triagidx)],
            neighbours @ [neighbours_of triags1 triagidx eps]))"

definition calc_delaunay_iterative ::
  "nat \<Rightarrow> lines_h \<Rightarrow> (t_vec list \<Rightarrow> real \<Rightarrow> t_vec list) \<Rightarrow> t_vec list \<Rightarrow> real \<Rightarrow> (t_vec option list \<times> t_triag list \<times> nat set list) option" where
  "calc_delaunay_iterative fuel h calc_hull_iterative_bintree verts eps =
     (if length verts < 3 then Some ([], [], [])
      else
        case insert_vertices fuel h calc_hull_iterative_bintree eps (drop 3 verts)
               ([[verts ! 0, verts ! 1, verts ! 2]], [verts ! 0, verts ! 1, verts ! 2]) of
          None \<Rightarrow> None
        | Some (triags, curverts) \<Rightarrow>
            (case finish_triags h eps [0 ..< length triags] (triags, [], []) of
               (triags', voronoi, neighbours) \<Rightarrow> Some (voronoi, triags', neighbours)))"

text \<open>
  Five points, of which the first three lie on a line; the fourth lies above the line
  and the fifth below it.
\<close>

definition collinear_start :: "t_vec list" where
  "collinear_start = [(0, 0), (10, 0), (20, 0), (10, 5), (5, - 1)]"

section \<open>Convex hulls\<close>

subsection \<open>The recursive hull\<close>

text \<open>
  The position of the first vertex with the largest, and of the first with the
  smallest, first coordinate, as \<open>std::max_element\<close> and \<open>std::min_element\<close> find them.
\<close>

definition max_element_x :: "t_vec list \<Rightarrow> nat" where
  "max_element_x vs =
     fold (\<lambda>i largest. if fst (vs ! largest) < fst (vs ! i) then i else largest) [1 ..< length vs] 0"

definition min_element_x :: "t_vec list \<Rightarrow> nat" where
  "min_element_x vs =
     fold (\<lambda>i smallest. if fst (vs ! i) < fst (vs ! smallest) then i else smallest) [1 ..< length vs] 0"

text \<open>
  An inner loop of the merge step moves a circular position by one as long as a test
  holds. Nothing in the code bounds these loops, so they count down from \<open>fuel\<close> and
  \<open>None\<close> stands for a loop that has not stopped.
\<close>

fun walk :: "nat \<Rightarrow> (int \<Rightarrow> bool) \<Rightarrow> int \<Rightarrow> int \<Rightarrow> int option" where
  "walk 0 test step p = None"
| "walk (Suc fuel) test step p =
     (if test p then walk fuel test step (p + step) else Some p)"

fun upper_tangent :: "nat \<Rightarrow> t_vec list \<Rightarrow> t_vec list \<Rightarrow> int \<Rightarrow> int \<Rightarrow> (int \<times> int) option" where
  "upper_tangent 0 hullLeft hullRight iterLeft iterRight = None"
| "upper_tangent (Suc fuel) hullLeft hullRight iterLeft iterRight =
     (case walk (Suc fuel)
             (\<lambda>p. side_of_line (circ_at hullLeft p) (circ_at hullRight iterRight)
                     (circ_at hullLeft (p + 1)) > 0) 1 iterLeft of
        None \<Rightarrow> None
      | Some iterLeft' \<Rightarrow>
          (case walk (Suc fuel)
                  (\<lambda>p. side_of_line (circ_at hullLeft iterLeft') (circ_at hullRight p)
                          (circ_at hullRight (p - 1)) > 0) (- 1) iterRight of
             None \<Rightarrow> None
           | Some iterRight' \<Rightarrow>
               if iterLeft' = iterLeft \<and> iterRight' = iterRight then Some (iterLeft, iterRight)
               else upper_tangent fuel hullLeft hullRight iterLeft' iterRight'))"

fun lower_tangent :: "nat \<Rightarrow> t_vec list \<Rightarrow> t_vec list \<Rightarrow> int \<Rightarrow> int \<Rightarrow> (int \<times> int) option" where
  "lower_tangent 0 hullLeft hullRight iterLeft iterRight = None"
| "lower_tangent (Suc fuel) hullLeft hullRight iterLeft iterRight =
     (case walk (Suc fuel)
             (\<lambda>p. side_of_line (circ_at hullLeft p) (circ_at hullRight iterRight)
                     (circ_at hullLeft (p - 1)) < 0) (- 1) iterLeft of
        None \<Rightarrow> None
      | Some iterLeft' \<Rightarrow>
          (case walk (Suc fuel)
                  (\<lambda>p. side_of_line (circ_at hullLeft iterLeft') (circ_at hullRight p)
                          (circ_at hullRight (p + 1)) < 0) 1 iterRight of
             None \<Rightarrow> None
           | Some iterRight' \<Rightarrow>
               if iterLeft' = iterLeft \<and> iterRight' = iterRight then Some (iterLeft, iterRight)
               else lower_tangent fuel hullLeft hullRight iterLeft' iterRight'))"

text \<open>
  The merge step: the upper tangent, the removal of what lies under it, the lower
  tangent on the hulls that are left, the second removal, and the sorting of all
  remaining vertices by angle.
\<close>

definition merge_hulls :: "nat \<Rightarrow> lines_h \<Rightarrow> t_vec list \<Rightarrow> t_vec list \<Rightarrow> t_vec list option" where
  "merge_hulls fuel h hullLeft hullRight =
     (let iterLeftMax = int (max_element_x hullLeft);
          iterRightMin = int (min_element_x hullRight)
      in case upper_tangent fuel hullLeft hullRight iterLeftMax iterRightMin of
           None \<Rightarrow> None
         | Some (iterLeft, iterRight) \<Rightarrow>
             (let leftIsOnMax = (iterLeft = iterLeftMax);
                  rightIsOnMin = (iterRight = iterRightMin);
                  hullLeft1 = fst (circ_erase h hullLeft (iterLeftMax + 1) iterLeft);
                  hullRight1 = fst (circ_erase h hullRight (iterRight + 1) iterRightMin);
                  iterLeftMax' = int (max_element_x hullLeft1);
                  iterRightMin' = int (min_element_x hullRight1)
              in case lower_tangent fuel hullLeft1 hullRight1 iterLeftMax' iterRightMin' of
                   None \<Rightarrow> None
                 | Some (iterLeft', iterRight') \<Rightarrow>
                     (let hullLeft2 = fst (circ_erase h hullLeft1 (iterLeft' + 1)
                                             (if leftIsOnMax then iterLeftMax' else iterLeftMax' + 1));
                          hullRight2 = fst (circ_erase h hullRight1
                                              (if rightIsOnMin then iterRightMin' + 1 else iterRightMin')
                                              iterRight')
                      in Some (fst (sort_vertices_by_angle h (hullLeft2 @ hullRight2))))))"

text \<open>
  \<open>_calc_hull_recursive_sorted\<close>: up to three vertices are sorted by angle and returned;
  more are divided, and the two recursive calls are made without the tolerance, so
  that they run with its default value. \<open>fuel\<close> bounds the depth of the recursion and
  the loops of the merge step.
\<close>

fun calc_hull_recursive_sorted :: "nat \<Rightarrow> lines_h \<Rightarrow> t_vec list \<Rightarrow> real \<Rightarrow> t_vec list option" where
  "calc_hull_recursive_sorted 0 h verts eps = None"
| "calc_hull_recursive_sorted (Suc fuel) h verts eps =
     (if length verts \<le> 3 then Some (fst (sort_vertices_by_angle h verts))
      else
        (let div0 = length verts div 2;
             divi = (if equals_real (fst (verts ! (div0 - 1))) (fst (verts ! div0)) eps
                     then div0 + 1 else div0);
             vertsLeft = take divi verts;
             vertsRight = drop divi verts
         in case calc_hull_recursive_sorted fuel h vertsLeft (1 / 100000) of
              None \<Rightarrow> None
            | Some hullLeft \<Rightarrow>
                (case calc_hull_recursive_sorted fuel h vertsRight (1 / 100000) of
                   None \<Rightarrow> None
                 | Some hullRight \<Rightarrow> merge_hulls fuel h hullLeft hullRight)))"

definition calc_hull_recursive :: "nat \<Rightarrow> lines_h \<Rightarrow> t_vec list \<Rightarrow> real \<Rightarrow> t_vec list option" where
  "calc_hull_recursive fuel h verts eps =
     calc_hull_recursive_sorted fuel h (sort_vertices h verts eps) (1 / 100000)"

subsection \<open>The iterative hull\<close>

definition insert_at :: "nat \<Rightarrow> 'a \<Rightarrow> 'a list \<Rightarrow> 'a list" where
  "insert_at pos v xs = take pos xs @ [v] @ drop pos xs"

text \<open>
  The body of the loop of \<open>calc_hull_iterative\<close>: a vertex inside the hull is skipped;
  for one outside, the hull vertices between the two ends of what it sees are removed
  and the vertex is put in their place.
\<close>

definition insert_hull_vertex :: "lines_h \<Rightarrow> t_vec \<Rightarrow> t_vec \<Rightarrow> t_vec list \<Rightarrow> t_vec list" where
  "insert_hull_vertex h vert_in_hull newvert hullverts =
     (case is_vert_in_hull hullverts newvert (Some vert_in_hull) of
        (already_in_hull, hullvertidx1, hullvertidx2) \<Rightarrow>
          if already_in_hull then hullverts
          else
            (let lower0 = int hullvertidx1;
                 upper0 = (if hullvertidx1 > hullvertidx2
                           then int hullvertidx2 + int (length hullverts) else int hullvertidx2);
                 iterLower = visible_lower hullverts newvert lower0;
                 iterUpper = visible_upper hullverts newvert upper0
             in if iterLower + 1 < iterUpper
                then (case circ_erase h hullverts (iterLower + 1) iterUpper of
                        (hullverts', pos) \<Rightarrow> insert_at pos newvert hullverts')
                else insert_at (nat (iterUpper mod int (length hullverts))) newvert hullverts))"

definition calc_hull_iterative :: "lines_h \<Rightarrow> t_vec list \<Rightarrow> real \<Rightarrow> t_vec list" where
  "calc_hull_iterative h verts0 eps =
     (let verts = remove_duplicates h verts0 eps
      in if length verts \<le> 3 then verts
         else
           (case sort_vertices_by_angle h [verts ! 0, verts ! 1, verts ! 2] of
              (hullverts, vert_in_hull) \<Rightarrow>
                fold (insert_hull_vertex h vert_in_hull) (drop 3 verts) hullverts))"

subsection \<open>Two vertex sequences that are equal up to the starting vertex\<close>

definition is_rotation :: "'a list \<Rightarrow> 'a list \<Rightarrow> bool" where
  "is_rotation xs ys = List.member (map (\<lambda>n. rotate n xs) [0 ..< Suc (length xs)]) ys"

section \<open>The helper functions as the spec describes them\<close>

text \<open>
  Modelled from the spec: the functions of \<open>lines.h\<close> and \<open>circular_iterator.h\<close> that the
  definitions above take as arguments, written from what the spec says of them, so
  that the hull and triangulation code can be run on concrete points. Duplicates are
  dropped by keeping the first of the points that are equal within the tolerance;
  the recursive hull starts from the points sorted by their first coordinate, and by
  the second among equal first ones; vertices are sorted by the polar angle of the line
  from their mean; a triangle contains a point that is on the same side of its three
  edges; the circumcentre is the point at the same distance from the three vertices;
  removing a range of a circular view removes the positions from the first up to, and
  without, the last, modulo the size.
\<close>

definition remove_duplicates_spec :: "t_vec list \<Rightarrow> real \<Rightarrow> t_vec list" where
  "remove_duplicates_spec vs eps =
     fold (\<lambda>v acc. if list_ex (\<lambda>u. equals_vec u v eps) acc then acc else acc @ [v]) vs []"

fun insert_sorted :: "('a \<Rightarrow> 'a \<Rightarrow> bool) \<Rightarrow> 'a \<Rightarrow> 'a list \<Rightarrow> 'a list" where
  "insert_sorted precedes x [] = [x]"
| "insert_sorted precedes x (y # ys) =
     (if precedes x y then x # y # ys else y # insert_sorted precedes x ys)"

definition stable_sort :: "('a \<Rightarrow> 'a \<Rightarrow> bool) \<Rightarrow> 'a list \<Rightarrow> 'a list" where
  "stable_sort precedes xs = fold (insert_sorted precedes) xs []"

definition sort_vertices_spec :: "t_vec list \<Rightarrow> real \<Rightarrow> t_vec list" where
  "sort_vertices_spec vs eps =
     stable_sort (\<lambda>a b. if equals_real (fst a) (fst b) eps then snd a < snd b else fst a < fst b) vs"

definition sort_vertices_by_angle_spec :: "t_vec list \<Rightarrow> t_vec list \<times> t_vec" where
  "sort_vertices_by_angle_spec vs =
     (let mean = vec_mean vs
      in (stable_sort (\<lambda>a b. line_angle mean a < line_angle mean b) vs, mean))"

definition triag_contains :: "t_triag \<Rightarrow> t_vec \<Rightarrow> bool" where
  "triag_contains t pt =
     (let s0 = side_of_line (t ! 0) (t ! 1) pt;
          s1 = side_of_line (t ! 1) (t ! 2) pt;
          s2 = side_of_line (t ! 2) (t ! 0) pt
      in (s0 \<ge> 0 \<and> s1 \<ge> 0 \<and> s2 \<ge> 0) \<or> (s0 \<le> 0 \<and> s1 \<le> 0 \<and> s2 \<le> 0))"

definition get_containing_triag_spec :: "t_triag list \<Rightarrow> t_vec \<Rightarrow> nat option" where
  "get_containing_triag_spec triags pt =
     find (\<lambda>idx. triag_contains (triags ! idx) pt) [0 ..< length triags]"

definition calc_circumcentre_spec :: "t_triag \<Rightarrow> t_vec option" where
  "calc_circumcentre_spec t =
     (let a = t ! 0; b = t ! 1; c = t ! 2;
          d = 2 * (fst a * (snd b - snd c) + fst b * (snd c - snd a) + fst c * (snd a - snd b));
          a2 = fst a * fst a + snd a * snd a;
          b2 = fst b * fst b + snd b * snd b;
          c2 = fst c * fst c + snd c * snd c
      in if d = 0 then None
         else Some ((a2 * (snd b - snd c) + b2 * (snd c - snd a) + c2 * (snd a - snd b)) / d,
                    (a2 * (fst c - fst b) + b2 * (fst a - fst c) + c2 * (fst b - fst a)) / d))"

definition circ_erase_spec :: "t_vec list \<Rightarrow> int \<Rightarrow> int \<Rightarrow> t_vec list \<times> nat" where
  "circ_erase_spec xs start stop =
     (let n = int (length xs);
          erased = map (\<lambda>p. nat (p mod n)) [start .. stop - 1];
          kept = filter (\<lambda>i. \<not> List.member erased i) [0 ..< length xs]
      in (map (\<lambda>i. xs ! i) kept, length (filter (\<lambda>i. i < nat (stop mod n)) kept)))"

definition lines_spec :: lines_h where
  "lines_spec =
     \<lparr> get_containing_triag = get_containing_triag_spec,
       calc_circumcentre = calc_circumcentre_spec,
       sort_vertices_by_angle = sort_vertices_by_angle_spec,
       remove_duplicates = remove_duplicates_spec,
       sort_vertices = sort_vertices_spec,
       circ_erase = circ_erase_spec \<rparr>"

text \<open>
  The same three points, once in clockwise and once in counter-clockwise order; their
  mean is the origin.
\<close>

definition cw_triangle :: "t_vec list" where
  "cw_triangle = [(1, 0), (- 1, - 1), (0, 1)]"

definition ccw_triangle :: "t_vec list" where
  "ccw_triangle = [(1, 0), (0, 1), (- 1, - 1)]"

section \<open>Shortest paths in the roadmap graph\<close>

text \<open>
  Modelled from the spec: \<open>graphs.h\<close>, with the two graph classes and the two functions
  \<open>dijk\<close> and \<open>dijk_mod\<close> that the unit test calls, is not among the source files. The
  adjacency matrix is the one above; the adjacency list keeps, for every vertex, the
  list of its outgoing edges. The unit test adds its edges by the names of the vertices.
\<close>

definition AddEdgeIdent ::
  "'w adjacency_matrix \<Rightarrow> string \<Rightarrow> string \<Rightarrow> 'w \<Rightarrow> 'w adjacency_matrix" where
  "AddEdgeIdent g ident1 ident2 w =
     (case (GetVertexIndex g ident1, GetVertexIndex g ident2) of
        (Some i, Some j) \<Rightarrow> AddEdge g i j w
      | _ \<Rightarrow> g)"

record 'w adjacency_list =
  list_idents :: "string list"
  list_edges :: "(nat \<times> 'w) list list"

definition empty_list_graph :: "'w adjacency_list" where
  "empty_list_graph = \<lparr> list_idents = [], list_edges = [] \<rparr>"

definition ListAddVertex :: "'w adjacency_list \<Rightarrow> string \<Rightarrow> 'w adjacency_list" where
  "ListAddVertex g ident =
     g \<lparr> list_idents := list_idents g @ [ident], list_edges := list_edges g @ [[]] \<rparr>"

definition ListAddEdge :: "'w adjacency_list \<Rightarrow> string \<Rightarrow> string \<Rightarrow> 'w \<Rightarrow> 'w adjacency_list" where
  "ListAddEdge g ident1 ident2 w =
     (case (index_from 0 (list_idents g) ident1, index_from 0 (list_idents g) ident2) of
        (Some i, Some j) \<Rightarrow> g \<lparr> list_edges := (list_edges g) [i := list_edges g ! i @ [(j, w)]] \<rparr>
      | _ \<Rightarrow> g)"

text \<open>
  What the two functions need of a graph: the number of its vertices, the outgoing
  neighbours of a vertex, in the order of their indices for the matrix and in the order
  in which the edges were added for the list, and the weight of an edge.
\<close>

record graph_view =
  num_vertices :: nat
  out_neighbours :: "nat \<Rightarrow> nat list"
  edge_weight :: "nat \<Rightarrow> nat \<Rightarrow> nat option"

definition matrix_view :: "nat adjacency_matrix \<Rightarrow> graph_view" where
  "matrix_view g =
     \<lparr> num_vertices = GetNumVertices g,
       out_neighbours = (\<lambda>i. filter (\<lambda>j. weight g i j \<noteq> None) [0 ..< GetNumVertices g]),
       edge_weight = weight g \<rparr>"

definition list_view :: "nat adjacency_list \<Rightarrow> graph_view" where
  "list_view g =
     \<lparr> num_vertices = length (list_idents g),
       out_neighbours = (\<lambda>i. map fst (list_edges g ! i)),
       edge_weight = (\<lambda>i j. map_of (list_edges g ! i) j) \<rparr>"

text \<open>
  Modelled from the spec: the standard algorithm, with a distance that is either known
  or infinite (\<open>None\<close>), and the vertex of the lowest index taken among those at the
  same smallest distance. The result is the array of the predecessors.
\<close>

record dijk_state =
  dists :: "nat option list"
  preds :: "nat option list"
  queue :: "nat list"

fun closest :: "nat option list \<Rightarrow> nat list \<Rightarrow> nat option" where
  "closest ds [] = None"
| "closest ds (v # vs) =
     (case closest ds vs of
        None \<Rightarrow> (case ds ! v of None \<Rightarrow> None | Some d \<Rightarrow> Some v)
      | Some u \<Rightarrow>
          (case ds ! v of
             None \<Rightarrow> Some u
           | Some d \<Rightarrow> if d < the (ds ! u) \<or> (d = the (ds ! u) \<and> v < u) then Some v else Some u))"

text \<open>
  The relaxation of the edge from \<open>u\<close> to \<open>v\<close>. In \<open>dijk\<close> every vertex waits from the
  start; in \<open>dijk_mod\<close> a vertex starts to wait when it is reached for the first time.
\<close>

definition relax :: "graph_view \<Rightarrow> bool \<Rightarrow> nat \<Rightarrow> nat \<Rightarrow> dijk_state \<Rightarrow> dijk_state" where
  "relax g enqueue u v st =
     (case (dists st ! u, edge_weight g u v) of
        (Some du, Some w) \<Rightarrow>
          (case dists st ! v of
             None \<Rightarrow>
               st \<lparr> dists := (dists st) [v := Some (du + w)],
                    preds := (preds st) [v := Some u],
                    queue := (if enqueue then queue st @ [v] else queue st) \<rparr>
           | Some dv \<Rightarrow>
               if du + w < dv
               then st \<lparr> dists := (dists st) [v := Some (du + w)],
                         preds := (preds st) [v := Some u] \<rparr>
               else st)
      | _ \<Rightarrow> st)"

fun dijk_loop :: "nat \<Rightarrow> graph_view \<Rightarrow> bool \<Rightarrow> dijk_state \<Rightarrow> dijk_state" where
  "dijk_loop 0 g enqueue st = st"
| "dijk_loop (Suc k) g enqueue st =
     (case closest (dists st) (queue st) of
        None \<Rightarrow> st
      | Some u \<Rightarrow>
          dijk_loop k g enqueue
            (fold (relax g enqueue u) (out_neighbours g u) (st \<lparr> queue := removeAll u (queue st) \<rparr>)))"

definition dijk :: "graph_view \<Rightarrow> nat \<Rightarrow> nat option list" where
  "dijk g start =
     preds (dijk_loop (num_vertices g) g False
       \<lparr> dists = (replicate (num_vertices g) None) [start := Some 0],
         preds = replicate (num_vertices g) None,
         queue = [0 ..< num_vertices g] \<rparr>)"

definition dijk_mod :: "graph_view \<Rightarrow> nat \<Rightarrow> nat option list" where
  "dijk_mod g start =
     preds (dijk_loop (num_vertices g) g True
       \<lparr> dists = (replicate (num_vertices g) None) [start := Some 0],
         preds = replicate (num_vertices g) None,
         queue = [start] \<rparr>)"

text \<open>The graph of the unit test, in both representations.\<close>

definition test_edges :: "(string \<times> string \<times> nat) list" where
  "test_edges =
     [(''v1'', ''v2'', 1), (''v1'', ''v4'', 9), (''v1'', ''v5'', 10), (''v2'', ''v3'', 3),
      (''v2'', ''v4'', 7), (''v3'', ''v1'', 10), (''v3'', ''v4'', 1), (''v3'', ''v5'', 2),
      (''v4'', ''v2'', 1), (''v4'', ''v5'', 2)]"

definition test_matrix :: "nat adjacency_matrix" where
  "test_matrix =
     fold (\<lambda>(a, b, w) g. AddEdgeIdent g a b w) test_edges
       (fold (\<lambda>ident g. AddVertex g ident) [''v1'', ''v2'', ''v3'', ''v4'', ''v5''] empty_graph)"

definition test_list :: "nat adjacency_list" where
  "test_list =
     fold (\<lambda>(a, b, w) g. ListAddEdge g a b w) test_edges
       (fold (\<lambda>ident g. ListAddVertex g ident) [''v1'', ''v2'', ''v3'', ''v4'', ''v5''] empty_list_graph)"

section \<open>Properties of the Voronoi diagram calculation\<close>

subsection \<open>Edges inside one group\<close>

lemma get_group_idx_from_unique:
  assumes "g < length gs" "gs ! g = (b, e)" "b \<le> s" "s < e"
    and "\<forall>i<length gs. \<forall>j<length gs. i \<noteq> j \<longrightarrow>
           snd (gs ! i) \<le> fst (gs ! j) \<or> snd (gs ! j) \<le> fst (gs ! i)"
  shows "get_group_idx_from k gs s = Some (k + g)"
  using assms
proof (induction gs arbitrary: k g)
  case Nil
  then show ?case by simp
next
  case (Cons x gs)
  obtain xb xe where x: "x = (xb, xe)" by (cases x)
  show ?case
  proof (cases g)
    case 0
    with Cons.prems x show ?thesis by simp
  next
    case (Suc g')
    have dis: "snd ((x # gs) ! 0) \<le> fst ((x # gs) ! g) \<or> snd ((x # gs) ! g) \<le> fst ((x # gs) ! 0)"
      using Cons.prems(1,5) Suc by (metis length_greater_0_conv list.discI nat.distinct(1))
    hence notin: "\<not> (xb \<le> s \<and> s < xe)"
      using Cons.prems(2,3,4) x by auto
    have rest: "\<forall>i<length gs. \<forall>j<length gs. i \<noteq> j \<longrightarrow>
           snd (gs ! i) \<le> fst (gs ! j) \<or> snd (gs ! j) \<le> fst (gs ! i)"
    proof (intro allI impI)
      fix i j assume "i < length gs" "j < length gs" "i \<noteq> j"
      then show "snd (gs ! i) \<le> fst (gs ! j) \<or> snd (gs ! j) \<le> fst (gs ! i)"
        using Cons.prems(5)[rule_format, of "Suc i" "Suc j"] by simp
    qed
    have "get_group_idx_from (Suc k) gs s = Some (Suc k + g')"
      using Cons.IH[of g' "Suc k"] Cons.prems(1,2,3,4) Suc rest by simp
    then show ?thesis using notin x Suc by simp
  qed
qed

lemma voro_edge_step_same_group:
  "line_groups \<noteq> [] \<Longrightarrow> same_group line_groups e \<Longrightarrow>
   voro_edge_step pip disc lines line_groups rvr edge_eps voro e st = st"
  by (simp add: voro_edge_step_def Let_def)

lemma voro_edge_step_vertices_only:
  assumes h: "voro_vertices voro' = voro_vertices voro"
  shows "voro_edge_step pip disc lines line_groups rvr edge_eps voro' =
   voro_edge_step pip disc lines line_groups rvr edge_eps voro"
  unfolding voro_edge_step_def scaled_vertices_def get_vertex_idx_def
    finite_edge_block_def infinite_edge_block_def h by (rule refl)

lemma same_group_ranges:
  assumes "cell e = Some c1" "twin_cell e = Some c2"
    and "g < length line_groups" "line_groups ! g = (grp_beg, grp_end)"
    and "grp_beg \<le> source_index c1" "source_index c1 < grp_end"
    and "grp_beg \<le> source_index c2" "source_index c2 < grp_end"
    and "\<forall>i<length line_groups. \<forall>j<length line_groups. i \<noteq> j \<longrightarrow>
           snd (line_groups ! i) \<le> fst (line_groups ! j) \<or> snd (line_groups ! j) \<le> fst (line_groups ! i)"
  shows "same_group line_groups e"
proof -
  have "get_group_idx line_groups (source_index c1) = Some g"
    using get_group_idx_from_unique[OF assms(3,4,5,6,9), of 0] by (simp add: get_group_idx_def)
  moreover have "get_group_idx line_groups (source_index c2) = Some g"
    using get_group_idx_from_unique[OF assms(3,4,7,8,9), of 0] by (simp add: get_group_idx_def)
  ultimately show ?thesis
    using assms(1,2) by (simp add: same_group_def get_segment_idx_def)
qed

text \<open>
  Claim C6. With a non-empty grouping whose index ranges do not overlap, an edge of the
  diagram whose two cells come from segments of the same group is discarded: the loop
  body leaves the graph, the linear bisectors and the parabolic bisectors as they were,
  and the result of \<open>calc_voro\<close> is the result for the diagram without that edge.
\<close>

theorem same_group_edge_discarded:
  assumes "line_groups \<noteq> []"
    and "cell e = Some c1" "twin_cell e = Some c2"
    and "g < length line_groups" "line_groups ! g = (grp_beg, grp_end)"
    and "grp_beg \<le> source_index c1" "source_index c1 < grp_end"
    and "grp_beg \<le> source_index c2" "source_index c2 < grp_end"
    and "\<forall>i<length line_groups. \<forall>j<length line_groups. i \<noteq> j \<longrightarrow>
           snd (line_groups ! i) \<le> fst (line_groups ! j) \<or> snd (line_groups ! j) \<le> fst (line_groups ! i)"
  shows "voro_edge_step pip disc lines line_groups rvr edge_eps voro e st = st
    \<and> calc_voro pip disc lines line_groups rvr edge_eps (voro \<lparr> voro_edges := es1 @ e # es2 \<rparr>)
      = calc_voro pip disc lines line_groups rvr edge_eps (voro \<lparr> voro_edges := es1 @ es2 \<rparr>)"
proof -
  have sg: "same_group line_groups e"
    using same_group_ranges[OF assms(2-10)] .
  have step: "\<And>v s. voro_edge_step pip disc lines line_groups rvr edge_eps v e s = s"
    using voro_edge_step_same_group[OF assms(1) sg] .
  let ?v1 = "voro \<lparr> voro_edges := es1 @ e # es2 \<rparr>"
  let ?v2 = "voro \<lparr> voro_edges := es1 @ es2 \<rparr>"
  have eqf: "voro_edge_step pip disc lines line_groups rvr edge_eps ?v1
        = voro_edge_step pip disc lines line_groups rvr edge_eps ?v2"
    by (rule voro_edge_step_vertices_only) simp
  have "voro_edges_loop pip disc lines line_groups rvr edge_eps ?v1
      = voro_edges_loop pip disc lines line_groups rvr edge_eps ?v2"
    unfolding voro_edges_loop_def eqf by (simp add: step)
  then have "calc_voro pip disc lines line_groups rvr edge_eps ?v1
      = calc_voro pip disc lines line_groups rvr edge_eps ?v2"
    unfolding calc_voro_def by (simp add: scaled_vertices_def)
  with step show ?thesis by simp
qed

theorem same_group_edge_discarded_witness:
  "[(0::nat, 2::nat)] \<noteq> []
   \<and> cell corner_edge = Some \<lparr> source_index = 0, source_category = SOURCE_CATEGORY_INITIAL_SEGMENT \<rparr>
   \<and> twin_cell corner_edge = Some \<lparr> source_index = 1, source_category = SOURCE_CATEGORY_INITIAL_SEGMENT \<rparr>
   \<and> voro_edge_step no_pt_inside_poly keep_end_points corner_lines [(0, 2)] False (1 / 100)
        corner_voro corner_edge start_state = start_state
   \<and> calc_voro no_pt_inside_poly keep_end_points corner_lines [(0, 2)] False (1 / 100)
        (corner_voro \<lparr> voro_edges := [] @ corner_edge # [] \<rparr>)
     = calc_voro no_pt_inside_poly keep_end_points corner_lines [(0, 2)] False (1 / 100)
        (corner_voro \<lparr> voro_edges := [] @ [] \<rparr>)"
  using same_group_edge_discarded [of "[(0, 2)]" corner_edge
      "\<lparr> source_index = 0, source_category = SOURCE_CATEGORY_INITIAL_SEGMENT \<rparr>"
      "\<lparr> source_index = 1, source_category = SOURCE_CATEGORY_INITIAL_SEGMENT \<rparr>"
      0 0 2 no_pt_inside_poly keep_end_points corner_lines False "1 / 100" corner_voro start_state
      "[]" "[]"]
  by (simp add: corner_edge_def)

subsection \<open>Infinite edges\<close>

lemma fold_max_eq_Max:
  "fold (\<lambda>x m. max m (f x)) xs (a::real) = Max (insert a (f ` set xs))"
proof (induction xs arbitrary: a)
  case Nil
  then show ?case by simp
next
  case (Cons x xs)
  have "fold (\<lambda>x m. max m (f x)) (x # xs) a = Max (insert (max a (f x)) (f ` set xs))"
    using Cons.IH by simp
  also have "\<dots> = Max (insert a (insert (f x) (f ` set xs)))"
  proof (cases "set xs = {}")
    case True
    then show ?thesis by (simp add: max.commute)
  next
    case False
    then have ne: "f ` set xs \<noteq> {}" by simp
    have fin: "finite (f ` set xs)" by simp
    show ?thesis
      using ne fin by (simp add: max.assoc)
  qed
  finally show ?case by simp
qed


lemma infline_len_eq:
  "infline_len lines = 10 * Max (insert 1 (segment_length ` set lines))"
  unfolding infline_len_def
  using fold_max_eq_Max[of segment_length lines 1]
  by simp

lemma infline_len_ge: "infline_len lines \<ge> 10"
proof -
  have "Max (insert 1 (segment_length ` set lines)) \<ge> 1"
    by (rule Max_ge) simp_all
  then show ?thesis by (simp add: infline_len_eq)
qed

lemma norm_vec_nonneg: "norm_vec v \<ge> 0"
  by (simp add: norm_vec_def)

lemma norm_vec_zero_iff: "norm_vec v = 0 \<longleftrightarrow> v = (0, 0)"
proof -
  have "fst v * fst v + snd v * snd v = 0 \<longleftrightarrow> fst v = 0 \<and> snd v = 0"
    by (simp add: sum_squares_eq_zero_iff)
  then show ?thesis
    by (cases v) (simp add: norm_vec_def)
qed

lemma norm_vec_scaled_unit:
  assumes "v \<noteq> (0, 0)" "L \<ge> 0"
  shows "norm_vec (vec_mul (vec_div v (norm_vec v)) L) = L"
proof -
  obtain x y where v: "v = (x, y)" by (cases v)
  define n where "n = sqrt (x * x + y * y)"
  have "x * x + y * y \<noteq> 0"
    using assms(1) v by (simp add: sum_squares_eq_zero_iff)
  moreover have "x * x + y * y \<ge> 0" by simp
  ultimately have "x * x + y * y > 0" by linarith
  then have npos: "n > 0" by (simp add: n_def)
  have sq: "n * n = x * x + y * y"
    by (simp add: n_def add_nonneg_nonneg)
  have "(x / n * L) * (x / n * L) + (y / n * L) * (y / n * L)
        = (x * x + y * y) * (L * L) / (n * n)"
    using npos by (simp add: field_simps)
  also have "\<dots> = (n * n) * (L * L) / (n * n)"
    by (simp only: sq)
  also have "\<dots> = L * L"
    using npos by simp
  finally have "sqrt ((x / n * L) * (x / n * L) + (y / n * L) * (y / n * L)) = sqrt (L * L)"
    by simp
  then have "sqrt ((x / n * L) * (x / n * L) + (y / n * L) * (y / n * L)) = L"
    using assms(2) by simp
  then show ?thesis
    unfolding v norm_vec_def vec_mul_def vec_div_def fst_conv snd_conv n_def .
qed

lemma vec_add_sub_cancel: "vec_sub (vec_add a b) a = b"
  by (cases a, cases b) (simp add: vec_add_def vec_sub_def)

lemma graph_infinite_edge_block [simp]:
  "graph (infinite_edge_block lines scale voro e i0 i1 st) = graph st"
  by (simp add: infinite_edge_block_def split: option.split prod.split)

lemma graph_finite_edge_block [simp]:
  "graph (finite_edge_block scale voro i0 i1 st) = graph st"
  by (simp add: finite_edge_block_def)

lemma graph_parabolic_edge_block [simp]:
  "graph (parabolic_edge_block disc lines edge_eps verts e i0 i1 st) = graph st"
  by (simp add: parabolic_edge_block_def Let_def split: option.split prod.split)

lemma parabolic_infinite_edge_block [simp]:
  "all_parabolic_edges (infinite_edge_block lines scale voro e i0 i1 st) = all_parabolic_edges st"
  by (simp add: infinite_edge_block_def split: option.split prod.split)

lemma infinite_no_valid:
  "\<not> is_finite e \<Longrightarrow> get_vertex_idx voro (vertex0 e) = None \<or> get_vertex_idx voro (vertex1 e) = None"
  by (auto simp add: is_finite_def get_vertex_idx_def)

lemma add_graph_edges_invalid:
  "i0 = None \<or> i1 = None \<Longrightarrow> add_graph_edges verts i0 i1 st = st"
  by (auto simp add: add_graph_edges_def split: option.split)

lemma infinite_edge_step:
  assumes inf: "\<not> is_finite e"
  shows "voro_edge_step pip disc lines line_groups rvr edge_eps voro e st =
    (if is_secondary e then st
     else if line_groups \<noteq> [] \<and> same_group line_groups e then st
     else if line_groups \<noteq> [] \<and> rvr
              \<and> vert_inside_region pip lines line_groups (edge_eps * edge_eps)
                     (scaled_vertices (voro_scale edge_eps) voro)
                     (get_vertex_idx voro (vertex0 e)) (get_vertex_idx voro (vertex1 e)) then st
     else infinite_edge_block lines (voro_scale edge_eps) voro e
            (get_vertex_idx voro (vertex0 e)) (get_vertex_idx voro (vertex1 e)) st)"
proof -
  have nv: "get_vertex_idx voro (vertex0 e) = None \<or> get_vertex_idx voro (vertex1 e) = None"
    using infinite_no_valid[OF inf, of voro] .
  show ?thesis
    unfolding voro_edge_step_def Let_def add_graph_edges_invalid[OF nv]
    using nv inf by (auto split: option.split)
qed

text \<open>
  Claim C7, as the code has it. An infinite edge never changes the roadmap graph and
  never yields a parabolic bisector. When it is a primary edge that the grouping tests
  keep, has one end vertex, and its two cells are end points of segments at different
  positions, exactly one linear bisector is appended: it starts in the end vertex and
  its length is ten times the larger of 1 and the longest input segment.
\<close>

theorem infinite_edge_bisector:
  assumes inf: "\<not> is_finite e"
  shows "graph (voro_edge_step pip disc lines line_groups rvr edge_eps voro e st) = graph st
    \<and> all_parabolic_edges (voro_edge_step pip disc lines line_groups rvr edge_eps voro e st)
        = all_parabolic_edges st
    \<and> (\<not> is_secondary e
         \<and> (line_groups \<noteq> [] \<longrightarrow> \<not> same_group line_groups e
               \<and> \<not> (rvr \<and> vert_inside_region pip lines line_groups (edge_eps * edge_eps)
                     (scaled_vertices (voro_scale edge_eps) voro)
                     (get_vertex_idx voro (vertex0 e)) (get_vertex_idx voro (vertex1 e))))
         \<and> (vertex0 e = Some p \<and> \<not> inverted \<or> vertex0 e = None \<and> vertex1 e = Some p \<and> inverted)
         \<and> get_segment_point lines e False = Some vec
         \<and> get_segment_point lines e True = Some twinvec
         \<and> vec \<noteq> twinvec
       \<longrightarrow>
         (let lineorg = vec_div (voro_vertices voro ! p) (voro_scale edge_eps);
              line = infinite_edge_line lines lineorg inverted vec twinvec
          in linear_edges (voro_edge_step pip disc lines line_groups rvr edge_eps voro e st)
               = linear_edges st @
                   [(line, get_vertex_idx voro (vertex0 e), get_vertex_idx voro (vertex1 e))]
             \<and> fst line = lineorg
             \<and> norm_vec (vec_sub (snd line) (fst line))
                 = 10 * Max (insert 1 (segment_length ` set lines))))"
proof (intro conjI impI)
  show "graph (voro_edge_step pip disc lines line_groups rvr edge_eps voro e st) = graph st"
    unfolding infinite_edge_step[OF inf] by simp
  show "all_parabolic_edges (voro_edge_step pip disc lines line_groups rvr edge_eps voro e st)
        = all_parabolic_edges st"
    unfolding infinite_edge_step[OF inf] by simp
next
  assume c: "\<not> is_secondary e
         \<and> (line_groups \<noteq> [] \<longrightarrow> \<not> same_group line_groups e
               \<and> \<not> (rvr \<and> vert_inside_region pip lines line_groups (edge_eps * edge_eps)
                     (scaled_vertices (voro_scale edge_eps) voro)
                     (get_vertex_idx voro (vertex0 e)) (get_vertex_idx voro (vertex1 e))))
         \<and> (vertex0 e = Some p \<and> \<not> inverted \<or> vertex0 e = None \<and> vertex1 e = Some p \<and> inverted)
         \<and> get_segment_point lines e False = Some vec
         \<and> get_segment_point lines e True = Some twinvec
         \<and> vec \<noteq> twinvec"
  define perpdir where "perpdir = (if inverted then vec_neg (vec_sub vec twinvec) else vec_sub vec twinvec)"
  define linedir0 where "linedir0 = (snd perpdir, - fst perpdir)"
  have "vec_sub vec twinvec \<noteq> (0, 0)"
    using c by (cases vec, cases twinvec) (auto simp add: vec_sub_def)
  then have "perpdir \<noteq> (0, 0)"
    by (cases "vec_sub vec twinvec") (auto simp add: perpdir_def vec_neg_def)
  then have nz: "linedir0 \<noteq> (0, 0)"
    by (cases perpdir) (auto simp add: linedir0_def)
  have len: "norm_vec (vec_mul (vec_div linedir0 (norm_vec linedir0)) (infline_len lines))
      = infline_len lines"
    using nz infline_len_ge[of lines] by (intro norm_vec_scaled_unit) auto
  have line: "infinite_edge_line lines lineorg inverted vec twinvec
      = (lineorg, vec_add lineorg (vec_mul (vec_div linedir0 (norm_vec linedir0)) (infline_len lines)))"
    for lineorg
    by (simp add: infinite_edge_line_def Let_def linedir0_def perpdir_def)
  have emit: "voro_edge_step pip disc lines line_groups rvr edge_eps voro e st
      = st \<lparr> linear_edges := linear_edges st @
          [(infinite_edge_line lines (vec_div (voro_vertices voro ! p) (voro_scale edge_eps))
              inverted vec twinvec,
            get_vertex_idx voro (vertex0 e), get_vertex_idx voro (vertex1 e))] \<rparr>"
    unfolding infinite_edge_step[OF inf] infinite_edge_block_def
    using c by auto
  show "(let lineorg = vec_div (voro_vertices voro ! p) (voro_scale edge_eps);
              line = infinite_edge_line lines lineorg inverted vec twinvec
          in linear_edges (voro_edge_step pip disc lines line_groups rvr edge_eps voro e st)
               = linear_edges st @
                   [(line, get_vertex_idx voro (vertex0 e), get_vertex_idx voro (vertex1 e))]
             \<and> fst line = lineorg
             \<and> norm_vec (vec_sub (snd line) (fst line))
                 = 10 * Max (insert 1 (segment_length ` set lines)))"
    unfolding Let_def emit line
    using len by (simp add: vec_add_sub_cancel infline_len_eq)
qed


lemma voro_scale_100: "voro_scale (1 / 100) = 10000"
  by (simp add: voro_scale_def)

lemma sqrt_quarter: "sqrt (1 / 4) = 1 / 2"
  by (simp add: real_sqrt_divide)

lemma infline_len_parallel: "infline_len parallel_lines = 10"
  by (simp add: infline_len_def parallel_lines_def segment_length_def norm_vec_def vec_sub_def sqrt_quarter)

lemma Max_length_parallel: "Max (segment_length ` set parallel_lines) = 1 / 2"
  by (simp add: parallel_lines_def segment_length_def norm_vec_def vec_sub_def sqrt_quarter)

lemmas voro_eval_simps =
  voro_edge_step_def Let_def voro_scale_100 scaled_vertices_def get_vertex_idx_def
  add_graph_edges_def parabolic_edge_block_def finite_edge_block_def infinite_edge_block_def
  infinite_edge_line_def
  get_segment_point_def get_segment_def get_segment_idx_def is_finite_def
  voro_edge_def voro_cell_def norm_vec_def vec_sub_def vec_add_def vec_mul_def vec_div_def vec_neg_def
  sqrt_quarter infline_len_parallel infline_len_parallel[unfolded parallel_lines_def]
  no_pt_inside_poly_def keep_end_points_def contains_point_def

theorem infinite_edge_bisector_witness:
  "\<not> is_finite left_infinite_edge
   \<and> \<not> is_secondary left_infinite_edge
   \<and> vertex0 left_infinite_edge = Some 0
   \<and> get_segment_point parallel_lines left_infinite_edge False = Some (0, - (1 / 4))
   \<and> get_segment_point parallel_lines left_infinite_edge True = Some (0, 1 / 4)
   \<and> graph (voro_edge_step no_pt_inside_poly keep_end_points parallel_lines [] False (1 / 100)
         parallel_voro left_infinite_edge start_state) = graph start_state
   \<and> linear_edges (voro_edge_step no_pt_inside_poly keep_end_points parallel_lines [] False (1 / 100)
         parallel_voro left_infinite_edge start_state) = [(((0, 0), (- 10, 0)), Some 0, None)]
   \<and> norm_vec (vec_sub (- 10, 0) (0, 0)) = 10 * Max (insert 1 (segment_length ` set parallel_lines))"
proof -
  have h: "\<not> is_finite left_infinite_edge"
    by (simp add: left_infinite_edge_def voro_edge_def is_finite_def)
  have pts: "get_segment_point parallel_lines left_infinite_edge False = Some (0, - (1 / 4))"
    "get_segment_point parallel_lines left_infinite_edge True = Some (0, 1 / 4)"
    by (simp_all add: left_infinite_edge_def parallel_lines_def voro_eval_simps)
  have line: "infinite_edge_line parallel_lines (0, 0) False (0, - (1 / 4)) (0, 1 / 4) = ((0, 0), (- 10, 0))"
    by (simp add: voro_eval_simps)
  have org: "vec_div (voro_vertices parallel_voro ! 0) (voro_scale (1 / 100)) = (0, 0)"
    by (simp add: parallel_voro_def vec_div_def)
  have idx: "get_vertex_idx parallel_voro (vertex0 left_infinite_edge) = Some 0"
    "get_vertex_idx parallel_voro (vertex1 left_infinite_edge) = None"
    "vertex0 left_infinite_edge = Some 0" "\<not> is_secondary left_infinite_edge"
    "get_vertex_idx parallel_voro (Some 0) = Some 0"
    by (simp_all add: left_infinite_edge_def voro_edge_def get_vertex_idx_def parallel_voro_def)
  show ?thesis
    using infinite_edge_bisector [OF h, of no_pt_inside_poly keep_end_points parallel_lines "[]" False
        "1 / 100" parallel_voro start_state 0 False "(0, - (1 / 4))" "(0, 1 / 4)"]
    by (simp add: h pts line org idx Let_def start_state_def)
qed

text \<open>
  Claim C7 as the spec states it fails for the two parallel segments of length 1/2: the
  infinite bisector between their start points is returned as the line from (0, 0) to
  (-10, 0), of length 10, and ten times the longest segment is 5.
\<close>

theorem infinite_edge_length_counterexample:
  "\<not> is_finite left_infinite_edge
   \<and> left_infinite_edge \<in> set (voro_edges parallel_voro)
   \<and> result_bisectors (calc_voro no_pt_inside_poly keep_end_points parallel_lines [] False (1 / 100) parallel_voro)
     = Some ([(0, 0), (1 / 2, 0)],
        [ (((0, 0), (- 10, 0)), Some 0, None), (((0, 0), (- 10, 0)), None, Some 0),
          (((1 / 2, 0), (0, 0)), Some 1, Some 0), (((0, 0), (1 / 2, 0)), Some 0, Some 1),
          (((1 / 2, 0), (21 / 2, 0)), Some 1, None), (((1 / 2, 0), (21 / 2, 0)), None, Some 1) ], [])
   \<and> norm_vec (vec_sub (- 10, 0) (0, 0)) \<noteq> 10 * Max (segment_length ` set parallel_lines)"
proof -
  have h: "\<not> is_finite left_infinite_edge"
    by (simp add: left_infinite_edge_def voro_edge_def is_finite_def)
  have m: "left_infinite_edge \<in> set (voro_edges parallel_voro)"
    by (simp add: parallel_voro_def)
  have r: "result_bisectors (calc_voro no_pt_inside_poly keep_end_points parallel_lines [] False (1 / 100) parallel_voro)
     = Some ([(0, 0), (1 / 2, 0)],
        [ (((0, 0), (- 10, 0)), Some 0, None), (((0, 0), (- 10, 0)), None, Some 0),
          (((1 / 2, 0), (0, 0)), Some 1, Some 0), (((0, 0), (1 / 2, 0)), Some 0, Some 1),
          (((1 / 2, 0), (21 / 2, 0)), Some 1, None), (((1 / 2, 0), (21 / 2, 0)), None, Some 1) ], [])"
    by (simp add: calc_voro_def voro_edges_loop_def result_bisectors_def voro_eval_simps
          left_infinite_edge_def parallel_voro_def parallel_lines_def)
  have n: "norm_vec (vec_sub (- 10, 0) (0, 0)) \<noteq> 10 * Max (segment_length ` set parallel_lines)"
    by (simp add: Max_length_parallel norm_vec_def vec_sub_def)
  show ?thesis using h m r n by simp
qed

section \<open>Removal of the vertices without a connection\<close>


































































subsection \<open>Without a grouping\<close>












subsection \<open>The diagram of three stacked segments\<close>




















subsection \<open>The result of \<open>calc_voro\<close>\<close>



section \<open>Properties of the convex splitting\<close>

subsection \<open>Evaluating the corner test at multiples of a right angle\<close>

lemma fmod_pi: "fmod (a * pi) (2 * pi) = fmod a 2 * pi"
proof -
  have "a * pi / (2 * pi) = a / 2" by simp
  then show ?thesis by (simp add: fmod_def algebra_simps)
qed

lemma mod_pos_pi: "mod_pos (a * pi) (2 * pi) = mod_pos a 2 * pi"
proof -
  have "fmod a 2 * pi < 0 \<longleftrightarrow> fmod a 2 < 0"
    by (simp add: mult_less_0_iff)
  then show ?thesis
    unfolding mod_pos_def Let_def fmod_pi by (simp add: algebra_simps)
qed

lemma pi_gt: "a < b \<Longrightarrow> a * pi < b * pi" by simp

lemma concave_test_pi:
  assumes "eps \<ge> 0" "pi - d = a * pi" "mod_pos a 2 \<le> 1"
  shows "\<not> (mod_pos (pi - d) (2 * pi) > pi + eps)"
proof -
  have "mod_pos (pi - d) (2 * pi) = mod_pos a 2 * pi"
    using assms(2) mod_pos_pi by simp
  also have "\<dots> \<le> 1 * pi"
    using assms(3) by (intro mult_right_mono) auto
  finally show ?thesis using assms(1) by simp
qed

lemma all_less_4: "(\<forall>i<4::nat. P i) \<longleftrightarrow> P 0 \<and> P 1 \<and> P 2 \<and> P 3"
proof -
  have "{..<4::nat} = {0, 1, 2, 3}" by auto
  then show ?thesis by (metis (no_types, lifting) insert_iff lessThan_iff empty_iff)
qed

lemma square_corner: "idx1 < 4 \<Longrightarrow> \<not> concave_corner line_angle_between (1 / 1000000) unit_square idx1"
proof -
  assume "idx1 < 4"
  then consider "idx1 = 0" | "idx1 = 1" | "idx1 = 2" | "idx1 = 3" by linarith
  then show ?thesis
  proof cases
    case 1
    show ?thesis unfolding concave_corner_def Let_def 1
      by (rule concave_test_pi[where a="1/2"])
         (simp_all add: unit_square_def line_angle_between_def line_angle_def atan2_def mod_pos_def fmod_def)
  next
    case 2
    show ?thesis unfolding concave_corner_def Let_def 2
      by (rule concave_test_pi[where a="1/2"])
         (simp_all add: unit_square_def line_angle_between_def line_angle_def atan2_def mod_pos_def fmod_def)
  next
    case 3
    show ?thesis unfolding concave_corner_def Let_def 3
      by (rule concave_test_pi[where a="5/2"])
         (simp_all add: unit_square_def line_angle_between_def line_angle_def atan2_def mod_pos_def fmod_def)
  next
    case 4
    show ?thesis unfolding concave_corner_def Let_def 4
      by (rule concave_test_pi[where a="1/2"])
         (simp_all add: unit_square_def line_angle_between_def line_angle_def atan2_def mod_pos_def fmod_def)
  qed
qed


subsection \<open>Areas of the two parts of a cut\<close>

lemma chain_append_overlap:
  "chain (xs @ a # ys) = chain (xs @ [a]) + chain (a # ys)"
proof (induction xs)
  case Nil
  then show ?case by simp
next
  case (Cons x xs)
  then show ?case by (cases xs) simp_all
qed

lemma cross2_antisym: "cross2 a b + cross2 b a = 0"
  by (simp add: cross2_def)

lemma cross2_self: "cross2 a a = 0"
  by (simp add: cross2_def)

lemma shoelace_rotate1: "shoelace (rotate1 xs) = shoelace xs"
proof (cases xs)
  case Nil
  then show ?thesis by simp
next
  case (Cons a ys)
  show ?thesis
  proof (cases ys)
    case Nil
    with Cons show ?thesis by (simp add: shoelace_def)
  next
    case (Cons b zs)
    have "shoelace (rotate1 xs) = chain ((ys @ [a]) @ [b])"
      using \<open>xs = a # ys\<close> Cons by (simp add: shoelace_def)
    also have "\<dots> = chain (ys @ [a]) + chain [a, b]"
      using chain_append_overlap[of ys a "[b]"] by simp
    also have "\<dots> = chain (a # ys @ [a])"
      using Cons by simp
    finally show ?thesis using \<open>xs = a # ys\<close> by (simp add: shoelace_def)
  qed
qed

lemma shoelace_rotate: "shoelace (rotate n xs) = shoelace xs"
  by (induction n) (simp_all add: shoelace_rotate1)

lemma shoelace_short: "length q < 3 \<Longrightarrow> shoelace q = 0"
proof -
  assume "length q < 3"
  then consider "q = []" | a where "q = [a]" | a b where "q = [a, b]"
    by (cases q; cases "tl q"; cases "tl (tl q)") auto
  then show ?thesis
    by cases (simp_all add: shoelace_def cross2_self cross2_antisym)
qed

lemma shoelace_chord:
  assumes "0 < m" "m < length r"
  shows "shoelace (take (Suc m) r) + shoelace (drop m r @ [r ! 0]) = shoelace r"
proof -
  have r: "r = take m r @ r ! m # drop (Suc m) r"
    using assms(2) by (simp add: id_take_nth_drop[symmetric])
  have hd_r: "hd r = r ! 0" using assms by (cases r) auto
  have tk: "take (Suc m) r = take m r @ [r ! m]"
    using assms(2) by (simp add: take_Suc_conv_app_nth)
  have hd_tk: "hd (take (Suc m) r) = r ! 0" using assms by (cases r) auto
  have dr: "drop m r = r ! m # drop (Suc m) r"
    using assms(2) by (simp add: Cons_nth_drop_Suc)
  have "shoelace (take (Suc m) r) = chain (take m r @ [r ! m] @ [r ! 0])"
    by (simp add: shoelace_def tk hd_tk[unfolded tk])
  also have "\<dots> = chain (take m r @ [r ! m]) + cross2 (r ! m) (r ! 0)"
    using chain_append_overlap[of "take m r" "r ! m" "[r ! 0]"] by simp
  finally have s2: "shoelace (take (Suc m) r) = chain (take m r @ [r ! m]) + cross2 (r ! m) (r ! 0)" .
  have "shoelace (drop m r @ [r ! 0]) = chain ((r ! m # drop (Suc m) r @ [r ! 0]) @ [r ! m])"
    by (simp add: shoelace_def dr)
  also have "\<dots> = chain ((r ! m # drop (Suc m) r) @ [r ! 0]) + chain [r ! 0, r ! m]"
    using chain_append_overlap[of "r ! m # drop (Suc m) r" "r ! 0" "[r ! m]"] by simp
  finally have s1: "shoelace (drop m r @ [r ! 0])
      = chain (r ! m # drop (Suc m) r @ [r ! 0]) + cross2 (r ! 0) (r ! m)" by simp
  have "shoelace r = chain (take m r @ r ! m # (drop (Suc m) r @ [hd r]))"
    unfolding shoelace_def by (subst r) simp
  also have "\<dots> = chain (take m r @ [r ! m]) + chain (r ! m # drop (Suc m) r @ [r ! 0])"
    using chain_append_overlap[of "take m r" "r ! m" "drop (Suc m) r @ [hd r]"] hd_r by simp
  finally show ?thesis
    using s1 s2 cross2_antisym[of "r ! m" "r ! 0"] by simp
qed

lemma circ_range_take:
  assumes "xs \<noteq> []"
  shows "circ_range xs start stop
    = take (Suc ((stop mod length xs + length xs - start mod length xs) mod length xs)) (rotate start xs)"
proof -
  let ?N = "length xs"
  let ?m = "(stop mod ?N + ?N - start mod ?N) mod ?N"
  have N: "?N > 0" using assms by simp
  have m: "?m < ?N" using N by simp
  show ?thesis
  proof (rule nth_equalityI)
    show "length (circ_range xs start stop) = length (take (Suc ?m) (rotate start xs))"
      using m by (simp add: circ_range_def)
  next
    fix j assume "j < length (circ_range xs start stop)"
    then have j: "j < Suc ?m" by (simp add: circ_range_def)
    then have jN: "j < ?N" using m by linarith
    have "circ_range xs start stop ! j = xs ! ((start + j) mod ?N)"
      using j by (simp add: circ_range_def circ_nth_def del: upt_Suc)
    moreover have "take (Suc ?m) (rotate start xs) ! j = xs ! ((start + j) mod ?N)"
      using j jN by (simp add: nth_rotate)
    ultimately show "circ_range xs start stop ! j = take (Suc ?m) (rotate start xs) ! j"
      by simp
  qed
qed

lemma mod_diff_sum:
  fixes a b N :: nat
  assumes "a < N" "b < N" "a \<noteq> b"
  shows "(b + N - a) mod N + (a + N - b) mod N = N" "(b + N - a) mod N > 0"
proof -
  consider "a < b" | "b < a" using assms(3) by linarith
  then have "(b + N - a) mod N + (a + N - b) mod N = N \<and> (b + N - a) mod N > 0"
  proof cases
    case 1
    have e1: "b + N - a = (b - a) + N" using 1 by simp
    have "(b + N - a) mod N = ((b - a) + N) mod N" by (simp only: e1)
    also have "\<dots> = (b - a) mod N" by simp
    also have "\<dots> = b - a" using assms(2) 1 by simp
    finally have "(b + N - a) mod N = b - a" .
    moreover have "(a + N - b) mod N = a + N - b" using 1 assms by simp
    ultimately show ?thesis using 1 assms by simp
  next
    case 2
    have e1: "a + N - b = (a - b) + N" using 2 by simp
    have "(a + N - b) mod N = ((a - b) + N) mod N" by (simp only: e1)
    also have "\<dots> = (a - b) mod N" by simp
    also have "\<dots> = a - b" using assms(1) 2 by simp
    finally have "(a + N - b) mod N = a - b" .
    moreover have "(b + N - a) mod N = b + N - a" using 2 assms by simp
    ultimately show ?thesis using 2 assms by simp
  qed
  then show "(b + N - a) mod N + (a + N - b) mod N = N" "(b + N - a) mod N > 0" by simp_all
qed

lemma mod_shift:
  fixes s t N :: nat
  assumes "N > 0"
  shows "(s + (t mod N + N - s mod N) mod N) mod N = t mod N"
proof -
  have lt: "s mod N < N" using assms by simp
  have le: "s mod N \<le> t mod N + N" using lt by linarith
  have "(s + (t mod N + N - s mod N) mod N) mod N = (s mod N + (t mod N + N - s mod N) mod N) mod N"
    by (simp add: mod_add_left_eq)
  also have "\<dots> = (s mod N + (t mod N + N - s mod N)) mod N"
    by (simp add: mod_add_right_eq)
  also have "s mod N + (t mod N + N - s mod N) = t mod N + N" using le by simp
  also have "(t mod N + N) mod N = t mod N" by simp
  finally show ?thesis .
qed

lemma circ_range_drop:
  assumes "xs \<noteq> []" "s mod length xs \<noteq> t mod length xs"
  shows "circ_range xs t s
    = drop ((t mod length xs + length xs - s mod length xs) mod length xs) (rotate s xs)
        @ [rotate s xs ! 0]"
proof -
  define N where "N = length xs"
  define m where "m = (t mod N + N - s mod N) mod N"
  define m' where "m' = (s mod N + N - t mod N) mod N"
  have N: "N > 0" using assms by (simp add: N_def)
  have sum: "m + m' = N" and mpos: "m > 0"
    using mod_diff_sum[of "s mod N" N "t mod N"] assms(2) N by (simp_all add: m_def m'_def N_def)
  have sm: "(s + m) mod N = t mod N"
    unfolding m_def using mod_shift[OF N, of s t] .
  have tm: "(t + m') mod N = s mod N"
    unfolding m'_def using mod_shift[OF N, of t s] .
  have len: "length (circ_range xs t s) = Suc m'"
    by (simp add: circ_range_def m'_def N_def)
  have nth: "circ_range xs t s ! j = xs ! ((t + j) mod N)" if "j < Suc m'" for j
    using that unfolding circ_range_def circ_nth_def m'_def N_def by (simp del: upt_Suc)
  have "circ_range xs t s = drop m (rotate s xs) @ [rotate s xs ! 0]"
  proof (rule nth_equalityI)
    show "length (circ_range xs t s) = length (drop m (rotate s xs) @ [rotate s xs ! 0])"
      using sum len by (simp add: N_def)
  next
    fix j assume "j < length (circ_range xs t s)"
    then have j: "j < Suc m'" using len by simp
    show "circ_range xs t s ! j = (drop m (rotate s xs) @ [rotate s xs ! 0]) ! j"
    proof (cases "j < m'")
      case True
      then have mj: "m + j < length xs" using sum by (simp add: N_def)
      have dl: "length (drop m (rotate s xs)) = m'" using sum by (simp add: N_def)
      have "(drop m (rotate s xs) @ [rotate s xs ! 0]) ! j = drop m (rotate s xs) ! j"
        using True dl by (simp add: nth_append)
      also have "\<dots> = rotate s xs ! (m + j)"
        using mj by simp
      also have "\<dots> = xs ! ((s + (m + j)) mod N)"
        using mj by (simp add: nth_rotate N_def)
      also have "(s + (m + j)) mod N = ((s + m) mod N + j) mod N"
        by (simp add: add.assoc[symmetric] mod_add_left_eq)
      also have "\<dots> = (t + j) mod N"
        using sm by (simp add: mod_add_left_eq)
      finally show ?thesis using nth[OF j] by simp
    next
      case False
      then have je: "j = m'" using j by linarith
      have dl: "length (drop m (rotate s xs)) = m'" using sum by (simp add: N_def)
      have "(drop m (rotate s xs) @ [rotate s xs ! 0]) ! j = rotate s xs ! 0"
        using je dl by (simp add: nth_append)
      also have "\<dots> = xs ! (s mod N)"
        using N by (simp add: nth_rotate N_def)
      finally show ?thesis using nth[OF j] je tm by simp
    qed
  qed
  then show ?thesis by (simp add: m_def N_def)
qed

lemma shoelace_circ_split:
  assumes "xs \<noteq> []" "s mod length xs \<noteq> t mod length xs"
  shows "shoelace (circ_range xs t s) + shoelace (circ_range xs s t) = shoelace xs"
proof -
  let ?N = "length xs"
  let ?m = "(t mod ?N + ?N - s mod ?N) mod ?N"
  have N: "?N > 0" using assms by simp
  have mpos: "?m > 0"
    using mod_diff_sum(2)[of "s mod ?N" ?N "t mod ?N"] assms(2) N by simp
  have mlt: "?m < length (rotate s xs)" using N by simp
  have "shoelace (take (Suc ?m) (rotate s xs)) + shoelace (drop ?m (rotate s xs) @ [rotate s xs ! 0])
      = shoelace (rotate s xs)"
    using shoelace_chord[OF mpos mlt] .
  then show ?thesis
    using circ_range_take[OF assms(1), of s t] circ_range_drop[OF assms] shoelace_rotate[of s xs]
    by simp
qed

lemma set_circ_range: "xs \<noteq> [] \<Longrightarrow> set (circ_range xs a b) \<subseteq> set xs"
  by (auto simp add: circ_range_def circ_nth_def)

lemma find_intersection_range:
  assumes "find_intersection intersect eps poly c = Some i"
  shows "(c + 1) mod length poly \<noteq> i mod length poly"
proof -
  define N where "N = length poly"
  from assms(1) obtain k where k: "find (edge_hit intersect eps poly c) [c + 2 ..< c + N] = Some k"
    and i: "i = (k + 1) mod N"
    by (auto simp add: find_intersection_def N_def split: option.splits)
  from k have "k \<in> set [c + 2 ..< c + N]"
    by (auto simp add: find_Some_iff)
  then have kr: "c + 2 \<le> k" "k < c + N" by auto
  define d where "d = k - c"
  have d: "k + 1 = (c + 1) + d" "0 < d" "d < N" using kr by (simp_all add: d_def)
  have "(c + 1) mod N \<noteq> ((c + 1) + d) mod N"
  proof
    assume "(c + 1) mod N = ((c + 1) + d) mod N"
    then have "((c + 1) + d) mod N = (c + 1) mod N" by simp
    then have "N dvd ((c + 1) + d - (c + 1))"
      using mod_eq_dvd_iff_nat[of "c + 1" "(c + 1) + d" N] by simp
    then have "N dvd d" by simp
    then show False using d(2,3) by (simp add: nat_dvd_not_less)
  qed
  then show ?thesis using i d(1) by (simp add: N_def)
qed


lemma mod_same_imp_eq:
  fixes m d N :: nat
  assumes "(a + m) mod N = (a + d) mod N" "m < N" "d < N"
  shows "m = d"
proof (rule ccontr)
  assume ne: "m \<noteq> d"
  then consider "m < d" | "d < m" by linarith
  then show False
  proof cases
    case 1
    have "N dvd (a + d) - (a + m)"
      using mod_eq_dvd_iff_nat[of "a + m" "a + d" N] assms(1) 1 by simp
    then have "N dvd d - m" by simp
    then show False using 1 assms(3) by (simp add: nat_dvd_not_less)
  next
    case 2
    have "N dvd (a + m) - (a + d)"
      using mod_eq_dvd_iff_nat[of "a + d" "a + m" N] assms(1) 2 by simp
    then have "N dvd m - d" by simp
    then show False using 2 assms(2) by (simp add: nat_dvd_not_less)
  qed
qed

lemma find_intersection_poly2_length:
  assumes "find_intersection intersect eps poly c = Some i" "poly \<noteq> []"
  shows "length (circ_range poly (c + 1) i) \<ge> 3"
proof -
  define N where "N = length poly"
  have N: "N > 0" using assms(2) by (simp add: N_def)
  from assms(1) obtain k where k: "find (edge_hit intersect eps poly c) [c + 2 ..< c + N] = Some k"
    and i: "i = (k + 1) mod N"
    by (auto simp add: find_intersection_def N_def split: option.splits)
  from k have "k \<in> set [c + 2 ..< c + N]"
    by (auto simp add: find_Some_iff)
  then have kr: "c + 2 \<le> k" "k < c + N" by auto
  define d where "d = k - c"
  have d: "k + 1 = (c + 1) + d" "2 \<le> d" "d < N" using kr by (simp_all add: d_def)
  define m where "m = (i mod N + N - (c + 1) mod N) mod N"
  have mN: "m < N" using N by (simp add: m_def)
  have "((c + 1) + m) mod N = i mod N"
    unfolding m_def using mod_shift[OF N, of "c + 1" i] .
  also have "\<dots> = ((c + 1) + d) mod N" using i d(1) by simp
  finally have "m = d" using mod_same_imp_eq[of "c + 1" m N d] mN d(3) by simp
  then show ?thesis using d(2) by (simp add: circ_range_def m_def N_def)
qed

lemma sum_shoelace_filter:
  "(\<Sum>q\<leftarrow>filter (\<lambda>newpoly. length newpoly \<ge> 3) qs. shoelace q) = (\<Sum>q\<leftarrow>qs. shoelace q)"
  by (induction qs) (simp_all add: shoelace_short)

lemma convex_split_induct:
  assumes "convex_split fuel angle_between intersect eps poly = Some polys"
  shows "(polys = [] \<longleftrightarrow> not_split angle_between intersect eps poly)
    \<and> (\<not> not_split angle_between intersect eps poly \<longrightarrow>
          (\<Sum>q\<leftarrow>polys. shoelace q) = shoelace poly \<and> (\<exists>q\<in>set polys. length q \<ge> 3))
    \<and> (\<forall>q\<in>set polys. set q \<subseteq> set poly \<and> not_split angle_between intersect eps q)"
  using assms
proof (induction fuel arbitrary: poly polys)
  case 0
  then show ?case by simp
next
  case (Suc fuel)
  show ?case
  proof (cases "not_split angle_between intersect eps poly")
    case True
    then have "convex_split (Suc fuel) angle_between intersect eps poly = Some []"
      by (auto simp add: not_split_def split: option.splits)
    with Suc.prems True show ?thesis by simp
  next
    case False
    then obtain c i where len: "length poly > 3"
      and c: "find_concave angle_between eps poly = Some c"
      and i: "find_intersection intersect eps poly c = Some i"
      by (auto simp add: not_split_def split: option.splits)
    have ne: "poly \<noteq> []" using len by auto
    define poly1 where "poly1 = circ_range poly i (c + 1)"
    define poly2 where "poly2 = circ_range poly (c + 1) i"
    from Suc.prems len c i obtain s1 s2 where
      s1: "convex_split fuel angle_between intersect eps poly1 = Some s1" and
      s2: "convex_split fuel angle_between intersect eps poly2 = Some s2" and
      polys: "polys = sub_result s1 poly1 @ sub_result s2 poly2"
      by (auto simp add: poly1_def poly2_def Let_def split: option.splits)
    note ih1 = Suc.IH[OF s1] and ih2 = Suc.IH[OF s2]
    have sub: "(\<Sum>q\<leftarrow>sub_result s p. shoelace q) = shoelace p
        \<and> (\<forall>q\<in>set (sub_result s p). set q \<subseteq> set p \<and> not_split angle_between intersect eps q)
        \<and> (length p \<ge> 3 \<longrightarrow> (\<exists>q\<in>set (sub_result s p). length q \<ge> 3))"
      if ih: "(s = [] \<longleftrightarrow> not_split angle_between intersect eps p)
        \<and> (\<not> not_split angle_between intersect eps p \<longrightarrow>
            (\<Sum>q\<leftarrow>s. shoelace q) = shoelace p \<and> (\<exists>q\<in>set s. length q \<ge> 3))
        \<and> (\<forall>q\<in>set s. set q \<subseteq> set p \<and> not_split angle_between intersect eps q)"
      for s p
    proof (cases "s = []")
      case True
      with ih show ?thesis by (simp add: sub_result_def)
    next
      case False
      with ih have "(\<Sum>q\<leftarrow>s. shoelace q) = shoelace p" "\<exists>q\<in>set s. length q \<ge> 3" by auto
      with False ih show ?thesis
        by (auto simp add: sub_result_def sum_shoelace_filter)
    qed
    have d: "(c + 1) mod length poly \<noteq> i mod length poly"
      using find_intersection_range[OF i] .
    have area: "shoelace poly1 + shoelace poly2 = shoelace poly"
      unfolding poly1_def poly2_def using shoelace_circ_split[OF ne d] .
    have l2: "length poly2 \<ge> 3"
      unfolding poly2_def using find_intersection_poly2_length[OF i ne] .
    have sets: "set poly1 \<subseteq> set poly" "set poly2 \<subseteq> set poly"
      unfolding poly1_def poly2_def using set_circ_range[OF ne] by auto
    note r1 = sub[OF ih1] and r2 = sub[OF ih2]
    have sum: "(\<Sum>q\<leftarrow>polys. shoelace q) = shoelace poly"
      using r1 r2 area by (simp add: polys)
    have big: "\<exists>q\<in>set polys. length q \<ge> 3"
      using r2 l2 by (auto simp add: polys)
    then have nonempty: "polys \<noteq> []" by auto
    have each: "\<forall>q\<in>set polys. set q \<subseteq> set poly \<and> not_split angle_between intersect eps q"
    proof
      fix q assume "q \<in> set polys"
      then consider "q \<in> set (sub_result s1 poly1)" | "q \<in> set (sub_result s2 poly2)"
        by (auto simp add: polys)
      then show "set q \<subseteq> set poly \<and> not_split angle_between intersect eps q"
      proof cases
        case 1
        with r1 have "set q \<subseteq> set poly1" "not_split angle_between intersect eps q" by auto
        with sets(1) show ?thesis by blast
      next
        case 2
        with r2 have "set q \<subseteq> set poly2" "not_split angle_between intersect eps q" by auto
        with sets(2) show ?thesis by blast
      qed
    qed
    show ?thesis using False sum big nonempty each by simp
  qed
qed


subsection \<open>The recursion ends\<close>

lemma cross2_neg_swap: "cross2 (vec_sub a b) d = - cross2 (vec_sub b a) d"
  by (simp add: cross2_def vec_sub_def algebra_simps)

lemma cross2_swap: "cross2 a b = - cross2 b a"
  by (simp add: cross2_def)

lemma intersect_closing_edge:
  assumes "eps \<ge> 0"
  shows "case intersect_line_line vert1 dir1 vert3 (vec_sub vert1 vert3) eps of
           (pt1, pt2, valid, distance, param1, param2) \<Rightarrow>
             \<not> (valid \<and> param2 \<ge> 0 \<and> param2 < 1 \<and> equals_vec pt1 pt2 eps)"
proof -
  define det where "det = cross2 dir1 (vec_sub vert1 vert3)"
  have p2: "cross2 (vec_sub vert3 vert1) dir1 = det"
    unfolding det_def using cross2_neg_swap[of vert3 vert1 dir1] cross2_swap[of dir1 "vec_sub vert1 vert3"]
    by simp
  show ?thesis
  proof (cases "\<bar>det\<bar> \<le> eps")
    case True
    then show ?thesis
      unfolding intersect_line_line_def Let_def det_def[symmetric] by simp
  next
    case False
    then have "det \<noteq> 0" using assms by auto
    then have "cross2 (vec_sub vert3 vert1) dir1 / det = 1" using p2 by simp
    then show ?thesis
      unfolding intersect_line_line_def Let_def det_def[symmetric] using False by simp
  qed
qed

lemma edge_hit_last:
  assumes "c < length poly" "eps \<ge> 0"
  shows "\<not> edge_hit intersect_line_line eps poly c (c + length poly - 1)"
proof -
  have "c + length poly - 1 + 1 = c + length poly" using assms(1) by simp
  then have v4: "circ_nth poly (c + length poly - 1 + 1) = poly ! c"
    using assms(1) by (simp add: circ_nth_def)
  show ?thesis
    unfolding edge_hit_def Let_def v4
    using intersect_closing_edge[OF assms(2), of "poly ! c"
        "vec_sub (poly ! ((c + 1) mod length poly)) (poly ! c)" "circ_nth poly (c + length poly - 1)"]
    by (auto split: prod.splits)
qed

lemma find_concave_less: "find_concave angle_between eps poly = Some c \<Longrightarrow> c < length poly"
  by (auto simp add: find_concave_def find_Some_iff)

lemma circ_range_lengths:
  assumes "poly \<noteq> []" "s mod length poly \<noteq> t mod length poly"
  shows "length (circ_range poly s t) + length (circ_range poly t s) = length poly + 2"
  using mod_diff_sum(1)[of "s mod length poly" "length poly" "t mod length poly"] assms
  by (simp add: circ_range_def)

lemma find_intersection_parts_shorter:
  assumes i: "find_intersection intersect_line_line eps poly c = Some i"
    and c: "c < length poly" and eps: "eps \<ge> 0"
  shows "length (circ_range poly i (c + 1)) < length poly
       \<and> length (circ_range poly (c + 1) i) < length poly"
proof -
  define N where "N = length poly"
  have N: "N > 0" using c by (cases poly) (simp_all add: N_def)
  have ne: "poly \<noteq> []" using c by auto
  from i obtain k where k: "find (edge_hit intersect_line_line eps poly c) [c + 2 ..< c + N] = Some k"
    and ik: "i = (k + 1) mod N"
    by (auto simp add: find_intersection_def N_def split: option.splits)
  from k have kin: "k \<in> set [c + 2 ..< c + N]" and hit: "edge_hit intersect_line_line eps poly c k"
    by (auto simp add: find_Some_iff)
  have "k \<noteq> c + N - 1"
    using hit edge_hit_last[OF c eps] by (auto simp add: N_def)
  with kin have kr: "c + 2 \<le> k" "k + 1 < c + N" by auto
  define d where "d = k - c"
  have d: "k + 1 = (c + 1) + d" "2 \<le> d" "d + 1 < N" using kr by (simp_all add: d_def)
  define m where "m = (i mod N + N - (c + 1) mod N) mod N"
  have mN: "m < N" using N by (simp add: m_def)
  have "((c + 1) + m) mod N = i mod N"
    unfolding m_def using mod_shift[OF N, of "c + 1" i] .
  also have "\<dots> = ((c + 1) + d) mod N" using ik d(1) by simp
  finally have md: "m = d" using mod_same_imp_eq[of "c + 1" m N d] mN d(3) by simp
  have l2: "length (circ_range poly (c + 1) i) = d + 1"
    using md by (simp add: circ_range_def m_def N_def)
  have "length (circ_range poly (c + 1) i) + length (circ_range poly i (c + 1)) = N + 2"
    using circ_range_lengths[OF ne find_intersection_range[OF i]] by (simp add: N_def)
  then have l1: "length (circ_range poly i (c + 1)) = N + 1 - d" using l2 by simp
  show ?thesis using l1 l2 d by (simp add: N_def)
qed

lemma convex_split_returns:
  assumes "eps \<ge> 0" "length poly < fuel"
  shows "convex_split fuel angle_between intersect_line_line eps poly \<noteq> None"
  using assms(2)
proof (induction fuel arbitrary: poly)
  case 0
  then show ?case by simp
next
  case (Suc fuel)
  show ?case
  proof (cases "not_split angle_between intersect_line_line eps poly")
    case True
    then have "convex_split (Suc fuel) angle_between intersect_line_line eps poly = Some []"
      by (auto simp add: not_split_def split: option.splits)
    then show ?thesis by simp
  next
    case False
    then obtain c i where len: "length poly > 3"
      and c: "find_concave angle_between eps poly = Some c"
      and i: "find_intersection intersect_line_line eps poly c = Some i"
      by (auto simp add: not_split_def split: option.splits)
    have sh: "length (circ_range poly i (c + 1)) < length poly"
        "length (circ_range poly (c + 1) i) < length poly"
      using find_intersection_parts_shorter[OF i find_concave_less[OF c] assms(1)] by simp_all
    have "convex_split fuel angle_between intersect_line_line eps (circ_range poly i (c + 1)) \<noteq> None"
      using Suc.IH[of "circ_range poly i (c + 1)"] sh(1) Suc.prems by simp
    moreover have "convex_split fuel angle_between intersect_line_line eps (circ_range poly (c + 1) i) \<noteq> None"
      using Suc.IH[of "circ_range poly (c + 1) i"] sh(2) Suc.prems by simp
    ultimately show ?thesis
      using len c i by (auto simp add: Let_def)
  qed
qed


subsection \<open>Polygons without a reflex vertex\<close>

lemma concave_test_pi_pos:
  assumes "eps < 1" "pi - d = a * pi" "mod_pos a 2 \<ge> 3 / 2"
  shows "mod_pos (pi - d) (2 * pi) > pi + eps"
proof -
  have e: "mod_pos (pi - d) (2 * pi) = mod_pos a 2 * pi"
    using assms(2) mod_pos_pi by simp
  have "3 / 2 * pi \<le> mod_pos a 2 * pi"
    using assms(3) by (intro mult_right_mono) auto
  moreover have "pi + eps < pi + pi / 2" using pi_ge_two assms(1) by simp
  moreover have "pi + pi / 2 = 3 / 2 * pi" by simp
  ultimately have "pi + eps < mod_pos a 2 * pi" by linarith
  then show ?thesis using e by simp
qed

lemma find_concave_SomeI:
  assumes "c < length poly" "concave_corner angle_between eps poly c"
    "\<forall>j<c. \<not> concave_corner angle_between eps poly j"
  shows "find_concave angle_between eps poly = Some c"
  unfolding find_concave_def find_Some_iff
  using assms by (intro exI[of _ c]) simp

lemma find_concave_NoneI:
  assumes "\<forall>j<length poly. \<not> concave_corner angle_between eps poly j"
  shows "find_concave angle_between eps poly = None"
  using assms by (simp add: find_concave_def find_None_iff)

lemmas angle_eval =
  line_angle_between_def line_angle_def atan2_def arctan_one arctan_minus mod_pos_def fmod_def

lemma all_less_2: "(\<forall>i<2::nat. P i) \<longleftrightarrow> P 0 \<and> P 1"
  by (auto simp add: less_Suc_eq numeral_2_eq_2)

lemma all_less_6: "(\<forall>i<6::nat. P i) \<longleftrightarrow> P 0 \<and> P 1 \<and> P 2 \<and> P 3 \<and> P 4 \<and> P 5"
proof -
  have "\<And>i::nat. i < 6 \<longleftrightarrow> i = 0 \<or> i = 1 \<or> i = 2 \<or> i = 3 \<or> i = 4 \<or> i = 5" by auto
  then show ?thesis by metis
qed

lemma l_shape_corner0: "\<not> concave_corner line_angle_between (1 / 1000000) l_shape 0"
  unfolding concave_corner_def Let_def
  by (rule concave_test_pi[where a="1/2"]) (simp_all add: l_shape_def angle_eval)

lemma l_shape_corner1: "\<not> concave_corner line_angle_between (1 / 1000000) l_shape 1"
  unfolding concave_corner_def Let_def
  by (rule concave_test_pi[where a="1/2"]) (simp_all add: l_shape_def angle_eval)

lemma l_shape_corner2: "concave_corner line_angle_between (1 / 1000000) l_shape 2"
  unfolding concave_corner_def Let_def
  by (rule concave_test_pi_pos[where a="3/2"]) (simp_all add: l_shape_def angle_eval)

lemma l_shape_concave: "find_concave line_angle_between (1 / 1000000) l_shape = Some 2"
proof (rule find_concave_SomeI)
  show "2 < length l_shape" by (simp add: l_shape_def)
  show "concave_corner line_angle_between (1 / 1000000) l_shape 2" by (rule l_shape_corner2)
  show "\<forall>j<2. \<not> concave_corner line_angle_between (1 / 1000000) l_shape j"
    unfolding all_less_2 using l_shape_corner0 l_shape_corner1 by simp
qed

lemma l_shape_intersection: "find_intersection intersect_line_line (1 / 1000000) l_shape 2 = Some 0"
  by (simp add: find_intersection_def l_shape_def upt_conv_Cons edge_hit_def Let_def circ_nth_def
        intersect_line_line_def cross2_def vec_sub_def vec_add_def vec_mul_def equals_vec_def equals_real_def)


lemma all_less_4_Suc:
  "(\<forall>i<Suc (Suc (Suc (Suc 0))). P i) \<longleftrightarrow> P 0 \<and> P 1 \<and> P 2 \<and> P 3"
  using all_less_4[of P] by (simp add: numeral_eq_Suc)

lemma find_concave_None4:
  assumes "length poly = 4"
    "\<not> concave_corner angle_between eps poly 0" "\<not> concave_corner angle_between eps poly 1"
    "\<not> concave_corner angle_between eps poly 2" "\<not> concave_corner angle_between eps poly 3"
  shows "find_concave angle_between eps poly = None"
  by (rule find_concave_NoneI) (simp add: assms assms(3)[unfolded One_nat_def] all_less_4)

lemma l_shape_part1:
  "find_concave line_angle_between (1 / 1000000) [(0, 0), (2, 0), (2, 1), (1, 1)] = None"
proof (rule find_concave_None4)
  show "length [(0, 0), (2, 0), (2, 1), (1, 1)] = 4" by simp
  show "\<not> concave_corner line_angle_between (1 / 1000000) [(0, 0), (2, 0), (2, 1), (1, 1)] 0"
    unfolding concave_corner_def Let_def
    by (rule concave_test_pi[where a="1/2"]) (simp_all add: angle_eval)
  show "\<not> concave_corner line_angle_between (1 / 1000000) [(0, 0), (2, 0), (2, 1), (1, 1)] 1"
    unfolding concave_corner_def Let_def
    by (rule concave_test_pi[where a="1/2"]) (simp_all add: angle_eval)
  show "\<not> concave_corner line_angle_between (1 / 1000000) [(0, 0), (2, 0), (2, 1), (1, 1)] 2"
    unfolding concave_corner_def Let_def
    by (rule concave_test_pi[where a="11/4"]) (simp_all add: angle_eval)
  show "\<not> concave_corner line_angle_between (1 / 1000000) [(0, 0), (2, 0), (2, 1), (1, 1)] 3"
    unfolding concave_corner_def Let_def
    by (rule concave_test_pi[where a="1/4"]) (simp_all add: angle_eval)
qed

lemma l_shape_part2:
  "find_concave line_angle_between (1 / 1000000) [(1, 1), (1, 2), (0, 2), (0, 0)] = None"
proof (rule find_concave_None4)
  show "length [(1, 1), (1, 2), (0, 2), (0, 0)] = 4" by simp
  show "\<not> concave_corner line_angle_between (1 / 1000000) [(1, 1), (1, 2), (0, 2), (0, 0)] 0"
    unfolding concave_corner_def Let_def
    by (rule concave_test_pi[where a="1/2"]) (simp_all add: angle_eval)
  show "\<not> concave_corner line_angle_between (1 / 1000000) [(1, 1), (1, 2), (0, 2), (0, 0)] 1"
    unfolding concave_corner_def Let_def
    by (rule concave_test_pi[where a="5/2"]) (simp_all add: angle_eval)
  show "\<not> concave_corner line_angle_between (1 / 1000000) [(1, 1), (1, 2), (0, 2), (0, 0)] 2"
    unfolding concave_corner_def Let_def
    by (rule concave_test_pi[where a="1/4"]) (simp_all add: angle_eval)
  show "\<not> concave_corner line_angle_between (1 / 1000000) [(1, 1), (1, 2), (0, 2), (0, 0)] 3"
    unfolding concave_corner_def Let_def
    by (rule concave_test_pi[where a="3/4"]) (simp_all add: angle_eval)
qed

lemma l_shape_ranges:
  "circ_range l_shape 0 3 = [(0, 0), (2, 0), (2, 1), (1, 1)]"
  "circ_range l_shape 3 0 = [(1, 1), (1, 2), (0, 2), (0, 0)]"
  by (simp_all add: circ_range_def circ_nth_def l_shape_def upt_conv_Cons)

lemma l_shape_split:
  "convex_split (Suc (Suc 0)) line_angle_between intersect_line_line (1 / 1000000) l_shape
    = Some [[(0, 0), (2, 0), (2, 1), (1, 1)], [(1, 1), (1, 2), (0, 2), (0, 0)]]"
proof -
  have len: "\<not> length l_shape \<le> 3" by (simp add: l_shape_def)
  show ?thesis
    by (simp add: len l_shape_concave l_shape_intersection l_shape_ranges l_shape_part1 l_shape_part2
          sub_result_def Let_def)
qed


lemma find_concave_NoneD:
  assumes "find_concave angle_between eps poly = None" "idx1 < length poly"
  shows "\<not> concave_corner angle_between eps poly idx1"
  using assms unfolding find_concave_def find_None_iff by simp

lemma unit_square_concave:
  "find_concave line_angle_between (1 / 1000000) unit_square = None"
  by (rule find_concave_NoneI) (simp add: unit_square_def[THEN arg_cong, of length] square_corner)

text \<open>
  Claim C4, as the code has it. For a polygon without a reflex corner \<open>convex_split\<close>
  returns the empty list, whatever the depth allowed. The empty result is how a caller
  learns that the polygon is convex already: when such a polygon is one of the two parts
  of a cut, the call that made the cut returns the part itself, unchanged.
\<close>

theorem convex_polygon_not_split:
  assumes "\<forall>idx1 < length poly. \<not> concave_corner angle_between eps poly idx1"
  shows "convex_split (Suc fuel) angle_between intersect eps poly = Some []
    \<and> (length parent > 3
         \<and> find_concave angle_between eps parent = Some idx_concave
         \<and> find_intersection intersect eps parent idx_concave = Some idx_intersection
         \<and> (poly = circ_range parent idx_intersection (idx_concave + 1)
              \<or> poly = circ_range parent (idx_concave + 1) idx_intersection)
         \<and> convex_split (Suc (Suc fuel)) angle_between intersect eps parent = Some split
       \<longrightarrow> poly \<in> set split)"
proof -
  have "find_concave angle_between eps poly = None"
    using assms by (simp add: find_concave_def find_None_iff)
  then have empty: "convex_split (Suc fuel) angle_between intersect eps poly = Some []"
    by simp
  have "poly \<in> set split"
    if p: "length parent > 3" "find_concave angle_between eps parent = Some idx_concave"
      "find_intersection intersect eps parent idx_concave = Some idx_intersection"
      "poly = circ_range parent idx_intersection (idx_concave + 1)
         \<or> poly = circ_range parent (idx_concave + 1) idx_intersection"
      "convex_split (Suc (Suc fuel)) angle_between intersect eps parent = Some split"
  proof -
    define poly1 where "poly1 = circ_range parent idx_intersection (idx_concave + 1)"
    define poly2 where "poly2 = circ_range parent (idx_concave + 1) idx_intersection"
    from p(1,2,3,5) obtain s1 s2 where
      s1: "convex_split (Suc fuel) angle_between intersect eps poly1 = Some s1" and
      s2: "convex_split (Suc fuel) angle_between intersect eps poly2 = Some s2" and
      split: "split = sub_result s1 poly1 @ sub_result s2 poly2"
      unfolding convex_split.simps(2)[of "Suc fuel"] poly1_def poly2_def
      by (auto simp add: Let_def split: option.splits)
    from p(4) consider "poly = poly1" | "poly = poly2" by (auto simp add: poly1_def poly2_def)
    then show ?thesis
    proof cases
      case 1
      then have "s1 = []" using s1 empty by simp
      then show ?thesis using 1 split by (simp add: sub_result_def)
    next
      case 2
      then have "s2 = []" using s2 empty by simp
      then show ?thesis using 2 split by (simp add: sub_result_def)
    qed
  qed
  with empty show ?thesis by blast
qed

theorem convex_polygon_not_split_witness:
  "\<not> concave_corner line_angle_between (1 / 1000000) [(0, 0), (2, 0), (2, 1), (1, 1)] 0
   \<and> \<not> concave_corner line_angle_between (1 / 1000000) [(0, 0), (2, 0), (2, 1), (1, 1)] 1
   \<and> \<not> concave_corner line_angle_between (1 / 1000000) [(0, 0), (2, 0), (2, 1), (1, 1)] 2
   \<and> \<not> concave_corner line_angle_between (1 / 1000000) [(0, 0), (2, 0), (2, 1), (1, 1)] 3
   \<and> convex_split (Suc 0) line_angle_between intersect_line_line (1 / 1000000)
        [(0, 0), (2, 0), (2, 1), (1, 1)] = Some []
   \<and> length l_shape > 3
   \<and> find_concave line_angle_between (1 / 1000000) l_shape = Some 2
   \<and> find_intersection intersect_line_line (1 / 1000000) l_shape 2 = Some 0
   \<and> [(0, 0), (2, 0), (2, 1), (1, 1)] = circ_range l_shape 0 (2 + 1)
   \<and> convex_split (Suc (Suc 0)) line_angle_between intersect_line_line (1 / 1000000) l_shape
       = Some [[(0, 0), (2, 0), (2, 1), (1, 1)], [(1, 1), (1, 2), (0, 2), (0, 0)]]
   \<and> [(0, 0), (2, 0), (2, 1), (1, 1)]
       \<in> set [[(0, 0), (2, 0), (2, 1), (1, 1)], [(1, 1), (1, 2), (0, 2), (0, 0)]]"
proof -
  have none: "find_concave line_angle_between (1 / 1000000) [(0, 0), (2, 0), (2, 1), (1, 1)] = None"
    by (rule l_shape_part1)
  then have h: "\<forall>idx1 < length [(0, 0), (2, 0), (2, 1), (1, 1) :: t_vec].
      \<not> concave_corner line_angle_between (1 / 1000000) [(0, 0), (2, 0), (2, 1), (1, 1)] idx1"
    using find_concave_NoneD[OF none] by blast
  have corners:
    "\<not> concave_corner line_angle_between (1 / 1000000) [(0, 0), (2, 0), (2, 1), (1, 1)] 0"
    "\<not> concave_corner line_angle_between (1 / 1000000) [(0, 0), (2, 0), (2, 1), (1, 1)] 1"
    "\<not> concave_corner line_angle_between (1 / 1000000) [(0, 0), (2, 0), (2, 1), (1, 1)] 2"
    "\<not> concave_corner line_angle_between (1 / 1000000) [(0, 0), (2, 0), (2, 1), (1, 1)] 3"
    using find_concave_NoneD[OF none] by simp_all
  have len: "length l_shape > 3" by (simp add: l_shape_def)
  show ?thesis
    using convex_polygon_not_split [OF h, of 0 intersect_line_line l_shape 2 0
        "[[(0, 0), (2, 0), (2, 1), (1, 1)], [(1, 1), (1, 2), (0, 2), (0, 0)]]"]
      corners len l_shape_concave l_shape_intersection l_shape_ranges l_shape_split
    by simp
qed

text \<open>
  Claim C4 as the spec states it fails for the unit square: none of its corners is
  reflex, and the result is the empty list, not the list that holds the square.
\<close>

theorem convex_split_square_counterexample:
  "\<not> concave_corner line_angle_between (1 / 1000000) unit_square 0
   \<and> \<not> concave_corner line_angle_between (1 / 1000000) unit_square 1
   \<and> \<not> concave_corner line_angle_between (1 / 1000000) unit_square 2
   \<and> \<not> concave_corner line_angle_between (1 / 1000000) unit_square 3
   \<and> convex_split (Suc 0) line_angle_between intersect_line_line (1 / 1000000) unit_square = Some []
   \<and> convex_split (Suc 0) line_angle_between intersect_line_line (1 / 1000000) unit_square
       \<noteq> Some [unit_square]"
  using square_corner[of 0] square_corner[of 1] square_corner[of 2] square_corner[of 3]
    unit_square_concave
  by simp

subsection \<open>A polygon with two reflex vertices\<close>

lemma concave_test_quarter:
  assumes "eps < 1 / 2" "pi - d = a * pi" "mod_pos a 2 \<ge> 5 / 4"
  shows "mod_pos (pi - d) (2 * pi) > pi + eps"
proof -
  have e: "mod_pos (pi - d) (2 * pi) = mod_pos a 2 * pi"
    using assms(2) mod_pos_pi by simp
  have "5 / 4 * pi \<le> mod_pos a 2 * pi"
    using assms(3) by (intro mult_right_mono) auto
  moreover have "pi + eps < pi + pi / 4" using pi_ge_two assms(1) by simp
  moreover have "pi + pi / 4 = 5 / 4 * pi" by simp
  ultimately have "pi + eps < mod_pos a 2 * pi" by linarith
  then show ?thesis using e by simp
qed

lemma notch7_corner0: "concave_corner line_angle_between (1 / 1000000) notch7 0"
  unfolding concave_corner_def Let_def
  by (rule concave_test_quarter[where a="5/4"]) (simp_all add: notch7_def angle_eval)

lemma notch7_concave: "find_concave line_angle_between (1 / 1000000) notch7 = Some 0"
  by (rule find_concave_SomeI) (simp_all add: notch7_corner0, simp add: notch7_def)

lemma notch7_intersection: "find_intersection intersect_line_line (1 / 1000000) notch7 0 = Some 4"
  by (simp add: find_intersection_def notch7_def upt_conv_Cons edge_hit_def Let_def circ_nth_def
        intersect_line_line_def cross2_def vec_sub_def vec_add_def vec_mul_def equals_vec_def equals_real_def)

lemma notch7_ranges:
  "circ_range notch7 4 (Suc 0) = notch7_part"
  "circ_range notch7 (Suc 0) 4 = [(4, 0), (5, - 1), (9, - 1), (6, 2)]"
  by (simp_all add: circ_range_def circ_nth_def notch7_def notch7_part_def upt_conv_Cons)

lemma ceiling_eighth: "\<lceil>- (1 / 8 :: real)\<rceil> = 0"
  by (simp add: ceiling_eq_iff)

lemma notch7_part_corner0: "concave_corner line_angle_between (1 / 1000000) notch7_part 0"
  unfolding concave_corner_def Let_def
  by (rule concave_test_pi_pos[where a="- 1/4"])
    (simp_all add: notch7_part_def angle_eval ceiling_eighth)

lemma notch7_part_concave: "find_concave line_angle_between (1 / 1000000) notch7_part = Some 0"
  by (rule find_concave_SomeI) (simp_all add: notch7_part_corner0, simp add: notch7_part_def)

lemma notch7_part_intersection:
  "find_intersection intersect_line_line (1 / 1000000) notch7_part 0 = None"
  by (simp add: find_intersection_def notch7_part_def upt_conv_Cons edge_hit_def Let_def circ_nth_def
        intersect_line_line_def cross2_def vec_sub_def vec_add_def vec_mul_def equals_vec_def equals_real_def)

lemma notch7_rest:
  "find_concave line_angle_between (1 / 1000000) [(4, 0), (5, - 1), (9, - 1), (6, 2)] = None"
proof (rule find_concave_None4)
  show "length [(4, 0), (5, - 1), (9, - 1), (6, 2)] = 4" by simp
  show "\<not> concave_corner line_angle_between (1 / 1000000) [(4, 0), (5, - 1), (9, - 1), (6, 2)] 0"
    unfolding concave_corner_def Let_def
    by (rule concave_test_pi[where a="3/4"]) (simp_all add: angle_eval)
  show "\<not> concave_corner line_angle_between (1 / 1000000) [(4, 0), (5, - 1), (9, - 1), (6, 2)] 1"
    unfolding concave_corner_def Let_def
    by (rule concave_test_pi[where a="1/4"]) (simp_all add: angle_eval)
  show "\<not> concave_corner line_angle_between (1 / 1000000) [(4, 0), (5, - 1), (9, - 1), (6, 2)] 2"
    unfolding concave_corner_def Let_def
    by (rule concave_test_pi[where a="5/2"]) (simp_all add: angle_eval)
  show "\<not> concave_corner line_angle_between (1 / 1000000) [(4, 0), (5, - 1), (9, - 1), (6, 2)] 3"
    unfolding concave_corner_def Let_def
    by (rule concave_test_pi[where a="1/2"]) (simp_all add: angle_eval)
qed

lemma notch7_split:
  "convex_split (Suc (Suc 0)) line_angle_between intersect_line_line (1 / 1000000) notch7
    = Some [notch7_part, [(4, 0), (5, - 1), (9, - 1), (6, 2)]]"
proof -
  have len: "\<not> length notch7 \<le> 3" "\<not> length notch7_part \<le> 3"
    by (simp_all add: notch7_def notch7_part_def)
  show ?thesis
    by (simp add: len notch7_concave notch7_intersection notch7_ranges notch7_rest
          notch7_part_concave notch7_part_intersection sub_result_def Let_def)
qed

lemma notch7_crossing:
  "intersect_line_line (4, 0) (vec_sub (6, 2) (4, 0)) (6, 0) (vec_sub (3, 3) (6, 0)) (1 / 1000000)
     = ((5, 1), (5, 1), True, 0, 1 / 2, 1 / 3)"
  by (simp add: intersect_line_line_def cross2_def vec_sub_def vec_add_def vec_mul_def Let_def)

lemma notch7_simple: "simple_polygon notch7"
  by (simp add: simple_polygon_def notch7_def upt_conv_Cons segments_meet_def folds_back_def
      cross2_def dot2_def vec_sub_def Let_def)

lemma notch7_part_not_simple: "\<not> simple_polygon notch7_part"
  by (simp add: simple_polygon_def notch7_part_def upt_conv_Cons segments_meet_def folds_back_def
      cross2_def dot2_def vec_sub_def Let_def)

text \<open>
  Claim C3. The spec promises simple convex parts for every simple input. The polygon
  \<open>notch7\<close> is simple. The line through its first concave edge, from (0, 0) to (4, 0),
  meets the edge from (9, - 1) to (6, 2) in the point (8, 0), but the cut is made to the
  end vertex (6, 2) of that edge. The part cut off on that side still has the reflex
  vertex (6, 0), and the chord from (4, 0) to (6, 2) that closes it crosses its edge from
  (6, 0) to (3, 3) in the point (5, 1). No edge of the part is met by the line through
  its concave edge, so the recursive call returns nothing and the part is put into the
  result as if it were convex.
\<close>

theorem notched_polygon_split:
  "simple_polygon notch7
   \<and> convex_split (Suc (Suc 0)) line_angle_between intersect_line_line (1 / 1000000) notch7
       = Some [notch7_part, [(4, 0), (5, - 1), (9, - 1), (6, 2)]]
   \<and> concave_corner line_angle_between (1 / 1000000) notch7_part 0
   \<and> \<not> simple_polygon notch7_part
   \<and> intersect_line_line (4, 0) (vec_sub (6, 2) (4, 0)) (6, 0) (vec_sub (3, 3) (6, 0)) (1 / 1000000)
       = ((5, 1), (5, 1), True, 0, 1 / 2, 1 / 3)"
  using notch7_simple notch7_split notch7_part_corner0 notch7_part_not_simple notch7_crossing
  by simp


section \<open>The staircase loop of the contour simplification\<close>


lemma norm_vec_gt_iff: "0 \<le> d \<Longrightarrow> norm_vec (x, y) > d \<longleftrightarrow> x * x + y * y > d * d"
proof -
  assume d: "0 \<le> d"
  have "d = sqrt (d * d)" using d by simp
  then have "sqrt (x * x + y * y) > d \<longleftrightarrow> sqrt (x * x + y * y) > sqrt (d * d)" by simp
  also have "\<dots> \<longleftrightarrow> x * x + y * y > d * d" by (rule real_sqrt_less_iff)
  finally show ?thesis by (simp add: norm_vec_def power2_eq_square)
qed

lemma mod_pos_down: "mod_pos (- (pi / 2)) (2 * pi) = 3 * pi / 2"
proof -
  have "mod_pos ((- (1 / 2)) * pi) (2 * pi) = mod_pos (- (1 / 2)) 2 * pi"
    by (rule mod_pos_pi)
  moreover have "\<lceil>- (1 / 4) :: real\<rceil> = 0"
    by (simp add: ceiling_eq_iff)
  then have "mod_pos (- (1 / 2)) 2 = 3 / 2"
    by (simp add: mod_pos_def fmod_def)
  ultimately show ?thesis by simp
qed

lemma not_horizontal_or_vertical_down:
  assumes "0 \<le> eps" "eps < pi / 2"
  shows "\<not> horizontal_or_vertical (3 * pi / 2) eps"
proof -
  have "\<bar>3 * pi / 2 - 0\<bar> > eps" "\<bar>3 * pi / 2 - pi\<bar> > eps" "\<bar>3 * pi / 2 - pi / 2\<bar> > eps"
    "\<bar>3 * pi / 2 - pi / (3 / 2)\<bar> > eps"
    using assms pi_gt_zero by (simp_all add: abs_if) 
  then show ?thesis
    by (simp add: horizontal_or_vertical_def equals_real_def not_le)
qed

lemma line_angle_down: "fst v3 = fst v2 \<Longrightarrow> snd v3 < snd v2 \<Longrightarrow> line_angle v2 v3 = - (pi / 2)"
  by (simp add: line_angle_def atan2_def)

text \<open>
  Whatever the contour: where the line from the second to the third vertex goes straight
  down, the first loop leaves the contour as it is, for every tolerance below a right
  angle. The angle of that line is \<open>3 * pi / 2\<close>, and the fourth value it is compared with
  is \<open>pi / (3 / 2)\<close>.
\<close>

lemma staircase_step_down:
  assumes "contour \<noteq> []"
    and "fst (circ_nth contour (curidx + 2)) = fst (circ_nth contour (curidx + 1))"
    and "snd (circ_nth contour (curidx + 2)) < snd (circ_nth contour (curidx + 1))"
    and "0 \<le> eps" "eps < pi / 2"
  shows "staircase_step contour curidx min_dist eps = Some contour"
  using assms
  by (simp add: staircase_step_def Let_def line_angle_down mod_pos_down
      not_horizontal_or_vertical_down)

lemma staircase_step_far:
  assumes "contour \<noteq> []" 
    and "norm_vec (vec_sub (circ_nth contour (curidx + 3)) (circ_nth contour curidx)) > min_dist"
  shows "staircase_step contour curidx min_dist eps = Some contour"
  using assms by (simp add: staircase_step_def Let_def)


lemma mod_pos_id: 
  assumes "0 \<le> x" "x < y"
  shows "mod_pos x y = x"
proof -
  have "0 \<le> x / y" "x / y < 1" using assms by simp_all
  then have "\<lfloor>x / y\<rfloor> = 0" by (simp add: floor_eq_iff)
  then show ?thesis using assms \<open>0 \<le> x / y\<close> by (simp add: mod_pos_def fmod_def)
qed

lemma eps_bounds: "0 \<le> pi / 18000" "pi / 18000 < pi / 2"
  using pi_gt_zero by simp_all

lemma remove_staircases_unchanged:
  assumes "\<And>k. curidx \<le> k \<Longrightarrow> k \<le> length contour
             \<Longrightarrow> staircase_step contour k min_dist eps = Some contour"
    and "length contour + 1 \<le> curidx + fuel"
  shows "remove_staircases fuel contour curidx min_dist eps = Some contour"
  using assms
proof (induction fuel arbitrary: curidx)
  case 0
  then show ?case by simp
next
  case (Suc fuel)
  show ?case
  proof (cases "curidx < length contour + 1")
    case True
    then have "staircase_step contour curidx min_dist eps = Some contour"
      using Suc.prems(1) [of curidx] by simp
    moreover have "remove_staircases fuel contour (curidx + 1) min_dist eps = Some contour"
      using Suc.prems by (intro Suc.IH) simp_all
    ultimately show ?thesis using True by simp
  next
    case False
    then show ?thesis by simp
  qed
qed

lemma all_le_7:
  "(\<forall>k \<le> (7 :: nat). P k) \<longleftrightarrow> P 0 \<and> P 1 \<and> P 2 \<and> P 3 \<and> P 4 \<and> P 5 \<and> P 6 \<and> P 7"
proof -
  have "{k. k \<le> (7 :: nat)} = {0, 1, 2, 3, 4, 5, 6, 7}" by auto
  then have "(\<forall>k \<le> (7 :: nat). P k) \<longleftrightarrow> (\<forall>k \<in> {0, 1, 2, 3, 4, 5, 6, 7}. P k)" by blast
  then show ?thesis by simp
qed

lemma down_steps:
  "\<forall>k \<le> 7. staircase_step step_down_contour k 3 (pi / 18000) = Some step_down_contour"
  unfolding all_le_7
  apply (intro conjI)
         apply (rule staircase_step_down; simp add: step_down_contour_def circ_nth_def eps_bounds)
        apply (rule staircase_step_far; simp add: step_down_contour_def circ_nth_def vec_sub_def norm_vec_gt_iff)
       apply (rule staircase_step_far; simp add: step_down_contour_def circ_nth_def vec_sub_def norm_vec_gt_iff)
      apply (rule staircase_step_far; simp add: step_down_contour_def circ_nth_def vec_sub_def norm_vec_gt_iff)
     apply (rule staircase_step_far; simp add: step_down_contour_def circ_nth_def vec_sub_def norm_vec_gt_iff)
    apply (rule staircase_step_far; simp add: step_down_contour_def circ_nth_def vec_sub_def norm_vec_gt_iff)
   apply (rule staircase_step_far; simp add: step_down_contour_def circ_nth_def vec_sub_def norm_vec_gt_iff)
  apply (rule staircase_step_down; simp add: step_down_contour_def circ_nth_def eps_bounds)
  done

lemma down_length: "length step_down_contour = 7"
  by (simp add: step_down_contour_def)

lemma down_loop: "remove_staircases 8 step_down_contour 0 3 (pi / 18000) = Some step_down_contour"
  by (rule remove_staircases_unchanged) (simp_all add: down_steps down_length)



lemma mod_pos_half_pi: "mod_pos (pi / 2) (2 * pi) = pi / 2"
  using pi_gt_zero by (intro mod_pos_id) simp_all

lemma mod_pos_zero: "mod_pos 0 (2 * pi) = 0"
  by (simp add: mod_pos_def fmod_def)

lemma up_step: "staircase_step step_up_contour 0 3 (pi / 18000) = Some collapsed_contour"
  by (simp add: staircase_step_def Let_def step_up_contour_def collapsed_contour_def circ_nth_def
      vec_sub_def norm_vec_gt_iff line_angle_def atan2_def mod_pos_half_pi mod_pos_zero
      horizontal_or_vertical_def equals_real_def erase_circ_def erase_at_def)

lemma all_from_1_le_5:
  "(\<forall>k. 1 \<le> k \<and> k \<le> (5 :: nat) \<longrightarrow> P k) \<longleftrightarrow> P 1 \<and> P 2 \<and> P 3 \<and> P 4 \<and> P 5"
proof -
  have "{k. 1 \<le> k \<and> k \<le> (5 :: nat)} = {1, 2, 3, 4, 5}" by auto
  then have "(\<forall>k. 1 \<le> k \<and> k \<le> (5 :: nat) \<longrightarrow> P k) \<longleftrightarrow> (\<forall>k \<in> {1, 2, 3, 4, 5}. P k)" by blast
  then show ?thesis by simp
qed

lemma collapsed_steps:
  "\<forall>k. 1 \<le> k \<and> k \<le> 5 \<longrightarrow> staircase_step collapsed_contour k 3 (pi / 18000) = Some collapsed_contour"
  unfolding all_from_1_le_5
  by (intro conjI; rule staircase_step_far;
      simp add: collapsed_contour_def circ_nth_def vec_sub_def norm_vec_gt_iff)

lemma collapsed_length: "length collapsed_contour = 5"
  by (simp add: collapsed_contour_def)

lemma remove_staircases_unfold:
  "0 < fuel \<Longrightarrow> remove_staircases fuel contour curidx min_dist eps =
     (if curidx < length contour + 1
      then (case staircase_step contour curidx min_dist eps of
              None \<Rightarrow> None
            | Some contour' \<Rightarrow> remove_staircases (fuel - 1) contour' (curidx + 1) min_dist eps)
      else Some contour)"
  by (cases fuel) (auto split: option.splits)

lemma up_loop: "remove_staircases 8 step_up_contour 0 3 (pi / 18000) = Some collapsed_contour"
proof -
  have "remove_staircases 7 collapsed_contour 1 3 (pi / 18000) = Some collapsed_contour"
    using collapsed_steps
    by (intro remove_staircases_unchanged) (simp_all add: collapsed_length)
  then show ?thesis
    by (subst remove_staircases_unfold) (simp_all add: up_step)
qed



lemma down_angles:
  "line_angle (0, 2) (1, 2) = 0"
  "line_angle (1, 2) (1, 1) = - (pi / 2)"
  "line_angle (1, 1) (2, 1) = 0"
  "line_angle (2, 1) (12, - 9) = - (pi / 4)"
  "line_angle (12, - 9) (12, - 19) = - (pi / 2)"
  "line_angle (12, - 19) (- 21, - 19) = pi"
  "line_angle (- 21, - 19) (0, 2) = pi / 4"
  by (simp_all add: line_angle_def atan2_def arctan_one arctan_minus)


lemma mod_pos_2_neg:
  assumes "- 2 < q" "q < 0"
  shows "mod_pos q 2 = q + 2"
proof -
  have "- 1 < q / 2" "q / 2 \<le> 0" using assms by simp_all
  then have "\<lceil>q / 2\<rceil> = 0" by (simp add: ceiling_eq_iff)
  then show ?thesis using assms by (simp add: mod_pos_def fmod_def)
qed

lemma not_straight_at:
  assumes q: "1 / 18000 \<le> q \<and> q \<le> 2 - 1 / 18000 \<or> 1 / 18000 - 2 \<le> q \<and> q \<le> - (1 / 18000)"
    and turn: "line_angle_between (circ_nth contour (k - 1)) (circ_nth contour k)
             (circ_nth contour k) (circ_nth contour (k + 1)) = q * pi"
  shows "\<not> straight_at contour k (pi / 18000)"
proof -
  define m where "m = mod_pos q 2"
  have m: "1 / 18000 \<le> m \<and> m \<le> 2 - 1 / 18000"
    using q unfolding m_def
  proof
    assume a: "1 / 18000 \<le> q \<and> q \<le> 2 - 1 / 18000"
    then have "mod_pos q 2 = q" by (intro mod_pos_id) simp_all
    then show "1 / 18000 \<le> mod_pos q 2 \<and> mod_pos q 2 \<le> 2 - 1 / 18000" using a by simp
  next
    assume a: "1 / 18000 - 2 \<le> q \<and> q \<le> - (1 / 18000)"
    then have "mod_pos q 2 = q + 2" by (intro mod_pos_2_neg) simp_all
    then show "1 / 18000 \<le> mod_pos q 2 \<and> mod_pos q 2 \<le> 2 - 1 / 18000" using a by simp
  qed
  have mp: "mod_pos (q * pi) (2 * pi) = m * pi"
    unfolding m_def by (rule mod_pos_pi)
  have lo: "pi / 18000 \<le> m * pi"
    using m mult_right_mono [of "1 / 18000" m pi] by simp
  have hi: "pi / 18000 \<le> (2 - m) * pi"
    using m mult_right_mono [of "1 / 18000" "2 - m" pi] by simp
  have "\<not> \<bar>if m * pi > pi then m * pi - 2 * pi else m * pi\<bar> < pi / 18000"
  proof (cases "m * pi > pi")
    case True
    have "m * pi - 2 * pi = - ((2 - m) * pi)" by (simp add: algebra_simps)
    moreover have "0 \<le> (2 - m) * pi" using m by simp
    ultimately have "\<bar>m * pi - 2 * pi\<bar> = (2 - m) * pi" by simp
    then show ?thesis using True hi by simp
  next
    case False
    have "0 \<le> m * pi" using m by simp
    then have "\<bar>m * pi\<bar> = m * pi" by simp
    then show ?thesis using False lo by simp
  qed
  then show ?thesis
    unfolding straight_at_def Let_def turn mp .
qed

lemma down_not_straight:
  "\<not> straight_at step_down_contour 1 (pi / 18000)"
  "\<not> straight_at step_down_contour 2 (pi / 18000)"
  "\<not> straight_at step_down_contour 3 (pi / 18000)"
  "\<not> straight_at step_down_contour 4 (pi / 18000)"
  "\<not> straight_at step_down_contour 5 (pi / 18000)"
  "\<not> straight_at step_down_contour 6 (pi / 18000)"
  "\<not> straight_at step_down_contour 7 (pi / 18000)"
  "\<not> straight_at step_down_contour 8 (pi / 18000)"
  "\<not> straight_at step_down_contour 9 (pi / 18000)"
  "\<not> straight_at step_down_contour 10 (pi / 18000)"
  "\<not> straight_at step_down_contour 11 (pi / 18000)"
  "\<not> straight_at step_down_contour 12 (pi / 18000)"
             apply (rule not_straight_at [where q = "- (1 / 2)"]; simp add: step_down_contour_def circ_nth_def line_angle_between_def down_angles)
            apply (rule not_straight_at [where q = "1 / 2"]; simp add: step_down_contour_def circ_nth_def line_angle_between_def down_angles)
           apply (rule not_straight_at [where q = "- (1 / 4)"]; simp add: step_down_contour_def circ_nth_def line_angle_between_def down_angles)
          apply (rule not_straight_at [where q = "- (1 / 4)"]; simp add: step_down_contour_def circ_nth_def line_angle_between_def down_angles)
         apply (rule not_straight_at [where q = "3 / 2"]; simp add: step_down_contour_def circ_nth_def line_angle_between_def down_angles)
        apply (rule not_straight_at [where q = "- (3 / 4)"]; simp add: step_down_contour_def circ_nth_def line_angle_between_def down_angles)
       apply (rule not_straight_at [where q = "- (1 / 4)"]; simp add: step_down_contour_def circ_nth_def line_angle_between_def down_angles)
      apply (rule not_straight_at [where q = "- (1 / 2)"]; simp add: step_down_contour_def circ_nth_def line_angle_between_def down_angles)
     apply (rule not_straight_at [where q = "1 / 2"]; simp add: step_down_contour_def circ_nth_def line_angle_between_def down_angles)
    apply (rule not_straight_at [where q = "- (1 / 4)"]; simp add: step_down_contour_def circ_nth_def line_angle_between_def down_angles)
   apply (rule not_straight_at [where q = "- (1 / 4)"]; simp add: step_down_contour_def circ_nth_def line_angle_between_def down_angles)
  apply (rule not_straight_at [where q = "3 / 2"]; simp add: step_down_contour_def circ_nth_def line_angle_between_def down_angles)
  done

lemma collapsed_angles:
  "line_angle (0, 0) (1, 0) = 0"
  "line_angle (1, 0) (12, 11) = pi / 4"
  "line_angle (12, 11) (12, 21) = pi / 2"
  "line_angle (12, 21) (- 21, 21) = pi"
  "line_angle (- 21, 21) (0, 0) = - (pi / 4)"
  by (simp_all add: line_angle_def atan2_def arctan_one arctan_minus)

lemma collapsed_not_straight:
  "\<not> straight_at collapsed_contour 1 (pi / 18000)"
  "\<not> straight_at collapsed_contour 2 (pi / 18000)"
  "\<not> straight_at collapsed_contour 3 (pi / 18000)"
  "\<not> straight_at collapsed_contour 4 (pi / 18000)"
  "\<not> straight_at collapsed_contour 5 (pi / 18000)"
  "\<not> straight_at collapsed_contour 6 (pi / 18000)"
  "\<not> straight_at collapsed_contour 7 (pi / 18000)"
  "\<not> straight_at collapsed_contour 8 (pi / 18000)"
         apply (rule not_straight_at [where q = "1 / 4"]; simp add: collapsed_contour_def circ_nth_def line_angle_between_def collapsed_angles)
        apply (rule not_straight_at [where q = "1 / 4"]; simp add: collapsed_contour_def circ_nth_def line_angle_between_def collapsed_angles)
       apply (rule not_straight_at [where q = "1 / 2"]; simp add: collapsed_contour_def circ_nth_def line_angle_between_def collapsed_angles)
      apply (rule not_straight_at [where q = "- (5 / 4)"]; simp add: collapsed_contour_def circ_nth_def line_angle_between_def collapsed_angles)
     apply (rule not_straight_at [where q = "1 / 4"]; simp add: collapsed_contour_def circ_nth_def line_angle_between_def collapsed_angles)
    apply (rule not_straight_at [where q = "1 / 4"]; simp add: collapsed_contour_def circ_nth_def line_angle_between_def collapsed_angles)
   apply (rule not_straight_at [where q = "1 / 4"]; simp add: collapsed_contour_def circ_nth_def line_angle_between_def collapsed_angles)
  apply (rule not_straight_at [where q = "1 / 2"]; simp add: collapsed_contour_def circ_nth_def line_angle_between_def collapsed_angles)
  done

lemma all_1_13:
  "(\<forall>k. 1 \<le> k \<and> k < (13 :: nat) \<longrightarrow> P k) \<longleftrightarrow> P 1 \<and> P 2 \<and> P 3 \<and> P 4 \<and> P 5 \<and> P 6 \<and> P 7 \<and> P 8 \<and> P 9 \<and> P 10 \<and> P 11 \<and> P 12"
proof -
  have "{k. 1 \<le> k \<and> k < (13 :: nat)} = {1, 2, 3, 4, 5, 6, 7, 8, 9, 10, 11, 12}" by (auto; presburger)
  then have "(\<forall>k. 1 \<le> k \<and> k < (13 :: nat) \<longrightarrow> P k) \<longleftrightarrow> (\<forall>k \<in> {1, 2, 3, 4, 5, 6, 7, 8, 9, 10, 11, 12}. P k)" by blast
  then show ?thesis by simp
qed

lemma all_1_9:
  "(\<forall>k. 1 \<le> k \<and> k < (9 :: nat) \<longrightarrow> P k) \<longleftrightarrow> P 1 \<and> P 2 \<and> P 3 \<and> P 4 \<and> P 5 \<and> P 6 \<and> P 7 \<and> P 8"
proof -
  have "{k. 1 \<le> k \<and> k < (9 :: nat)} = {1, 2, 3, 4, 5, 6, 7, 8}" by (auto; presburger)
  then have "(\<forall>k. 1 \<le> k \<and> k < (9 :: nat) \<longrightarrow> P k) \<longleftrightarrow> (\<forall>k \<in> {1, 2, 3, 4, 5, 6, 7, 8}. P k)" by blast
  then show ?thesis by simp
qed


lemma remove_straight_unchanged:
  assumes "contour \<noteq> []"
    and "\<And>k. curidx \<le> k \<Longrightarrow> k < 2 * length contour - 1 \<Longrightarrow> \<not> straight_at contour k eps"
    and "2 * length contour - 1 \<le> curidx + fuel"
  shows "remove_straight fuel contour curidx eps = Some contour"
  using assms
proof (induction fuel arbitrary: curidx)
  case 0
  then show ?case by simp
next
  case (Suc fuel)
  show ?case
  proof (cases "curidx < 2 * length contour - 1")
    case True
    then have "\<not> straight_at contour curidx eps"
      using Suc.prems(2) [of curidx] by simp
    moreover have "remove_straight fuel contour (curidx + 1) eps = Some contour"
      using Suc.prems by (intro Suc.IH) simp_all
    ultimately show ?thesis using True Suc.prems(1) by simp
  next
    case False
    then show ?thesis using Suc.prems(1) by simp
  qed
qed

lemma down_straight_loop: "remove_straight 13 step_down_contour 1 (pi / 18000) = Some step_down_contour"
proof -
  have "\<forall>k. 1 \<le> k \<and> k < 13 \<longrightarrow> \<not> straight_at step_down_contour k (pi / 18000)"
    unfolding all_1_13 by (intro conjI down_not_straight)
  then show ?thesis
    by (intro remove_straight_unchanged) (simp_all add: down_length, simp add: step_down_contour_def)
qed

lemma collapsed_straight_loop: "remove_straight 13 collapsed_contour 1 (pi / 18000) = Some collapsed_contour"
proof -
  have "\<forall>k. 1 \<le> k \<and> k < 9 \<longrightarrow> \<not> straight_at collapsed_contour k (pi / 18000)"
    unfolding all_1_9 by (intro conjI collapsed_not_straight)
  then show ?thesis
    by (intro remove_straight_unchanged) (simp_all add: collapsed_length, simp add: collapsed_contour_def)
qed

text \<open>
  Claim C9. The four vertices \<open>(0, 2)\<close>, \<open>(1, 2)\<close>, \<open>(1, 1)\<close>, \<open>(2, 1)\<close> of the first contour
  are closer than the minimum distance 3, the line between the second and the third is
  vertical, and the lines before and after it have the same angle; the claim has the
  third and fourth vertex dropped. \<open>simplify_contour\<close>, with the default tolerance of a
  hundredth of a degree, returns the contour unchanged. On the second contour, where
  the same step goes up, it drops the two vertices.
\<close>

theorem staircase_down_not_collapsed:
  "simplify_contour 13 step_down_contour 3 (pi / 18000) = Some step_down_contour
   \<and> simplify_contour 13 step_up_contour 3 (pi / 18000) = Some collapsed_contour"
proof -
  have "remove_staircases 13 step_down_contour 0 3 (pi / 18000) = Some step_down_contour"
    by (rule remove_staircases_unchanged) (simp_all add: down_steps down_length)
  then have down: "simplify_contour 13 step_down_contour 3 (pi / 18000) = Some step_down_contour"
    by (simp add: simplify_contour_def down_straight_loop [unfolded One_nat_def])
  have "remove_staircases 12 collapsed_contour 1 3 (pi / 18000) = Some collapsed_contour"
    using collapsed_steps
    by (intro remove_staircases_unchanged) (simp_all add: collapsed_length)
  then have "remove_staircases 13 step_up_contour 0 3 (pi / 18000) = Some collapsed_contour"
    by (subst remove_staircases_unfold) (simp_all add: up_step)
  then have up: "simplify_contour 13 step_up_contour 3 (pi / 18000) = Some collapsed_contour"
    by (simp add: simplify_contour_def collapsed_straight_loop [unfolded One_nat_def])
  show ?thesis
    using down up by simp
qed

section \<open>Fewer than three vertices\<close>

text \<open>
  Claim C10. For every input with fewer than three vertices, whatever the helper
  functions and the bound on the recursion are, \<open>calc_delaunay_iterative\<close> returns:
  its result is the triple of an empty list of Voronoi vertices, an empty list of
  triangles and an empty list of neighbour sets.
\<close>

theorem delaunay_few_vertices:
  assumes "length verts < 3"
  shows "calc_delaunay_iterative fuel h calc_hull_iterative_bintree verts eps = Some ([], [], [])"
  using assms by (simp add: calc_delaunay_iterative_def)

theorem delaunay_few_vertices_witness:
  "length [(0, 0), (1, 0) :: t_vec] < 3
   \<and> calc_delaunay_iterative 0 lines_spec (calc_hull_iterative lines_spec)
        [(0, 0), (1, 0)] (1 / 100000) = Some ([], [], [])"
  using delaunay_few_vertices [of "[(0, 0), (1, 0)]" 0 lines_spec
    "calc_hull_iterative lines_spec" "1 / 100000"]
  by simp

section \<open>A triangulation that starts with three points on a line\<close>


lemma atan2_q1: "0 < x \<Longrightarrow> 0 < y \<Longrightarrow> 0 < atan2 y x \<and> atan2 y x < pi / 2"
  using arctan_ubound [of "y / x"] by (simp add: atan2_def zero_less_arctan_iff)

lemma atan2_q2: "x < 0 \<Longrightarrow> 0 < y \<Longrightarrow> pi / 2 < atan2 y x \<and> atan2 y x < pi"
proof -
  assume x: "x < 0" and y: "0 < y"
  then have "y / x < 0" by (simp add: divide_pos_neg)
  then have "arctan (y / x) < 0" by (simp add: arctan_less_zero_iff)
  then show ?thesis using arctan_lbound [of "y / x"] x y by (simp add: atan2_def)
qed

lemma atan2_q3: "x < 0 \<Longrightarrow> y < 0 \<Longrightarrow> - pi < atan2 y x \<and> atan2 y x < - (pi / 2)"
proof -
  assume x: "x < 0" and y: "y < 0"
  then have "0 < y / x" by (simp add: divide_neg_neg)
  then have "0 < arctan (y / x)" by (simp add: zero_less_arctan_iff)
  then show ?thesis using arctan_ubound [of "y / x"] x y by (simp add: atan2_def)
qed

lemma atan2_q4: "0 < x \<Longrightarrow> y < 0 \<Longrightarrow> - (pi / 2) < atan2 y x \<and> atan2 y x < 0"
proof -
  assume x: "0 < x" and y: "y < 0"
  then have "y / x < 0" by (simp add: divide_neg_pos)
  then have "arctan (y / x) < 0" by (simp add: arctan_less_zero_iff)
  then show ?thesis using arctan_lbound [of "y / x"] x y by (simp add: atan2_def)
qed

lemma atan2_axis:
  "0 < x \<Longrightarrow> atan2 0 x = 0" "x < 0 \<Longrightarrow> atan2 0 x = pi"
  "0 < y \<Longrightarrow> atan2 y 0 = pi / 2" "y < 0 \<Longrightarrow> atan2 y 0 = - (pi / 2)" "atan2 0 0 = 0"
  by (simp_all add: atan2_def)

lemma sortA: "sort_vertices_by_angle_spec [(0, 0), (10, 0), (20, 0)] = ([(10, 0), (20, 0), (0, 0)], (10, 0))"
proof -
  have m: "vec_mean [(0, 0), (10, 0), (20, 0)] = (10, 0)"
    by (simp add: vec_mean_def vec_add_def vec_div_def)
  have a: "line_angle (10, 0) (0, 0) = pi" "line_angle (10, 0) (10, 0) = 0" "line_angle (10, 0) (20, 0) = 0"
    by (simp_all add: line_angle_def atan2_axis)
  show ?thesis
    by (simp add: sort_vertices_by_angle_spec_def m Let_def stable_sort_def a)
qed

lemma sortH: "sort_vertices_by_angle_spec [(10, 0), (20, 0), (10, 5), (0, 0)] = ([(0, 0), (10, 0), (20, 0), (10, 5)], (10, 5 / 4))"
proof -
  have m: "vec_mean [(10, 0), (20, 0), (10, 5), (0, 0)] = (10, 5 / 4)"
    by (simp add: vec_mean_def vec_add_def vec_div_def)
  have b: "line_angle (10, 5 / 4) (10, 0) = - (pi / 2)" "- (pi / 2) < line_angle (10, 5 / 4) (20, 0) \<and> line_angle (10, 5 / 4) (20, 0) < 0" "line_angle (10, 5 / 4) (10, 5) = pi / 2" "- pi < line_angle (10, 5 / 4) (0, 0) \<and> line_angle (10, 5 / 4) (0, 0) < - (pi / 2)"
    using  atan2_q4 [of "10" "- (5 / 4)"]  atan2_q3 [of "- 10" "- (5 / 4)"] by (simp_all add: line_angle_def atan2_axis)
  have c: "line_angle (10, 5 / 4) (10, 0) < line_angle (10, 5 / 4) (20, 0)"
    "line_angle (10, 5 / 4) (10, 0) < line_angle (10, 5 / 4) (10, 5)"
    "\<not> line_angle (10, 5 / 4) (10, 0) < line_angle (10, 5 / 4) (0, 0)"
    "\<not> line_angle (10, 5 / 4) (20, 0) < line_angle (10, 5 / 4) (10, 0)"
    "line_angle (10, 5 / 4) (20, 0) < line_angle (10, 5 / 4) (10, 5)"
    "\<not> line_angle (10, 5 / 4) (20, 0) < line_angle (10, 5 / 4) (0, 0)"
    "\<not> line_angle (10, 5 / 4) (10, 5) < line_angle (10, 5 / 4) (10, 0)"
    "\<not> line_angle (10, 5 / 4) (10, 5) < line_angle (10, 5 / 4) (20, 0)"
    "\<not> line_angle (10, 5 / 4) (10, 5) < line_angle (10, 5 / 4) (0, 0)"
    "line_angle (10, 5 / 4) (0, 0) < line_angle (10, 5 / 4) (10, 0)"
    "line_angle (10, 5 / 4) (0, 0) < line_angle (10, 5 / 4) (20, 0)"
    "line_angle (10, 5 / 4) (0, 0) < line_angle (10, 5 / 4) (10, 5)"
    using b pi_gt_zero by simp_all
  show ?thesis
    by (simp add: sort_vertices_by_angle_spec_def m Let_def stable_sort_def c)
qed
lemma sortT1: "sort_vertices_by_angle_spec [(10, 5), (20, 0), (0, 0)] = ([(0, 0), (20, 0), (10, 5)], (10, 5 / 3))"
proof -
  have m: "vec_mean [(10, 5), (20, 0), (0, 0)] = (10, 5 / 3)"
    by (simp add: vec_mean_def vec_add_def vec_div_def)
  have b: "line_angle (10, 5 / 3) (10, 5) = pi / 2" "- (pi / 2) < line_angle (10, 5 / 3) (20, 0) \<and> line_angle (10, 5 / 3) (20, 0) < 0" "- pi < line_angle (10, 5 / 3) (0, 0) \<and> line_angle (10, 5 / 3) (0, 0) < - (pi / 2)"
    using  atan2_q4 [of "10" "- (5 / 3)"] atan2_q3 [of "- 10" "- (5 / 3)"] by (simp_all add: line_angle_def atan2_axis)
  have c: "\<not> line_angle (10, 5 / 3) (10, 5) < line_angle (10, 5 / 3) (20, 0)"
    "\<not> line_angle (10, 5 / 3) (10, 5) < line_angle (10, 5 / 3) (0, 0)"
    "line_angle (10, 5 / 3) (20, 0) < line_angle (10, 5 / 3) (10, 5)"
    "\<not> line_angle (10, 5 / 3) (20, 0) < line_angle (10, 5 / 3) (0, 0)"
    "line_angle (10, 5 / 3) (0, 0) < line_angle (10, 5 / 3) (10, 5)"
    "line_angle (10, 5 / 3) (0, 0) < line_angle (10, 5 / 3) (20, 0)"
    using b pi_gt_zero by simp_all
  show ?thesis
    by (simp add: sort_vertices_by_angle_spec_def m Let_def stable_sort_def c)
qed
lemma sortTA: "sort_vertices_by_angle_spec [(5, - 1), (0, 0), (10, 0)] = ([(5, - 1), (10, 0), (0, 0)], (5, - (1 / 3)))"
proof -
  have m: "vec_mean [(5, - 1), (0, 0), (10, 0)] = (5, - (1 / 3))"
    by (simp add: vec_mean_def vec_add_def vec_div_def)
  have b: "line_angle (5, - (1 / 3)) (5, - 1) = - (pi / 2)" "pi / 2 < line_angle (5, - (1 / 3)) (0, 0) \<and> line_angle (5, - (1 / 3)) (0, 0) < pi" "0 < line_angle (5, - (1 / 3)) (10, 0) \<and> line_angle (5, - (1 / 3)) (10, 0) < pi / 2"
    using  atan2_q2 [of "- 5" "1 / 3"] atan2_q1 [of "5" "1 / 3"] by (simp_all add: line_angle_def atan2_axis)
  have c: "line_angle (5, - (1 / 3)) (5, - 1) < line_angle (5, - (1 / 3)) (0, 0)"
    "line_angle (5, - (1 / 3)) (5, - 1) < line_angle (5, - (1 / 3)) (10, 0)"
    "\<not> line_angle (5, - (1 / 3)) (0, 0) < line_angle (5, - (1 / 3)) (5, - 1)"
    "\<not> line_angle (5, - (1 / 3)) (0, 0) < line_angle (5, - (1 / 3)) (10, 0)"
    "\<not> line_angle (5, - (1 / 3)) (10, 0) < line_angle (5, - (1 / 3)) (5, - 1)"
    "line_angle (5, - (1 / 3)) (10, 0) < line_angle (5, - (1 / 3)) (0, 0)"
    using b pi_gt_zero by simp_all
  show ?thesis
    by (simp add: sort_vertices_by_angle_spec_def m Let_def stable_sort_def c)
qed
lemma sortTB: "sort_vertices_by_angle_spec [(5, - 1), (10, 0), (20, 0)] = ([(5, - 1), (20, 0), (10, 0)], (35 / 3, - (1 / 3)))"
proof -
  have m: "vec_mean [(5, - 1), (10, 0), (20, 0)] = (35 / 3, - (1 / 3))"
    by (simp add: vec_mean_def vec_add_def vec_div_def)
  have b: "- pi < line_angle (35 / 3, - (1 / 3)) (5, - 1) \<and> line_angle (35 / 3, - (1 / 3)) (5, - 1) < - (pi / 2)" "pi / 2 < line_angle (35 / 3, - (1 / 3)) (10, 0) \<and> line_angle (35 / 3, - (1 / 3)) (10, 0) < pi" "0 < line_angle (35 / 3, - (1 / 3)) (20, 0) \<and> line_angle (35 / 3, - (1 / 3)) (20, 0) < pi / 2"
    using atan2_q3 [of "- (20 / 3)" "- (2 / 3)"] atan2_q2 [of "- (5 / 3)" "1 / 3"] atan2_q1 [of "25 / 3" "1 / 3"] by (simp_all add: line_angle_def atan2_axis)
  have c: "line_angle (35 / 3, - (1 / 3)) (5, - 1) < line_angle (35 / 3, - (1 / 3)) (10, 0)"
    "line_angle (35 / 3, - (1 / 3)) (5, - 1) < line_angle (35 / 3, - (1 / 3)) (20, 0)"
    "\<not> line_angle (35 / 3, - (1 / 3)) (10, 0) < line_angle (35 / 3, - (1 / 3)) (5, - 1)"
    "\<not> line_angle (35 / 3, - (1 / 3)) (10, 0) < line_angle (35 / 3, - (1 / 3)) (20, 0)"
    "\<not> line_angle (35 / 3, - (1 / 3)) (20, 0) < line_angle (35 / 3, - (1 / 3)) (5, - 1)"
    "line_angle (35 / 3, - (1 / 3)) (20, 0) < line_angle (35 / 3, - (1 / 3)) (10, 0)"
    using b pi_gt_zero by simp_all
  show ?thesis
    by (simp add: sort_vertices_by_angle_spec_def m Let_def stable_sort_def c)
qed


lemma visible_lower_first:
  assumes "side_of_line (circ_at hullverts start) newvert (circ_at hullverts (start - 1)) \<ge> 0"
    and "0 \<le> start + 2 * int (length hullverts)"
  shows "visible_lower hullverts newvert start = start"
proof -
  obtain k where k: "nat (start + 2 * int (length hullverts) + 1) = Suc k"
    using assms(2) by (cases "nat (start + 2 * int (length hullverts) + 1)") auto
  have "[0 ..< Suc k] = 0 # [Suc 0 ..< Suc k]" by (simp add: upt_conv_Cons)
  then show ?thesis
    using assms(1) unfolding visible_lower_def Let_def k by simp
qed

lemma visible_upper_first:
  assumes "side_of_line (circ_at hullverts start) newvert (circ_at hullverts (start + 1)) \<le> 0"
    and "start < 3 * int (length hullverts)"
  shows "visible_upper hullverts newvert start = start"
proof -
  obtain k where k: "nat (3 * int (length hullverts) - start) = Suc k"
    using assms(2) by (cases "nat (3 * int (length hullverts) - start)") auto
  have "[0 ..< Suc k] = 0 # [Suc 0 ..< Suc k]" by (simp add: upt_conv_Cons)
  then show ?thesis
    using assms(1) unfolding visible_upper_def Let_def k by simp
qed

lemma visible_upper_second:
  assumes "\<not> side_of_line (circ_at hullverts start) newvert (circ_at hullverts (start + 1)) \<le> 0"
    and "side_of_line (circ_at hullverts (start + 1)) newvert (circ_at hullverts (start + 2)) \<le> 0"
    and "start + 1 < 3 * int (length hullverts)"
  shows "visible_upper hullverts newvert start = start + 1"
proof -
  obtain k where k: "nat (3 * int (length hullverts) - start) = Suc (Suc k)"
    using assms(3)
    by (cases "nat (3 * int (length hullverts) - start)"; simp;
        rename_tac m; case_tac m; simp; linarith)
  have "[0 ..< Suc (Suc k)] = 0 # Suc 0 # [Suc (Suc 0) ..< Suc (Suc k)]" by (simp add: upt_conv_Cons)
  then show ?thesis
    using assms(1, 2) unfolding visible_upper_def Let_def k by (simp add: add.commute)
qed

lemma flip_edge_blocked:
  assumes "get_triag_sharing_edge triags
             (triags ! triagidx ! ((nonsharedidx + 1) mod length (triags ! triagidx)))
             (triags ! triagidx ! ((nonsharedidx + 2) mod length (triags ! triagidx))) triagidx eps
           = Some (othertriagidx, s1, s2, ns)"
    and "\<not> is_conflicting_triag h (triags ! othertriagidx) (triags ! triagidx ! nonsharedidx)"
  shows "flip_edge (Suc fuel) h triags triagidx nonsharedidx eps = Some triags"
  using assms by (simp add: Let_def)

lemma degenerate_no_conflict:
  "\<not> is_conflicting_triag lines_spec [(0, 0), (10, 0), (20, 0)] pt"
  by (simp add: is_conflicting_triag_def lines_spec_def calc_circumcentre_spec_def)


lemmas geo_simps = side_of_line_def cross2_def vec_sub_def circ_at_def

lemma hull3: "calc_hull_iterative lines_spec [(0, 0), (10, 0), (20, 0)] (1 / 100000) = [(0, 0), (10, 0), (20, 0)]"
  by (simp add: calc_hull_iterative_def lines_spec_def remove_duplicates_spec_def equals_vec_def
      equals_real_def)

lemma in_hull_4:
  "is_vert_in_hull [(10, 0), (20, 0), (0, 0)] (10, 5) (Some (10, 0)) = (False, 1, 2)"
  "is_vert_in_hull [(10, 0), (20, 0), (0, 0)] (10, 5) None = (False, 1, 2)"
  by (simp_all add: is_vert_in_hull_def vec_mean_def vec_add_def vec_div_def geo_simps)

lemma lower_4: "visible_lower [(10, 0), (20, 0), (0, 0)] (10, 5) 1 = 1"
  by (rule visible_lower_first) (simp_all add: geo_simps)

lemma upper_4: "visible_upper [(10, 0), (20, 0), (0, 0)] (10, 5) 2 = 2"
  by (rule visible_upper_first) (simp_all add: geo_simps)

lemma visible_4: "visible_vertices [(10, 0), (20, 0), (0, 0)] (10, 5) 1 2 = [(20, 0), (0, 0)]"
  by (simp add: visible_vertices_def Let_def lower_4 upper_4 circ_at_def upto.simps)

lemma hull4:
  "calc_hull_iterative lines_spec [(0, 0), (10, 0), (20, 0), (10, 5)] (1 / 100000)
   = [(10, 0), (20, 0), (10, 5), (0, 0)]"
proof -
  have d: "remove_duplicates_spec [(0, 0), (10, 0), (20, 0), (10, 5)] (1 / 100000)
           = [(0, 0), (10, 0), (20, 0), (10, 5)]"
    by (simp add: remove_duplicates_spec_def equals_vec_def equals_real_def)
  have i: "insert_hull_vertex lines_spec (10, 0) (10, 5) [(10, 0), (20, 0), (0, 0)]
           = [(10, 0), (20, 0), (10, 5), (0, 0)]"
    by (simp add: insert_hull_vertex_def in_hull_4 Let_def lower_4 upper_4 insert_at_def)
  show ?thesis
    by (simp add: calc_hull_iterative_def lines_spec_def d sortA i [unfolded lines_spec_def])
qed


lemma lines_spec_fields:
  "get_containing_triag lines_spec = get_containing_triag_spec"
  "calc_circumcentre lines_spec = calc_circumcentre_spec"
  "sort_vertices_by_angle lines_spec = sort_vertices_by_angle_spec"
  by (simp_all add: lines_spec_def)

lemmas edge_simps = get_triag_sharing_edge_def edge_match_def equals_vec_def equals_real_def

lemma not_contained_4:
  "get_containing_triag_spec [[(0, 0), (10, 0), (20, 0)]] (10, 5) = None"
  by (simp add: get_containing_triag_spec_def triag_contains_def geo_simps)

lemma flip_4:
  "flip_edge (Suc fuel) lines_spec [[(0, 0), (10, 0), (20, 0)], [(10, 5), (20, 0), (0, 0)]] 1 0 (1 / 100000)
   = Some [[(0, 0), (10, 0), (20, 0)], [(10, 5), (20, 0), (0, 0)]]"
  by (rule flip_edge_blocked [where othertriagidx = 0 and ?s1.0 = 2 and ?s2.0 = 0 and ns = 1])
     (simp_all add: edge_simps degenerate_no_conflict)

lemma step_4:
  "insert_vertex (Suc fuel) lines_spec (calc_hull_iterative lines_spec) (1 / 100000) (10, 5)
     ([[(0, 0), (10, 0), (20, 0)]], [(0, 0), (10, 0), (20, 0)])
   = Some ([[(0, 0), (10, 0), (20, 0)], [(10, 5), (20, 0), (0, 0)]],
           [(0, 0), (10, 0), (20, 0), (10, 5)])"
  by (simp del: flip_edge.simps
      add: insert_vertex_def lines_spec_fields not_contained_4 hull3 sortA in_hull_4
        visible_4 [unfolded One_nat_def] flip_4 [unfolded One_nat_def])


lemma not_contained_5:
  "get_containing_triag_spec [[(0, 0), (10, 0), (20, 0)], [(10, 5), (20, 0), (0, 0)]] (5, - 1) = None"
  by (simp add: get_containing_triag_spec_def triag_contains_def geo_simps upt_rec)

lemma in_hull_5:
  "is_vert_in_hull [(0, 0), (10, 0), (20, 0), (10, 5)] (5, - 1) None = (False, 0, 1)"
  by (simp add: is_vert_in_hull_def vec_mean_def vec_add_def vec_div_def geo_simps)

lemma lower_5: "visible_lower [(0, 0), (10, 0), (20, 0), (10, 5)] (5, - 1) 0 = 0"
  by (rule visible_lower_first) (simp_all add: geo_simps)

lemma upper_5: "visible_upper [(0, 0), (10, 0), (20, 0), (10, 5)] (5, - 1) 1 = 2"
  using visible_upper_second [of "[(0, 0), (10, 0), (20, 0), (10, 5)]" 1 "(5, - 1)"]
  by (simp add: geo_simps)

lemma visible_5:
  "visible_vertices [(0, 0), (10, 0), (20, 0), (10, 5)] (5, - 1) 0 1 = [(0, 0), (10, 0), (20, 0)]"
  by (simp add: visible_vertices_def Let_def lower_5 upper_5 circ_at_def upto.simps)

lemma flip_5a:
  "flip_edge (Suc fuel) lines_spec
     [[(0, 0), (10, 0), (20, 0)], [(10, 5), (20, 0), (0, 0)], [(5, - 1), (0, 0), (10, 0)]] 2 0 (1 / 100000)
   = Some [[(0, 0), (10, 0), (20, 0)], [(10, 5), (20, 0), (0, 0)], [(5, - 1), (0, 0), (10, 0)]]"
  by (rule flip_edge_blocked [where othertriagidx = 0 and ?s1.0 = 0 and ?s2.0 = 1 and ns = 2])
     (simp_all add: edge_simps degenerate_no_conflict)

lemma flip_5b:
  "flip_edge (Suc fuel) lines_spec
     [[(0, 0), (10, 0), (20, 0)], [(10, 5), (20, 0), (0, 0)], [(5, - 1), (0, 0), (10, 0)],
      [(5, - 1), (10, 0), (20, 0)]] 3 0 (1 / 100000)
   = Some [[(0, 0), (10, 0), (20, 0)], [(10, 5), (20, 0), (0, 0)], [(5, - 1), (0, 0), (10, 0)],
      [(5, - 1), (10, 0), (20, 0)]]"
  by (rule flip_edge_blocked [where othertriagidx = 0 and ?s1.0 = 1 and ?s2.0 = 2 and ns = 0])
     (simp_all add: edge_simps degenerate_no_conflict)

lemma step_5:
  "insert_vertex (Suc fuel) lines_spec (calc_hull_iterative lines_spec) (1 / 100000) (5, - 1)
     ([[(0, 0), (10, 0), (20, 0)], [(10, 5), (20, 0), (0, 0)]], [(0, 0), (10, 0), (20, 0), (10, 5)])
   = Some ([[(0, 0), (10, 0), (20, 0)], [(10, 5), (20, 0), (0, 0)], [(5, - 1), (0, 0), (10, 0)],
            [(5, - 1), (10, 0), (20, 0)]],
           [(0, 0), (10, 0), (20, 0), (10, 5), (5, - 1)])"
  by (simp del: flip_edge.simps
      add: insert_vertex_def lines_spec_fields not_contained_5 hull4 sortH in_hull_5
        visible_5 [unfolded One_nat_def] visible_5
        flip_5a [unfolded numeral_2_eq_2] flip_5b [unfolded numeral_3_eq_3] flip_5a flip_5b)


lemma fst_finish_triags:
  "fst (finish_triags h eps idxs (ts, v, nb))
   = fold (\<lambda>i ts. ts [i := fst (sort_vertices_by_angle h (ts ! i))]) idxs ts"
  by (induction idxs arbitrary: ts v nb) (simp_all add: Let_def)

lemma triangles_of_result:
  assumes "insert_vertices fuel h hullfn eps (drop 3 verts)
             ([[verts ! 0, verts ! 1, verts ! 2]], [verts ! 0, verts ! 1, verts ! 2])
           = Some (triags, curverts)"
    and "\<not> length verts < 3"
  shows "map_option (fst \<circ> snd) (calc_delaunay_iterative fuel h hullfn verts eps)
         = Some (fold (\<lambda>i ts. ts [i := fst (sort_vertices_by_angle h (ts ! i))])
                   [0 ..< length triags] triags)"
proof -
  obtain ts v nb where f: "finish_triags h eps [0 ..< length triags] (triags, [], []) = (ts, v, nb)"
    by (cases "finish_triags h eps [0 ..< length triags] (triags, [], [])") auto
  have "ts = fold (\<lambda>i ts. ts [i := fst (sort_vertices_by_angle h (ts ! i))]) [0 ..< length triags] triags"
    using fst_finish_triags [of h eps "[0 ..< length triags]" triags "[]" "[]"] f by simp
  then show ?thesis
    using assms f by (simp add: calc_delaunay_iterative_def)
qed

lemma inserted:
  "insert_vertices 10 lines_spec (calc_hull_iterative lines_spec) (1 / 100000) (drop 3 collinear_start)
     ([[collinear_start ! 0, collinear_start ! 1, collinear_start ! 2]],
      [collinear_start ! 0, collinear_start ! 1, collinear_start ! 2])
   = Some ([[(0, 0), (10, 0), (20, 0)], [(10, 5), (20, 0), (0, 0)], [(5, - 1), (0, 0), (10, 0)],
            [(5, - 1), (10, 0), (20, 0)]],
           [(0, 0), (10, 0), (20, 0), (10, 5), (5, - 1)])"
proof -
  have f: "Suc 9 = 10" by simp
  show ?thesis
    by (simp add: collinear_start_def step_4 [of 9, unfolded f] step_5 [of 9, unfolded f])
qed

text \<open>
  Claim C2. On the five points of which the first three lie on a line, the triangle of
  these three points stays the first triangle of the list: its circumcentre is no
  finite point, so that no point conflicts with it, and every search for the triangle
  on the other side of an edge on that line ends with it. No edge on the line is
  flipped. The result holds the triangle \<open>(0, 0)\<close>, \<open>(20, 0)\<close>, \<open>(10, 5)\<close>, and the input
  point \<open>(5, - 1)\<close>, which is outside this triangle, is inside its circumcircle, by the
  test of the code itself.
\<close>

theorem collinear_start_not_delaunay:
  "map_option (fst \<circ> snd)
     (calc_delaunay_iterative 10 lines_spec (calc_hull_iterative lines_spec) collinear_start (1 / 100000))
   = Some [[(10, 0), (20, 0), (0, 0)], [(0, 0), (20, 0), (10, 5)], [(5, - 1), (10, 0), (0, 0)],
           [(5, - 1), (20, 0), (10, 0)]]
   \<and> is_conflicting_triag lines_spec [(0, 0), (20, 0), (10, 5)] (5, - 1)
   \<and> \<not> triag_contains [(0, 0), (20, 0), (10, 5)] (5, - 1)"
proof -
  have l: "\<not> length collinear_start < 3" by (simp add: collinear_start_def)
  have u: "[0 ..< 4] = [0, 1, 2, 3]" by (simp add: upt_rec)
  have r: "map_option (fst \<circ> snd)
     (calc_delaunay_iterative 10 lines_spec (calc_hull_iterative lines_spec) collinear_start (1 / 100000))
   = Some [[(10, 0), (20, 0), (0, 0)], [(0, 0), (20, 0), (10, 5)], [(5, - 1), (10, 0), (0, 0)],
           [(5, - 1), (20, 0), (10, 0)]]"
    unfolding triangles_of_result [OF inserted l]
    by (simp add: u lines_spec_fields sortA sortT1 sortTA sortTB)
  have v: "is_conflicting_triag lines_spec [(0, 0), (20, 0), (10, 5)] (5, - 1)"
    "\<not> triag_contains [(0, 0), (20, 0), (10, 5)] (5, - 1)"
    by (simp_all add: is_conflicting_triag_def lines_spec_fields calc_circumcentre_spec_def Let_def
        norm_vec_def vec_sub_def triag_contains_def geo_simps)
  show ?thesis
    using r v by simp
qed

section \<open>The hull implementations on small inputs\<close>


lemma atan2_diag: "atan2 (- 1) (- 1) = - (3 * pi / 4)"
  by (simp add: atan2_def arctan_one)

lemma atan2_up: "atan2 1 0 = pi / 2"
  by (simp add: atan2_def)

lemma atan2_right: "atan2 0 1 = 0"
  by (simp add: atan2_def)

lemma mean_triangle: "vec_mean [(- 1, - 1), (1, 0), (0, 1)] = (0, 0)"
  "vec_mean [(- 1, - 1), (0, 1), (1, 0)] = (0, 0)"
  by (simp_all add: vec_mean_def vec_add_def vec_div_def)

lemma sort_x_cw: "sort_vertices_spec cw_triangle (1 / 100000) = [(- 1, - 1), (0, 1), (1, 0)]"
  by (simp add: sort_vertices_spec_def cw_triangle_def stable_sort_def equals_real_def)

lemma sort_x_ccw: "sort_vertices_spec ccw_triangle (1 / 100000) = [(- 1, - 1), (0, 1), (1, 0)]"
  by (simp add: sort_vertices_spec_def ccw_triangle_def stable_sort_def equals_real_def)

lemma pi_order: "\<not> pi < - (3 * pi / 2)" "\<not> pi / 2 < - (3 * pi / 4)" "- (3 * pi / 4) < 0"  "- (3 * pi / 4) < pi / 2"
  "\<not> 0 < - (3 * pi / 4)"
  using pi_gt_zero by linarith+

lemma sort_angle_triangle:
  "sort_vertices_by_angle_spec [(- 1, - 1), (0, 1), (1, 0)] = ([(- 1, - 1), (1, 0), (0, 1)], (0, 0))"
  by (simp add: sort_vertices_by_angle_spec_def mean_triangle stable_sort_def line_angle_def
      atan2_diag atan2_up atan2_right pi_order Let_def)

lemma dedup_cw: "remove_duplicates_spec cw_triangle (1 / 100000) = cw_triangle"
  by (simp add: remove_duplicates_spec_def cw_triangle_def equals_vec_def equals_real_def)

lemma dedup_ccw: "remove_duplicates_spec ccw_triangle (1 / 100000) = ccw_triangle"
  by (simp add: remove_duplicates_spec_def ccw_triangle_def equals_vec_def equals_real_def)

lemma three_elements: "length r = 3 \<Longrightarrow> \<exists>a b c. r = [a, b, c]"
  by (cases r; simp; rename_tac a r1; case_tac r1; simp; rename_tac b r2; case_tac r2; simp)

lemma rotations_of_three:
  "is_rotation [a, b, c] ys \<longleftrightarrow> ys = [a, b, c] \<or> ys = [b, c, a] \<or> ys = [c, a, b]"
  by (auto simp add: is_rotation_def List.member_iff upt_rec rotate_def rotate1_def
      numeral_2_eq_2 numeral_3_eq_3)

lemma is_rotation_length: "is_rotation xs ys \<Longrightarrow> length ys = length xs"
  by (auto simp add: is_rotation_def List.member_iff)

text \<open>
  Whatever the helper functions do in detail: when they leave three distinct points
  alone, and sort the two orders of the same three points to one list, the recursive
  and the iterative hull cannot agree up to rotation on both orders of the triangle.
\<close>

lemma hull_orientation:
  assumes dedup: "remove_duplicates h cw_triangle eps = cw_triangle"
      "remove_duplicates h ccw_triangle eps = ccw_triangle"
    and sorted: "sort_vertices h ccw_triangle eps = sort_vertices h cw_triangle eps"
    and r1: "calc_hull_recursive fuel h cw_triangle eps = Some r1"
    and r2: "calc_hull_recursive fuel h ccw_triangle eps = Some r2"
  shows "\<not> (is_rotation r1 (calc_hull_iterative h cw_triangle eps)
            \<and> is_rotation r2 (calc_hull_iterative h ccw_triangle eps))"
proof
  assume rot: "is_rotation r1 (calc_hull_iterative h cw_triangle eps)
            \<and> is_rotation r2 (calc_hull_iterative h ccw_triangle eps)"
  have same: "r2 = r1"
    using r1 r2 sorted by (simp add: calc_hull_recursive_def)
  have it1: "calc_hull_iterative h cw_triangle eps = cw_triangle"
    by (simp add: calc_hull_iterative_def dedup) (simp add: cw_triangle_def)
  have it2: "calc_hull_iterative h ccw_triangle eps = ccw_triangle"
    by (simp add: calc_hull_iterative_def dedup) (simp add: ccw_triangle_def)
  from rot have a: "is_rotation r1 cw_triangle" and b: "is_rotation r1 ccw_triangle"
    by (simp_all add: it1 it2 same)
  from a have "length r1 = 3"
    using is_rotation_length [of r1 cw_triangle] by (simp add: cw_triangle_def)
  then obtain x y z where r: "r1 = [x, y, z]"
    using three_elements by blast
  from a have "r1 = [(1, 0), (- 1, - 1), (0, 1)] \<or> r1 = [(0, 1), (1, 0), (- 1, - 1)]
      \<or> r1 = [(- 1, - 1), (0, 1), (1, 0)]"
    unfolding r rotations_of_three cw_triangle_def by (elim disjE) simp_all
  then show False
    using b by (elim disjE) (simp_all add: rotations_of_three ccw_triangle_def)
qed

text \<open>
  Claim C1. The spec makes the hull implementations interchangeable: the same vertex
  sequence up to the starting vertex. On three points given in clockwise order they
  differ. \<open>calc_hull_iterative\<close> returns at most three points as they come, without
  sorting them, whereas its own path for more points and \<open>calc_hull_recursive\<close> sort by
  angle: the recursive hull returns the three points in counter-clockwise order, and
  no rotation of one sequence is the other.
\<close>

theorem clockwise_triangle_hulls_differ:
  "calc_hull_recursive 1 lines_spec cw_triangle (1 / 100000) = Some [(- 1, - 1), (1, 0), (0, 1)]
   \<and> calc_hull_iterative lines_spec cw_triangle (1 / 100000) = [(1, 0), (- 1, - 1), (0, 1)]
   \<and> \<not> is_rotation [(- 1, - 1), (1, 0), (0, 1)] [(1, 0), (- 1, - 1), (0, 1 :: real) :: t_vec]"
proof -
  have a: "calc_hull_recursive 1 lines_spec cw_triangle (1 / 100000)
           = Some [(- 1, - 1), (1, 0), (0, 1)]"
    by (simp add: calc_hull_recursive_def lines_spec_def sort_x_cw sort_angle_triangle)
  have b: "calc_hull_iterative lines_spec cw_triangle (1 / 100000) = [(1, 0), (- 1, - 1), (0, 1)]"
    by (simp add: calc_hull_iterative_def lines_spec_def dedup_cw) (simp add: cw_triangle_def)
  have c: "\<not> is_rotation [(- 1, - 1), (1, 0), (0, 1)] [(1, 0), (- 1, - 1), (0, 1 :: real) :: t_vec]"
    by (simp add: rotations_of_three)
  show ?thesis
    using a b c by simp
qed

section \<open>The graph of the unit test\<close>

lemma test_vertex_index: "GetVertexIndex test_matrix ''v1'' = Some 0"
  by code_simp

lemma test_list_edges:
  "list_edges test_list
   = [[(1, 1), (3, 9), (4, 10)], [(2, 3), (3, 7)], [(0, 10), (3, 1), (4, 2)], [(1, 1), (4, 2)], []]"
  by code_simp

lemma dijk_matrix: "dijk (matrix_view test_matrix) 0 = [None, Some 0, Some 1, Some 2, Some 2]"
  by code_simp

lemma dijk_mod_matrix: "dijk_mod (matrix_view test_matrix) 0 = [None, Some 0, Some 1, Some 2, Some 2]"
  by code_simp

lemma dijk_list: "dijk (list_view test_list) 0 = [None, Some 0, Some 1, Some 2, Some 2]"
  by code_simp

lemma dijk_mod_list: "dijk_mod (list_view test_list) 0 = [None, Some 0, Some 1, Some 2, Some 2]"
  by code_simp

text \<open>
  Claim C5. On the graph of the unit test, with the vertices \<open>v1\<close> to \<open>v5\<close> at the
  indices 0 to 4, both functions return, from \<open>v1\<close> and on both representations of the
  graph, the predecessors none, \<open>v1\<close>, \<open>v2\<close>, \<open>v3\<close>, \<open>v3\<close>: the array that the test expects.
\<close>

theorem dijkstra_test_graph:
  "dijk (matrix_view test_matrix) 0 = [None, Some 0, Some 1, Some 2, Some 2]
   \<and> dijk_mod (matrix_view test_matrix) 0 = dijk (matrix_view test_matrix) 0
   \<and> dijk (list_view test_list) 0 = [None, Some 0, Some 1, Some 2, Some 2]
   \<and> dijk_mod (list_view test_list) 0 = dijk (list_view test_list) 0"
  by (simp add: dijk_matrix dijk_mod_matrix dijk_list dijk_mod_list)
end
